theory Spec2Isabelle
  imports Complex_Main "HOL-Library.Word" "HOL-Library.Monad_Syntax" "HOL-Library.Stream"
begin

section \<open>Vectors of \<open>size_t\<close> with checked access\<close>

text \<open>
  The operator works on \<open>std::vector<size_t>\<close>: entries are 64-bit unsigned words whose
  arithmetic wraps around. \<open>operator[]\<close> outside the vector is undefined behaviour in
  C++; the model gives such an access no result (\<open>None\<close>), so that a defined result
  is always one that the source computes without leaving its vectors.
\<close>

type_synonym size_t = "64 word"
type_synonym shape = "size_t list"

definition vat :: "'a list \<Rightarrow> nat \<Rightarrow> 'a option" where
  "vat xs i = (if i < length xs then Some (xs ! i) else None)"

definition put :: "'a list \<Rightarrow> nat \<Rightarrow> 'a \<Rightarrow> 'a list option" where
  "put xs i v = (if i < length xs then Some (xs[i := v]) else None)"

text \<open>\<open>for (i = ...) body\<close> over the indices \<open>is\<close>, threading what the body writes.\<close>

fun forM :: "nat list \<Rightarrow> (nat \<Rightarrow> 'a \<Rightarrow> 'a option) \<Rightarrow> 'a \<Rightarrow> 'a option" where
  "forM [] body a = Some a"
| "forM (i # is) body a = (case body i a of None \<Rightarrow> None | Some b \<Rightarrow> forM is body b)"

section \<open>The ConvTranspose operator\<close>

record ROperator_ConvTranspose =
  fUseSession :: bool
  fAttrAutopad :: string
  fAttrDilations :: shape
  fAttrGroup :: size_t
  fAttrKernelShape :: shape
  fAttrOutputPadding :: shape
  fAttrOutputShape :: shape
  fAttrPads :: shape
  fAttrStrides :: shape
  fNX :: string
  fNW :: string
  fNB :: string
  fNBroadcastedB :: string
  fNY :: string
  fShapeX :: shape
  fShapeW :: shape
  fShapeB :: shape
  fShapeY :: shape
  fType :: string
  fDim :: size_t

subsection \<open>ShapeInference\<close>

text \<open>Group, strides and dilations: the defaults of absent attributes.\<close>

definition default_attributes :: "ROperator_ConvTranspose \<Rightarrow> ROperator_ConvTranspose" where
  "default_attributes s =
     (let s1 = (if fAttrGroup s = 0 then s\<lparr>fAttrGroup := 1\<rparr> else s);
          s2 = (if fAttrStrides s1 = [] then s1\<lparr>fAttrStrides := replicate (unat (fDim s1)) 1\<rparr> else s1)
      in if fAttrDilations s2 = [] then s2\<lparr>fAttrDilations := replicate (unat (fDim s2)) 1\<rparr> else s2)"

text \<open>The kernel shape, when absent: the dilated extent of the weight's spatial axes
  (read from the member \<open>fShapeW\<close>).\<close>

definition default_kernel_shape :: "ROperator_ConvTranspose \<Rightarrow> ROperator_ConvTranspose option" where
  "default_kernel_shape s =
     (if fAttrKernelShape s = [] then do {
        ks \<leftarrow> forM [0..<unat (fDim s)]
               (\<lambda>i ks. do {
                  w \<leftarrow> vat (fShapeW s) (i + 2);
                  d \<leftarrow> vat (fAttrDilations s) i;
                  put ks i (w + (d - 1) * (w - 1)) })
               (replicate (unat (fDim s)) 0);
        Some (s\<lparr>fAttrKernelShape := ks\<rparr>) }
      else Some s)"

definition default_output_padding :: "ROperator_ConvTranspose \<Rightarrow> ROperator_ConvTranspose" where
  "default_output_padding s =
     (if fAttrOutputPadding s = [] then s\<lparr>fAttrOutputPadding := replicate (unat (fDim s)) 0\<rparr> else s)"

text \<open>The output shape, when absent: \<open>stride * (input - 1) + kernel - output_padding\<close>
  on every spatial axis, in \<open>size_t\<close> arithmetic.\<close>

definition default_output_shape ::
  "ROperator_ConvTranspose \<Rightarrow> shape \<Rightarrow> ROperator_ConvTranspose option" where
  "default_output_shape s inputShape =
     (if fAttrOutputShape s = [] then do {
        os \<leftarrow> forM [0..<unat (fDim s)]
               (\<lambda>i os. do {
                  let j = i + 2;
                  st \<leftarrow> vat (fAttrStrides s) i;
                  x \<leftarrow> vat inputShape j;
                  k \<leftarrow> vat (fAttrKernelShape s) i;
                  p \<leftarrow> vat (fAttrOutputPadding s) i;
                  put os i (st * (x - 1) + k - p) })
               (replicate (unat (fDim s)) 0);
        Some (s\<lparr>fAttrOutputShape := os\<rparr>) }
      else Some s)"

text \<open>The padding, when absent: the total padding of each axis (computed against the
  member \<open>fShapeX\<close>), split between the two sides according to \<open>auto_pad\<close>.\<close>

definition default_pads :: "ROperator_ConvTranspose \<Rightarrow> ROperator_ConvTranspose option" where
  "default_pads s =
     (if fAttrPads s = [] then do {
        totalPadding \<leftarrow> forM [0..<unat (fDim s)]
               (\<lambda>i tp. do {
                  let j = i + 2;
                  st \<leftarrow> vat (fAttrStrides s) i;
                  os \<leftarrow> vat (fAttrOutputShape s) i;
                  p \<leftarrow> vat (fAttrOutputPadding s) i;
                  k \<leftarrow> vat (fAttrKernelShape s) i;
                  x \<leftarrow> vat (fShapeX s) j;
                  put tp i (st * (os - 1) + p + k - x) })
               (replicate (unat (fDim s)) 1);
        pads \<leftarrow> forM [0..<unat (fDim s)]
               (\<lambda>i pads. do {
                  let end_i = i + unat (fDim s);
                  t \<leftarrow> vat totalPadding i;
                  if fAttrAutopad s = ''SAME_UPPER'' then do {
                    pads1 \<leftarrow> put pads i (t div 2);
                    b \<leftarrow> vat pads1 i;
                    put pads1 end_i (t - b) }
                  else do {
                    pads1 \<leftarrow> put pads end_i (t div 2);
                    e \<leftarrow> vat pads1 end_i;
                    put pads1 i (t - e) } })
               (replicate (2 * unat (fDim s)) 0);
        Some (s\<lparr>fAttrPads := pads\<rparr>) }
      else Some s)"

text \<open>
  \<open>ShapeInference\<close> returns the updated operator with the list of output shapes. An
  input shape of fewer than two entries gives no result: \<open>fDim = size - 2\<close> wraps
  around, and the source then either cannot allocate its vectors or writes
  \<open>outShape[1]\<close> outside \<open>outShape\<close>.
\<close>

definition ShapeInference ::
  "ROperator_ConvTranspose \<Rightarrow> shape list \<Rightarrow> (ROperator_ConvTranspose \<times> shape list) option" where
  "ShapeInference s input = do {
     inputShape \<leftarrow> vat input 0;
     weightShape \<leftarrow> vat input 1;
     let size = length inputShape;
     if size < 2 then None else do {
       let s0 = s\<lparr>fDim := of_nat size - 2\<rparr>;
       s1 \<leftarrow> default_kernel_shape (default_attributes s0);
       let s2 = default_output_padding s1;
       x0 \<leftarrow> vat inputShape 0;
       out0 \<leftarrow> put (replicate size 0) 0 x0;
       w1 \<leftarrow> vat weightShape 1;
       out1 \<leftarrow> put out0 1 (w1 * fAttrGroup s2);
       s3 \<leftarrow> default_output_shape s2 inputShape;
       s4 \<leftarrow> default_pads s3;
       outShape \<leftarrow> forM [0..<unat (fDim s4)]
                    (\<lambda>i out. do { v \<leftarrow> vat (fAttrOutputShape s4) i; put out (i + 2) v })
                    out1;
       Some (s4, [outShape]) } }"

text \<open>Every attribute vector that is present has one entry per spatial axis.\<close>

definition attributes_fit :: "ROperator_ConvTranspose \<Rightarrow> nat \<Rightarrow> bool" where
  "attributes_fit s n \<longleftrightarrow>
     (fAttrStrides s = [] \<or> length (fAttrStrides s) = n) \<and>
     (fAttrDilations s = [] \<or> length (fAttrDilations s) = n) \<and>
     (fAttrKernelShape s = [] \<or> length (fAttrKernelShape s) = n) \<and>
     (fAttrOutputPadding s = [] \<or> length (fAttrOutputPadding s) = n) \<and>
     (fAttrOutputShape s = [] \<or> length (fAttrOutputShape s) = n)"

text \<open>The state in which a call of \<open>ShapeInference\<close> leaves the attributes: the group is
  set, and no attribute vector is absent unless the operator has no spatial axis.\<close>

definition settled :: "ROperator_ConvTranspose \<Rightarrow> bool" where
  "settled s \<longleftrightarrow> fAttrGroup s \<noteq> 0 \<and>
     (unat (fDim s) = 0 \<or>
        fAttrStrides s \<noteq> [] \<and> fAttrDilations s \<noteq> [] \<and> fAttrKernelShape s \<noteq> [] \<and>
        fAttrOutputPadding s \<noteq> [] \<and> fAttrOutputShape s \<noteq> [] \<and> fAttrPads s \<noteq> [])"

subsection \<open>Errors, the helpers of \<open>SOFIE_common\<close> and the model\<close>

datatype error =
    runtime_error string
  | logic_error string
  | AssertionFailed
  | UndefinedBehaviour

text \<open>
  \<open>SOFIE_common.hxx\<close> is not among the sources. What the operator uses of it is a
  parameter of the model: the indentation \<open>SP\<close>, the printers of a shape and the
  broadcast of a bias over an output shape.
\<close>

record 'dat SOFIE_common =
  SP :: string
  ConvertShapeToString :: "shape \<Rightarrow> string"
  ConvertShapeToLength :: "shape \<Rightarrow> string"
  BroadcastConvBias :: "'dat \<Rightarrow> size_t \<Rightarrow> shape \<Rightarrow> 'dat"

text \<open>
  Modelled from the spec: \<open>RModel\<close> (its declaration and code are not among the sources).
  The spec speaks of tensors that are, or are not yet, declared in the enclosing model:
  the model is the table of the declared tensors' shapes, with their element types and
  the data of the initialized ones; a tensor is declared once it has been added, and
  adding or updating a tensor is given no failure by the spec.
\<close>

record ('ty, 'dat) RModel =
  UseSession :: bool
  fTensorShapes :: "string \<rightharpoonup> shape"
  fTensorTypes :: "string \<Rightarrow> 'ty"
  fTensorData :: "string \<Rightarrow> 'dat"

definition CheckIfTensorAlreadyExist :: "('ty, 'dat) RModel \<Rightarrow> string \<Rightarrow> bool" where
  "CheckIfTensorAlreadyExist m name = (fTensorShapes m name \<noteq> None)"

text \<open>The operator asks for the shape of tensors it has checked to be declared; the
  shape of any other name is written as the empty shape.\<close>

definition GetTensorShape :: "('ty, 'dat) RModel \<Rightarrow> string \<Rightarrow> shape" where
  "GetTensorShape m name = (case fTensorShapes m name of Some sh \<Rightarrow> sh | None \<Rightarrow> [])"

definition GetTensorType :: "('ty, 'dat) RModel \<Rightarrow> string \<Rightarrow> 'ty" where
  "GetTensorType m name = fTensorTypes m name"

definition GetInitializedTensorData :: "('ty, 'dat) RModel \<Rightarrow> string \<Rightarrow> 'dat" where
  "GetInitializedTensorData m name = fTensorData m name"

definition AddIntermediateTensor ::
  "('ty, 'dat) RModel \<Rightarrow> string \<Rightarrow> 'ty \<Rightarrow> shape \<Rightarrow> ('ty, 'dat) RModel" where
  "AddIntermediateTensor m name ty sh =
     m\<lparr>fTensorShapes := (fTensorShapes m)(name \<mapsto> sh),
       fTensorTypes := (fTensorTypes m)(name := ty)\<rparr>"

definition UpdateInitializedTensor ::
  "('ty, 'dat) RModel \<Rightarrow> string \<Rightarrow> 'ty \<Rightarrow> shape \<Rightarrow> 'dat \<Rightarrow> ('ty, 'dat) RModel" where
  "UpdateInitializedTensor m name ty sh dat =
     m\<lparr>fTensorShapes := (fTensorShapes m)(name \<mapsto> sh),
       fTensorTypes := (fTensorTypes m)(name := ty),
       fTensorData := (fTensorData m)(name := dat)\<rparr>"

subsection \<open>Initialize\<close>

text \<open>The bias, when it is named: it must be declared, and when its rank differs from the
  output's it is broadcast, for which its shape must start with the output channel count
  and the operator's type must be \<open>float\<close>.\<close>

definition initialize_bias ::
  "'dat SOFIE_common \<Rightarrow> ROperator_ConvTranspose \<Rightarrow> ('ty, 'dat) RModel \<Rightarrow>
     error + (ROperator_ConvTranspose \<times> ('ty, 'dat) RModel)" where
  "initialize_bias U s m =
     (if \<not> CheckIfTensorAlreadyExist m (fNB s) then
        Inl (runtime_error (''TMVA SOFIE Conv op Input Tensor '' @ fNB s @ '' is not found in model''))
      else
        let s1 = s\<lparr>fShapeB := GetTensorShape m (fNB s)\<rparr>;
            broadcast_needed = (length (fShapeB s1) \<noteq> length (fShapeY s1))
        in if broadcast_needed then
             let original_data = GetInitializedTensorData m (fNB s1)
             in if length (fShapeB s1) < 1 then
                  Inl (runtime_error ''TMVA SOFIE Conv op: Bias Tensor has empty shape'')
                else
                  case (vat (fShapeB s1) 0, vat (fShapeY s1) 1) of
                    (Some b0, Some y1) \<Rightarrow>
                      if b0 \<noteq> y1 then
                        Inl (runtime_error (''TMVA SOFIE Conv op: Bias Tensor has wrong shape: '' @
                                            ConvertShapeToString U (fShapeB s1)))
                      else if fType s1 \<noteq> ''float'' then
                        Inl (runtime_error
                          ''TMVA SOFIE Conv op: Broadcasting for non-float type tensors is not supported'')
                      else if \<not> fUseSession s1 then
                        let new_data = BroadcastConvBias U original_data b0 (fShapeY s1);
                            m1 = UpdateInitializedTensor m (fNB s1) (GetTensorType m (fNB s1))
                                   (fShapeY s1) new_data;
                            s2 = s1\<lparr>fShapeB := GetTensorShape m1 (fNB s1)\<rparr>
                        in Inr (s2\<lparr>fNBroadcastedB := fNB s2\<rparr>, m1)
                      else
                        let s2 = s1\<lparr>fNBroadcastedB := ''Broadcasted'' @ fNB s1\<rparr>
                        in Inr (s2, AddIntermediateTensor m (fNBroadcastedB s2)
                                      (GetTensorType m (fNB s2)) (fShapeY s2))
                  | _ \<Rightarrow> Inl UndefinedBehaviour
           else Inr (s1, m))"

text \<open>
  \<open>Initialize\<close> returns the operator and the model as it leaves them, or the exception it
  throws. (The line it prints to \<open>std::cout\<close> before it throws for a rank is not part of
  the result.) \<open>UndefinedBehaviour\<close> stands for a run that leaves a vector.
\<close>

definition Initialize ::
  "'dat SOFIE_common \<Rightarrow> ROperator_ConvTranspose \<Rightarrow> ('ty, 'dat) RModel \<Rightarrow>
     error + (ROperator_ConvTranspose \<times> ('ty, 'dat) RModel)" where
  "Initialize U s m =
     (let s1 = s\<lparr>fUseSession := UseSession m\<rparr>
      in if \<not> CheckIfTensorAlreadyExist m (fNX s1) then
        Inl (runtime_error (''TMVA SOFIE Conv Transpose op Input Tensor '' @ fNX s1 @
                            '' is not found in model''))
      else
        let s2 = s1\<lparr>fShapeX := GetTensorShape m (fNX s1)\<rparr>
        in if length (fShapeX s2) < 3 \<or> length (fShapeX s2) > 5 then
          Inl (runtime_error (''TMVA SOFIE Conv Transpose Op input data tensor'' @ fNX s2 @
                              '' is not of 3,4 or 5 dimensions''))
        else
          let s3 = s2\<lparr>fDim := of_nat (length (fShapeX s2)) - 2\<rparr>
          in if \<not> CheckIfTensorAlreadyExist m (fNW s3) then
            Inl (runtime_error (''TMVA SOFIE Conv op Input weight Tensor '' @ fNW s3 @
                                '' is not found in model''))
          else
            let s4 = s3\<lparr>fShapeW := GetTensorShape m (fNW s3)\<rparr>
            in if length (fShapeW s4) < 3 \<or> length (fShapeW s4) > 5 then
              Inl (runtime_error (''TMVA SOFIE Conv Transpose Op input weight tensor'' @ fNW s4 @
                                  '' is not of 3,4 or 5 dimensions''))
            else
              case ShapeInference s4 [fShapeX s4, fShapeW s4] of
                None \<Rightarrow> Inl UndefinedBehaviour
              | Some (s5, outs) \<Rightarrow>
                  (case vat outs 0 of
                     None \<Rightarrow> Inl UndefinedBehaviour
                   | Some Y \<Rightarrow>
                       let s6 = s5\<lparr>fShapeY := Y\<rparr>;
                           m1 = AddIntermediateTensor m (fNY s6) (GetTensorType m (fNX s6)) (fShapeY s6)
                       in if fNB s6 \<noteq> '''' then initialize_bias U s6 m1 else Inr (s6, m1)))"

subsection \<open>Generate\<close>

text \<open>A \<open>size_t\<close> sent to the output stream: its decimal digits.\<close>

fun string_of_nat :: "nat \<Rightarrow> string" where
  "string_of_nat n =
     (if n < 10 then [''0123456789'' ! n]
      else string_of_nat (n div 10) @ [''0123456789'' ! (n mod 10)])"

definition str :: "size_t \<Rightarrow> string" where
  "str w = string_of_nat (unat w)"

text \<open>Depth, height and width of a tensor of \<open>fDim\<close> spatial axes; an axis it does not
  have counts 1. The source computes the triple for the weight, the input and the output.\<close>

definition spatial_extents :: "size_t \<Rightarrow> shape \<Rightarrow> (size_t \<times> size_t \<times> size_t) option" where
  "spatial_extents nd sh = do {
     d \<leftarrow> (if nd > 2 then vat sh 2 else Some 1);
     h \<leftarrow> (if nd > 1 then vat sh (unat nd) else Some 1);
     w \<leftarrow> vat sh (unat (nd + 1));
     Some (d, h, w) }"

text \<open>The matrix of the (dilated) kernels: its declaration and the loops that fill it.
  Returned with the text is \<open>icstrideDil\<close>, the product of the kernel shape.\<close>

definition generate_kernel_matrix ::
  "'dat SOFIE_common \<Rightarrow> ROperator_ConvTranspose \<Rightarrow> string \<Rightarrow> size_t \<times> size_t \<times> size_t \<Rightarrow>
     (string \<times> size_t) option" where
  "generate_kernel_matrix U s OpName kext = do {
     let (kDepth, kHeight, kWidth) = kext;
     decl \<leftarrow>
       (if fUseSession s then
          Some (SP U @ fType s @ '' * '' @ OpName @ ''_f = fVec_'' @ OpName @ ''_f.data();\<newline>'')
        else do {
          k0 \<leftarrow> vat (fAttrKernelShape s) 0;
          kernelSize \<leftarrow>
            (if fDim s > 1 then do { k1 \<leftarrow> vat (fAttrKernelShape s) 1; Some (k0 * k1) }
             else Some k0);
          w0 \<leftarrow> vat (fShapeW s) 0;
          w1 \<leftarrow> vat (fShapeW s) 1;
          Some (SP U @ fType s @ '' '' @ OpName @ ''_f['' @ str (w0 * w1 * kernelSize) @
                ''] = {0};\<newline>'') });
     let id = (if fDim s > 2 then fDim s - 3 else 2);
     let ih = (if fDim s > 1 then fDim s - 2 else 1);
     let iw = fDim s - 1;
     wstrideDil \<leftarrow> vat (fAttrDilations s) (unat iw);
     let hstride = kWidth;
     kiw \<leftarrow> vat (fAttrKernelShape s) (unat iw);
     dih \<leftarrow> vat (fAttrDilations s) (unat ih);
     let hstrideDil = kiw * dih;
     let dstride = kHeight * kWidth;
     dstrideDil1 \<leftarrow>
       (if fDim s > 1 then do { kih \<leftarrow> vat (fAttrKernelShape s) (unat ih); Some (kiw * kih) }
        else Some kiw);
     dstrideDil \<leftarrow>
       (if fDim s > 2 then do { did \<leftarrow> vat (fAttrDilations s) (unat id); Some (dstrideDil1 * did) }
        else Some dstrideDil1);
     let icstride = kHeight * kWidth * kDepth;
     icstrideDil \<leftarrow> forM [0..<unat (fDim s)]
                      (\<lambda>i acc. do { k \<leftarrow> vat (fAttrKernelShape s) i; Some (acc * k) }) 1;
     w1 \<leftarrow> vat (fShapeW s) 1;
     let ocstride = w1 * icstride;
     let ocstrideDil = w1 * icstrideDil;
     w0 \<leftarrow> vat (fShapeW s) 0;
     Some (decl @
       SP U @ ''for (std::size_t oc = 0; oc < '' @ str w0 @ ''; oc++) {\<newline>'' @
       SP U @ SP U @ ''for (std::size_t ic = 0; ic < '' @ str w1 @ ''; ic++) {\<newline>'' @
       (if fDim s > 2 then
          SP U @ SP U @ SP U @ ''for (std::size_t kd = 0; kd < '' @ str kDepth @ ''; kd++) {\<newline>''
        else []) @
       (if fDim s > 1 then
          SP U @ SP U @ SP U @ ''for (std::size_t kh = 0; kh < '' @ str kHeight @ ''; kh++) {\<newline>''
        else []) @
       SP U @ SP U @ SP U @ SP U @ ''for (std::size_t kw = 0; kw < '' @ str kWidth @ ''; kw++) {\<newline>'' @
       SP U @ SP U @ SP U @ SP U @ SP U @ OpName @ ''_f[oc * '' @ str ocstrideDil @
         '' + ic * '' @ str icstrideDil @
       (if fDim s > 2 then '' + kd * '' @ str dstrideDil else []) @
       (if fDim s > 1 then '' + kh * '' @ str hstrideDil else []) @
       '' + kw * '' @ str wstrideDil @ ''  ] = tensor_'' @ fNW s @ ''[oc * '' @ str ocstride @
         '' + ic * '' @ str icstride @
       (if fDim s > 2 then '' + kd * '' @ str dstride else []) @
       (if fDim s > 1 then '' + kh * '' @ str hstride else []) @
       '' + kw ];\<newline>'' @
       SP U @ SP U @ SP U @ SP U @ ''}\<newline>'' @
       (if fDim s > 1 then SP U @ SP U @ SP U @ ''}\<newline>'' else []) @
       (if fDim s > 2 then SP U @ SP U @ SP U @ ''}\<newline>'' else []) @
       SP U @ SP U @ ''}\<newline>'' @
       SP U @ ''}\<newline>'',
       icstrideDil) }"

text \<open>The parameters of the matrix product, the unrolled input and the head of the loop
  over the batch.\<close>

definition generate_gemm_parameters ::
  "'dat SOFIE_common \<Rightarrow> ROperator_ConvTranspose \<Rightarrow> string \<Rightarrow> size_t \<Rightarrow>
     size_t \<times> size_t \<times> size_t \<Rightarrow> size_t \<Rightarrow> string option" where
  "generate_gemm_parameters U s OpName bsize oext icstrideDil = do {
     let (oDepth, oHeight, oWidth) = oext;
     w1 \<leftarrow> vat (fShapeW s) 1;
     Some (
       SP U @ ''char '' @ OpName @ ''_transA = 'N';\<newline>'' @
       SP U @ ''char '' @ OpName @ ''_transB = 'N';\<newline>'' @
       SP U @ ''int '' @ OpName @ ''_m = '' @ str (oHeight * oWidth * oDepth) @ '';\<newline>'' @
       SP U @ ''int '' @ OpName @ ''_n = '' @ str w1 @ '';\<newline>'' @
       SP U @ ''int '' @ OpName @ ''_k = '' @ str icstrideDil @ '';\<newline>'' @
       SP U @ ''float '' @ OpName @ ''_alpha = 1.0;\<newline>'' @
       SP U @ ''float '' @ OpName @ ''_beta = 0.0;\<newline>'' @
       (if fUseSession s then
          SP U @ fType s @ '' * '' @ OpName @ ''_xcol = fVec_'' @ OpName @ ''_xcol.data();\<newline>''
        else
          SP U @ fType s @ '' '' @ OpName @ ''_xcol['' @
            str (icstrideDil * oDepth * oHeight * oWidth) @ ''] = {0};\<newline>'') @
       SP U @ ''for (size_t n = 0; n < '' @ str bsize @ ''; n++) {\<newline>'') }"

text \<open>
  Asymmetric padding: the two sides of an axis are \<open>fAttrPads[i]\<close> and
  \<open>fAttrPads[i + fDim]\<close>. When they differ on some axis, a line is printed to
  \<open>std::cout\<close> and the first side of every axis becomes the average of the two. With
  one spatial axis the source then also writes \<open>fAttrPads[1]\<close> and \<open>fAttrStrides[1]\<close>.
  The result is the operator and the lines printed.
\<close>

definition asymmetric_warning :: string where
  "asymmetric_warning =
     ''TMVA SOFIE Operator Conv:  asymmetric padding not supported. Assume an average padding ''"

definition average_pads_1d :: "ROperator_ConvTranspose \<Rightarrow> (ROperator_ConvTranspose \<times> string list) option" where
  "average_pads_1d s =
     (if fDim s = 1 then do {
        p0 \<leftarrow> vat (fAttrPads s) 0;
        p1 \<leftarrow> vat (fAttrPads s) 1;
        (pads, printed) \<leftarrow>
          (if p0 \<noteq> p1 then do {
             pads \<leftarrow> put (fAttrPads s) 0 ((p0 + p1) div 2);
             Some (pads, [asymmetric_warning]) }
           else Some (fAttrPads s, []));
        pads1 \<leftarrow> put pads 1 0;
        strides \<leftarrow> put (fAttrStrides s) 1 1;
        Some (s\<lparr>fAttrPads := pads1, fAttrStrides := strides\<rparr>, printed) }
      else Some (s, []))"

definition average_pads_2d :: "ROperator_ConvTranspose \<Rightarrow> (ROperator_ConvTranspose \<times> string list) option" where
  "average_pads_2d s =
     (if fDim s = 2 then do {
        p0 \<leftarrow> vat (fAttrPads s) 0;
        p2 \<leftarrow> vat (fAttrPads s) 2;
        p1 \<leftarrow> vat (fAttrPads s) 1;
        p3 \<leftarrow> vat (fAttrPads s) 3;
        if p0 \<noteq> p2 \<or> p1 \<noteq> p3 then do {
          pads \<leftarrow> put (fAttrPads s) 0 ((p0 + p2) div 2);
          pads1 \<leftarrow> put pads 1 ((p1 + p3) div 2);
          Some (s\<lparr>fAttrPads := pads1\<rparr>, [asymmetric_warning]) }
        else Some (s, []) }
      else Some (s, []))"

definition average_pads_3d :: "ROperator_ConvTranspose \<Rightarrow> (ROperator_ConvTranspose \<times> string list) option" where
  "average_pads_3d s =
     (if fDim s = 3 then do {
        p0 \<leftarrow> vat (fAttrPads s) 0;
        p3 \<leftarrow> vat (fAttrPads s) 3;
        p1 \<leftarrow> vat (fAttrPads s) 1;
        p4 \<leftarrow> vat (fAttrPads s) 4;
        p2 \<leftarrow> vat (fAttrPads s) 2;
        p5 \<leftarrow> vat (fAttrPads s) 5;
        if p0 \<noteq> p3 \<or> p1 \<noteq> p4 \<or> p2 \<noteq> p5 then do {
          pads \<leftarrow> put (fAttrPads s) 0 ((p0 + p3) div 2);
          pads1 \<leftarrow> put pads 1 ((p1 + p4) div 2);
          pads2 \<leftarrow> put pads1 2 ((p2 + p5) div 2);
          Some (s\<lparr>fAttrPads := pads2\<rparr>, [asymmetric_warning]) }
        else Some (s, []) }
      else Some (s, []))"

definition average_pads :: "ROperator_ConvTranspose \<Rightarrow> (ROperator_ConvTranspose \<times> string list) option" where
  "average_pads s = do {
     (s1, printed1) \<leftarrow> average_pads_1d s;
     (s2, printed2) \<leftarrow> average_pads_2d s1;
     (s3, printed3) \<leftarrow> average_pads_3d s2;
     Some (s3, printed1 @ printed2 @ printed3) }"

text \<open>The call that unrolls the input (\<open>Im2col\<close>, or \<open>Im2col_3d\<close> with three spatial
  axes). The source writes it out once for a single group and once inside the loop over
  the groups, with the same text.\<close>

definition generate_im2col ::
  "'dat SOFIE_common \<Rightarrow> ROperator_ConvTranspose \<Rightarrow> string \<Rightarrow> size_t \<times> size_t \<times> size_t \<Rightarrow>
     string option" where
  "generate_im2col U s OpName iext = do {
     let (iDepth, iHeight, iWidth) = iext;
     x1 \<leftarrow> vat (fShapeX s) 1;
     if fDim s < 3 then do {
       args \<leftarrow>
         (if fDim s = 1 then do {
            k0 \<leftarrow> vat (fAttrKernelShape s) 0;
            p0 \<leftarrow> vat (fAttrPads s) 0;
            st0 \<leftarrow> vat (fAttrStrides s) 0;
            d0 \<leftarrow> vat (fAttrDilations s) 0;
            Some (''1, '' @ str k0 @ '',0,'' @ str p0 @ '',1,'' @ str st0 @ '',1,'' @ str d0) }
          else do {
            k0 \<leftarrow> vat (fAttrKernelShape s) 0;
            k1 \<leftarrow> vat (fAttrKernelShape s) 1;
            p0 \<leftarrow> vat (fAttrPads s) 0;
            p1 \<leftarrow> vat (fAttrPads s) 1;
            st0 \<leftarrow> vat (fAttrStrides s) 0;
            st1 \<leftarrow> vat (fAttrStrides s) 1;
            d0 \<leftarrow> vat (fAttrDilations s) 0;
            d1 \<leftarrow> vat (fAttrDilations s) 1;
            Some (str k0 @ '','' @ str k1 @ '','' @ str p0 @ '','' @ str p1 @ '','' @
                  str st0 @ '','' @ str st1 @ '','' @ str d0 @ '','' @ str d1) });
       Some (SP U @ SP U @ ''TMVA::Experimental::SOFIE::UTILITY::Im2col<float>(tensor_'' @ fNX s @
             '' + x_offset,'' @ str x1 @ '','' @ str iHeight @ '','' @ str iWidth @ '','' @
             args @ '','' @ OpName @ ''_xcol);\<newline>\<newline> '') }
     else do {
       k0 \<leftarrow> vat (fAttrKernelShape s) 0;
       k1 \<leftarrow> vat (fAttrKernelShape s) 1;
       k2 \<leftarrow> vat (fAttrKernelShape s) 2;
       p0 \<leftarrow> vat (fAttrPads s) 0;
       p1 \<leftarrow> vat (fAttrPads s) 1;
       p2 \<leftarrow> vat (fAttrPads s) 2;
       st0 \<leftarrow> vat (fAttrStrides s) 0;
       st1 \<leftarrow> vat (fAttrStrides s) 1;
       st2 \<leftarrow> vat (fAttrStrides s) 2;
       d0 \<leftarrow> vat (fAttrDilations s) 0;
       d1 \<leftarrow> vat (fAttrDilations s) 1;
       d2 \<leftarrow> vat (fAttrDilations s) 2;
       Some (SP U @ SP U @ ''TMVA::Experimental::SOFIE::UTILITY::Im2col_3d<float>(tensor_'' @ fNX s @
             '' + x_offset,'' @ str x1 @ '','' @ str iDepth @ '','' @ str iHeight @ '','' @
             str iWidth @ '','' @ str k0 @ '','' @ str k1 @ '','' @ str k2 @ '','' @
             str p0 @ '','' @ str p1 @ '','' @ str p2 @ '','' @
             str st0 @ '','' @ str st1 @ '','' @ str st2 @ '','' @
             str d0 @ '','' @ str d1 @ '','' @ str d2 @ '','' @ OpName @ ''_xcol);\<newline>\<newline> '') } }"

definition sgemm_head :: "'dat SOFIE_common \<Rightarrow> string \<Rightarrow> string" where
  "sgemm_head U OpName =
     SP U @ SP U @ ''BLAS::sgemm_(&'' @ OpName @ ''_transA, &'' @ OpName @ ''_transB, &'' @ OpName @
     ''_m, &'' @ OpName @ ''_n, &'' @ OpName @ ''_k, &'' @ OpName @ ''_alpha, '' @ OpName @
     ''_xcol, &'' @ OpName @ ''_m,\<newline>''"

text \<open>The body of the loop over the batch: one product for a single group, a loop over the
  groups otherwise. The offsets of a group divide by \<open>fAttrGroup\<close>; a division by zero
  has no result.\<close>

definition generate_batch_body ::
  "'dat SOFIE_common \<Rightarrow> ROperator_ConvTranspose \<Rightarrow> string \<Rightarrow> size_t \<times> size_t \<times> size_t \<Rightarrow>
     size_t \<times> size_t \<times> size_t \<Rightarrow> size_t \<Rightarrow> string option" where
  "generate_batch_body U s OpName iext oext icstrideDil = do {
     let (iDepth, iHeight, iWidth) = iext;
     let (oDepth, oHeight, oWidth) = oext;
     if fAttrGroup s = 1 then do {
       x1 \<leftarrow> vat (fShapeX s) 1;
       y1 \<leftarrow> vat (fShapeY s) 1;
       im2col \<leftarrow> generate_im2col U s OpName iext;
       Some (
         SP U @ SP U @ ''size_t x_offset = n * '' @ str (x1 * iDepth * iHeight * iWidth) @ '';\<newline>'' @
         SP U @ SP U @ ''size_t out_offset = n * '' @ str (y1 * oDepth * oHeight * oWidth) @ '';\<newline>'' @
         im2col @
         sgemm_head U OpName @
         SP U @ SP U @ SP U @ OpName @ ''_f, &'' @ OpName @ ''_k, &'' @ OpName @ ''_beta, tensor_'' @
           fNY s @ '' + out_offset, &'' @ OpName @ ''_m);\<newline>'') }
     else if fAttrGroup s = 0 then None
     else do {
       x1 \<leftarrow> vat (fShapeX s) 1;
       y1 \<leftarrow> vat (fShapeY s) 1;
       im2col \<leftarrow> generate_im2col U s OpName iext;
       w0 \<leftarrow> vat (fShapeW s) 0;
       w1 \<leftarrow> vat (fShapeW s) 1;
       Some (
         SP U @ SP U @ ''for (size_t g = 0; g < '' @ str (fAttrGroup s) @ ''; g++) {\<newline>'' @
         SP U @ SP U @ ''size_t x_offset = n * '' @ str (x1 * iHeight * iWidth) @ '' + g * '' @
           str (x1 * iHeight * iWidth div fAttrGroup s) @ '';\<newline> '' @
         SP U @ SP U @ ''size_t out_offset = n * '' @ str (y1 * oHeight * oWidth) @ '' + g * '' @
           str (y1 * oHeight * oWidth div fAttrGroup s) @ '';\<newline> '' @
         im2col @
         SP U @ SP U @ SP U @ ''size_t offset_f = g * '' @
           str (w0 * w1 * icstrideDil div fAttrGroup s) @ '';\<newline>'' @
         sgemm_head U OpName @
         SP U @ SP U @ SP U @ OpName @ ''_f + offset_f, &'' @ OpName @ ''_k, &'' @ OpName @
           ''_beta, tensor_'' @ fNY s @ '' + out_offset'' @ '', &'' @ OpName @ ''_m);\<newline>'' @
         SP U @ SP U @ ''}\<newline>'') } }"

text \<open>The bias, once broadcast, is added to the output.\<close>

definition generate_bias ::
  "'dat SOFIE_common \<Rightarrow> ROperator_ConvTranspose \<Rightarrow> string \<Rightarrow> size_t \<times> size_t \<times> size_t \<Rightarrow>
     string option" where
  "generate_bias U s OpName oext = do {
     let (oDepth, oHeight, oWidth) = oext;
     if fNBroadcastedB s \<noteq> '''' then do {
       y0 \<leftarrow> vat (fShapeY s) 0;
       y1 \<leftarrow> vat (fShapeY s) 1;
       Some (
         SP U @ ''int '' @ OpName @ ''_size = '' @ str (y0 * y1 * oDepth * oHeight * oWidth) @ '';\<newline>'' @
         SP U @ ''float '' @ OpName @ ''_gamma = 1.0;\<newline>'' @
         SP U @ ''int '' @ OpName @ ''_incx = 1;\<newline>'' @
         SP U @ ''int '' @ OpName @ ''_incy = 1;\<newline>'' @
         SP U @ ''BLAS::saxpy_(&'' @ OpName @ ''_size, &'' @ OpName @ ''_gamma, tensor_'' @
           fNBroadcastedB s @ '', &'' @ OpName @ ''_incx, tensor_'' @ fNY s @ '', &'' @ OpName @
           ''_incy);\<newline>'') }
     else Some [] }"

text \<open>What \<open>Generate\<close> does once it has found the operator initialized: the operator as it
  leaves it, the lines printed to \<open>std::cout\<close>, and the code.\<close>

definition generate_code ::
  "'dat SOFIE_common \<Rightarrow> ROperator_ConvTranspose \<Rightarrow> string \<Rightarrow>
     (ROperator_ConvTranspose \<times> string list \<times> string) option" where
  "generate_code U s OpName = do {
     bsize \<leftarrow> vat (fShapeX s) 0;
     kext \<leftarrow> spatial_extents (fDim s) (fShapeW s);
     iext \<leftarrow> spatial_extents (fDim s) (fShapeX s);
     oext \<leftarrow> spatial_extents (fDim s) (fShapeY s);
     (kernels, icstrideDil) \<leftarrow> generate_kernel_matrix U s OpName kext;
     gemm \<leftarrow> generate_gemm_parameters U s OpName bsize oext icstrideDil;
     (s1, printed) \<leftarrow> average_pads s;
     body \<leftarrow> generate_batch_body U s1 OpName iext oext icstrideDil;
     bias \<leftarrow> generate_bias U s1 OpName oext;
     Some (s1, printed,
       ''\<newline>//----  operator ConvTranspose '' @ OpName @ ''\<newline>'' @
       kernels @ gemm @ body @ SP U @ ''}\<newline>'' @ bias) }"

definition Generate ::
  "'dat SOFIE_common \<Rightarrow> ROperator_ConvTranspose \<Rightarrow> string \<Rightarrow>
     error + (ROperator_ConvTranspose \<times> string list \<times> string)" where
  "Generate U s OpName0 =
     (let OpName = ''op_'' @ OpName0
      in if fShapeX s = [] \<or> fShapeW s = [] \<or> (fNB s \<noteq> '''' \<and> fShapeB s = []) \<or> fShapeY s = [] then
        Inl (runtime_error ''TMVA SOFIE Conv Op called to Generate without being initialized first'')
      else
        case generate_code U s OpName of
          None \<Rightarrow> Inl UndefinedBehaviour
        | Some r \<Rightarrow> Inr r)"

section \<open>Binary64 arithmetic\<close>

text \<open>
  A \<open>double\<close> is a real number, one of the two infinities, or NaN. The two zeros are
  not told apart: the PDF never divides by a zero whose sign could matter, and compares
  and returns zeros only. \<open>round64\<close> rounds a real number to the nearest binary64
  number, ties to even: numbers of magnitude at least \<open>2^-1022\<close> have 53 significant
  bits, smaller ones are multiples of \<open>2^-1074\<close>, and a rounded magnitude of \<open>2^1024\<close> or
  more is an infinity.
\<close>

datatype double = Finite real | PlusInfinity | MinusInfinity | NaN

definition pow2 :: "int \<Rightarrow> real" where
  "pow2 k = 2 powr of_int k"

definition binade :: "real \<Rightarrow> int" where
  "binade x = max \<lfloor>log 2 \<bar>x\<bar>\<rfloor> (- 1022)"

definition ulp :: "real \<Rightarrow> real" where
  "ulp x = pow2 (binade x - 52)"

text \<open>The nearest integer, the even one of two that are equally near.\<close>

definition rne :: "real \<Rightarrow> int" where
  "rne y = (let f = \<lfloor>y\<rfloor>; d = y - of_int f
            in if d < 1 / 2 then f else if 1 / 2 < d then f + 1 else if even f then f else f + 1)"

definition round64 :: "real \<Rightarrow> double" where
  "round64 x = (let r = of_int (rne (x / ulp x)) * ulp x
                in if pow2 1024 \<le> \<bar>r\<bar> then (if 0 < x then PlusInfinity else MinusInfinity)
                   else Finite r)"

definition infinity :: "bool \<Rightarrow> double" where
  "infinity positive = (if positive then PlusInfinity else MinusInfinity)"

text \<open>The operations of IEEE 754: a finite result is the rounded exact result; NaN comes
  from NaN, from \<open>\<infinity> - \<infinity>\<close>, \<open>0 * \<infinity>\<close>, \<open>0 / 0\<close>, \<open>\<infinity> / \<infinity>\<close> and the square root of a
  negative number.\<close>

fun dadd :: "double \<Rightarrow> double \<Rightarrow> double" where
  "dadd (Finite x) (Finite y) = round64 (x + y)"
| "dadd NaN b = NaN"
| "dadd a NaN = NaN"
| "dadd PlusInfinity MinusInfinity = NaN"
| "dadd MinusInfinity PlusInfinity = NaN"
| "dadd PlusInfinity b = PlusInfinity"
| "dadd a PlusInfinity = PlusInfinity"
| "dadd MinusInfinity b = MinusInfinity"
| "dadd a MinusInfinity = MinusInfinity"

fun dsub :: "double \<Rightarrow> double \<Rightarrow> double" where
  "dsub (Finite x) (Finite y) = round64 (x - y)"
| "dsub NaN b = NaN"
| "dsub a NaN = NaN"
| "dsub PlusInfinity PlusInfinity = NaN"
| "dsub MinusInfinity MinusInfinity = NaN"
| "dsub PlusInfinity b = PlusInfinity"
| "dsub a PlusInfinity = MinusInfinity"
| "dsub MinusInfinity b = MinusInfinity"
| "dsub a MinusInfinity = PlusInfinity"

fun dmul :: "double \<Rightarrow> double \<Rightarrow> double" where
  "dmul (Finite x) (Finite y) = round64 (x * y)"
| "dmul NaN b = NaN"
| "dmul a NaN = NaN"
| "dmul (Finite x) PlusInfinity = (if x = 0 then NaN else infinity (0 < x))"
| "dmul (Finite x) MinusInfinity = (if x = 0 then NaN else infinity (x < 0))"
| "dmul PlusInfinity (Finite y) = (if y = 0 then NaN else infinity (0 < y))"
| "dmul MinusInfinity (Finite y) = (if y = 0 then NaN else infinity (y < 0))"
| "dmul PlusInfinity PlusInfinity = PlusInfinity"
| "dmul PlusInfinity MinusInfinity = MinusInfinity"
| "dmul MinusInfinity PlusInfinity = MinusInfinity"
| "dmul MinusInfinity MinusInfinity = PlusInfinity"

fun ddiv :: "double \<Rightarrow> double \<Rightarrow> double" where
  "ddiv (Finite x) (Finite y) =
     (if y = 0 then (if x = 0 then NaN else infinity (0 < x)) else round64 (x / y))"
| "ddiv NaN b = NaN"
| "ddiv a NaN = NaN"
| "ddiv (Finite x) PlusInfinity = Finite 0"
| "ddiv (Finite x) MinusInfinity = Finite 0"
| "ddiv PlusInfinity (Finite y) = infinity (0 \<le> y)"
| "ddiv MinusInfinity (Finite y) = infinity (y < 0)"
| "ddiv PlusInfinity b = NaN"
| "ddiv MinusInfinity b = NaN"

text \<open>\<open>sqrt\<close> is rounded correctly by IEEE 754; \<open>exp\<close> and \<open>asinh\<close> of the C library are
  taken to be so too.\<close>

fun dsqrt :: "double \<Rightarrow> double" where
  "dsqrt (Finite x) = (if x < 0 then NaN else round64 (sqrt x))"
| "dsqrt PlusInfinity = PlusInfinity"
| "dsqrt MinusInfinity = NaN"
| "dsqrt NaN = NaN"

fun dexp :: "double \<Rightarrow> double" where
  "dexp (Finite x) = round64 (exp x)"
| "dexp PlusInfinity = PlusInfinity"
| "dexp MinusInfinity = Finite 0"
| "dexp NaN = NaN"

fun dasinh :: "double \<Rightarrow> double" where
  "dasinh (Finite x) = round64 (arsinh x)"
| "dasinh PlusInfinity = PlusInfinity"
| "dasinh MinusInfinity = MinusInfinity"
| "dasinh NaN = NaN"

text \<open>The comparisons \<open><\<close> and \<open><=\<close>: false whenever an operand is NaN.\<close>

fun dless :: "double \<Rightarrow> double \<Rightarrow> bool" where
  "dless (Finite x) (Finite y) = (x < y)"
| "dless NaN b = False"
| "dless a NaN = False"
| "dless a MinusInfinity = False"
| "dless PlusInfinity b = False"
| "dless MinusInfinity b = True"
| "dless a PlusInfinity = True"

fun dle :: "double \<Rightarrow> double \<Rightarrow> bool" where
  "dle (Finite x) (Finite y) = (x \<le> y)"
| "dle NaN b = False"
| "dle a NaN = False"
| "dle MinusInfinity b = True"
| "dle a PlusInfinity = True"
| "dle a MinusInfinity = False"
| "dle PlusInfinity b = False"

section \<open>The Johnson PDF\<close>

text \<open>
  A proxy (\<open>RooRealProxy\<close>) gives the value of the variable it stands for and the limits
  of its ranges; the range \<open>None\<close> is the default range (a null \<open>rangeName\<close>). The values
  are finite numbers. \<open>evaluate\<close> computes with them in binary64 arithmetic, where its
  quotient can overflow and its exponential underflow. The analytic integral and the
  generator are given in real arithmetic, the arithmetic that their \<open>double\<close>
  computations round.
\<close>

record RooRealProxy =
  val :: real
  proxy_min :: "string option \<Rightarrow> real"
  proxy_max :: "string option \<Rightarrow> real"

text \<open>The members \<open>_mass\<close>, \<open>_mu\<close>, \<open>_lambda\<close>, \<open>_gamma\<close>, \<open>_delta\<close> and
  \<open>_massThreshold\<close>.\<close>

record RooJohnson =
  m_mass :: RooRealProxy
  m_mu :: RooRealProxy
  m_lambda :: RooRealProxy
  m_gamma :: RooRealProxy
  m_delta :: RooRealProxy
  m_massThreshold :: real

text \<open>\<open>TMath::TwoPi()\<close> is the binary64 number nearest to \<open>2 * pi\<close>.\<close>

definition TwoPi :: double where
  "TwoPi = round64 (2 * pi)"

definition evaluate :: "RooJohnson \<Rightarrow> double" where
  "evaluate p =
     (let mass = Finite (val (m_mass p)); mu = Finite (val (m_mu p));
          lambda = Finite (val (m_lambda p)); gamma = Finite (val (m_gamma p));
          delta = Finite (val (m_delta p))
      in if dless mass (Finite (m_massThreshold p)) then Finite 0
      else
        let arg = ddiv (dsub mass mu) lambda;
            expo = dadd gamma (dmul delta (dasinh arg));
            result = dmul (ddiv (ddiv delta (dsqrt TwoPi))
                                (dmul lambda (dsqrt (dadd (Finite 1) (dmul arg arg)))))
                          (dexp (dmul (dmul (Finite (- 0.5)) expo) expo))
        in result)"

text \<open>
  The codes of the analytic integrals are the enumeration \<open>IntegralType\<close> of
  \<open>RooJohnson.h\<close>, which is not among the sources: its values are a parameter. An
  enumeration without initializers numbers its constants consecutively.
\<close>

record IntegralType =
  kMass :: int
  kMean :: int
  kLambda :: int
  kGamma :: int
  kDelta :: int

definition consecutive :: "IntegralType \<Rightarrow> bool" where
  "consecutive K \<longleftrightarrow>
     kMean K = kMass K + 1 \<and> kLambda K = kMean K + 1 \<and>
     kGamma K = kLambda K + 1 \<and> kDelta K = kGamma K + 1"

datatype JohnsonVar = VarMass | VarMu | VarLambda | VarGamma | VarDelta

text \<open>
  \<open>matchArgs\<close> belongs to the base class, which is not among the sources: it is a
  parameter, taking the set of variables asked for and the member, and giving the set it
  has filled in when the member matches.
\<close>

definition getAnalyticalIntegral ::
  "('vars \<Rightarrow> JohnsonVar \<Rightarrow> 'vars option) \<Rightarrow> IntegralType \<Rightarrow> 'vars \<Rightarrow> int \<times> 'vars option" where
  "getAnalyticalIntegral matchArgs K allVars =
     (case matchArgs allVars VarMass of Some analVars \<Rightarrow> (kMass K, Some analVars) | None \<Rightarrow>
      case matchArgs allVars VarMu of Some analVars \<Rightarrow> (kMean K, Some analVars) | None \<Rightarrow>
      case matchArgs allVars VarLambda of Some analVars \<Rightarrow> (kLambda K, Some analVars) | None \<Rightarrow>
      case matchArgs allVars VarGamma of Some analVars \<Rightarrow> (kGamma K, Some analVars) | None \<Rightarrow>
      case matchArgs allVars VarDelta of Some analVars \<Rightarrow> (kDelta K, Some analVars) | None \<Rightarrow>
      (0, None))"

text \<open>The limits of the integral, moved to the scale of the underlying normal
  distribution. A failed \<open>assert\<close> is the error \<open>AssertionFailed\<close>.\<close>

definition integral_limits ::
  "IntegralType \<Rightarrow> RooJohnson \<Rightarrow> int \<Rightarrow> string option \<Rightarrow> error + real \<times> real" where
  "integral_limits K p code rangeName =
     (if kMass K \<le> code \<and> code \<le> kLambda K then
        (case
           (if code = kMass K then
              Inr ((proxy_min (m_mass p) rangeName - val (m_mu p)) / val (m_lambda p),
                   (proxy_max (m_mass p) rangeName - val (m_mu p)) / val (m_lambda p))
            else if code = kMean K then
              Inr ((val (m_mass p) - proxy_min (m_mu p) rangeName) / val (m_lambda p),
                   (val (m_mass p) - proxy_max (m_mu p) rangeName) / val (m_lambda p))
            else if code = kLambda K then
              Inr ((val (m_mass p) - val (m_mu p)) / proxy_min (m_lambda p) rangeName,
                   (val (m_mass p) - val (m_mu p)) / proxy_max (m_lambda p) rangeName)
            else Inl AssertionFailed)
         of
           Inl e \<Rightarrow> Inl e
         | Inr (argMin, argMax) \<Rightarrow>
             Inr (val (m_gamma p) + val (m_delta p) * arsinh argMin,
                  val (m_gamma p) + val (m_delta p) * arsinh argMax))
      else if code = kGamma K then
        let arg = (val (m_mass p) - val (m_mu p)) / val (m_lambda p)
        in Inr (proxy_min (m_gamma p) rangeName + val (m_delta p) * arsinh arg,
                proxy_max (m_gamma p) rangeName + val (m_delta p) * arsinh arg)
      else if code = kDelta K then
        let arg = (val (m_mass p) - val (m_mu p)) / val (m_lambda p)
        in Inr (val (m_gamma p) + proxy_min (m_delta p) rangeName * arsinh arg,
                val (m_gamma p) + proxy_max (m_delta p) rangeName * arsinh arg)
      else Inl AssertionFailed)"

text \<open>\<open>std::erfc\<close> is a function of the C library: it is the parameter \<open>erfc\<close>.\<close>

definition analyticalIntegral ::
  "(real \<Rightarrow> real) \<Rightarrow> IntegralType \<Rightarrow> RooJohnson \<Rightarrow> int \<Rightarrow> string option \<Rightarrow> error + real" where
  "analyticalIntegral erfc K p code rangeName =
     (let globalNorm = 1
      in case integral_limits K p code rangeName of
           Inl e \<Rightarrow> Inl e
         | Inr (min', max') \<Rightarrow>
             let ecmin = erfc \<bar>min' / sqrt 2\<bar>;
                 ecmax = erfc \<bar>max' / sqrt 2\<bar>;
                 result = 0.5 * (if min' * max' < 0 then 2 - (ecmin + ecmax)
                                 else if max' \<le> 0 then ecmax - ecmin else ecmin - ecmax)
             in Inr (globalNorm * (if result \<noteq> 0 then result else 1 / 10 ^ 300)))"

definition getGenerator ::
  "('vars \<Rightarrow> JohnsonVar \<Rightarrow> 'vars option) \<Rightarrow> 'vars \<Rightarrow> int \<times> 'vars option" where
  "getGenerator matchArgs directVars =
     (case matchArgs directVars VarMass of
        Some generateVars \<Rightarrow> (1, Some generateVars)
      | None \<Rightarrow> (0, None))"

text \<open>
  The random generator is the stream of the values its successive calls of
  \<open>Gaus(0, 1)\<close> return. The loop draws until a mass is inside the range of the
  observable and not below the threshold; it need not end, and then has no result.
\<close>

partial_function (option) generate_mass :: "RooJohnson \<Rightarrow> real stream \<Rightarrow> (real \<times> real stream) option" where
  "generate_mass p rng =
     (let gauss = shd rng;
          mass = val (m_lambda p) * sinh ((gauss - val (m_gamma p)) / val (m_delta p)) + val (m_mu p)
      in if proxy_min (m_mass p) None \<le> mass \<and> mass \<le> proxy_max (m_mass p) None \<and>
            m_massThreshold p \<le> mass
         then Some (mass, stl rng)
         else generate_mass p (stl rng))"

text \<open>\<open>generateEvent\<close>: \<open>None\<close> when it does not return, else the exception thrown or
  the PDF and the generator as the call leaves them.\<close>

definition generateEvent ::
  "RooJohnson \<Rightarrow> int \<Rightarrow> real stream \<Rightarrow> (error + RooJohnson \<times> real stream) option" where
  "generateEvent p code rng =
     (if code = 1 then
        (case generate_mass p rng of
           None \<Rightarrow> None
         | Some (mass, rng1) \<Rightarrow> Some (Inr (p\<lparr>m_mass := (m_mass p)\<lparr>val := mass\<rparr>\<rparr>, rng1)))
      else Some (Inl (logic_error ''Generation in other variables not yet implemented.'')))"

section \<open>Conditions in the words of the specification\<close>

text \<open>
  When \<open>Initialize\<close> is to fail, in the specification's words: a tensor it refers to (the
  input, the weight, a bias that is named) is not declared in the model; or the rank of
  the input or of the weight is outside 3 to 5; or the bias needs broadcasting (its rank
  is not the output's, which is the input's) and has an invalid shape (empty, or not
  starting with the output channel count) or the operator's type is not \<open>float\<close>.
\<close>

definition Initialize_fails_spec :: "ROperator_ConvTranspose \<Rightarrow> ('ty, 'dat) RModel \<Rightarrow> bool" where
  "Initialize_fails_spec s m \<longleftrightarrow>
     (let X = GetTensorShape m (fNX s); W = GetTensorShape m (fNW s); B = GetTensorShape m (fNB s);
          channels = W ! 1 * (if fAttrGroup s = 0 then 1 else fAttrGroup s)
      in \<not> CheckIfTensorAlreadyExist m (fNX s) \<or> \<not> CheckIfTensorAlreadyExist m (fNW s) \<or>
         (fNB s \<noteq> '''' \<and> \<not> CheckIfTensorAlreadyExist m (fNB s)) \<or>
         length X < 3 \<or> 5 < length X \<or> length W < 3 \<or> 5 < length W \<or>
         (fNB s \<noteq> '''' \<and> length B \<noteq> length X \<and>
            (B = [] \<or> B ! 0 \<noteq> channels \<or> fType s \<noteq> ''float'')))"

text \<open>The complementary error function that \<open>std::erfc\<close> computes, by the power series
  of the error function.\<close>

definition erfc_real :: "real \<Rightarrow> real" where
  "erfc_real x = 1 - 2 / sqrt pi * (\<Sum>n. (- 1) ^ n * x ^ (2 * n + 1) / (fact n * (2 * real n + 1)))"

text \<open>The operator as \<open>Initialize\<close> leaves it for \<open>n\<close> spatial axes: shapes of rank \<open>n + 2\<close>,
  attribute vectors of one entry per axis, pads of two, a group count that is set.\<close>

definition generate_ready :: "ROperator_ConvTranspose \<Rightarrow> nat \<Rightarrow> bool" where
  "generate_ready s n \<longleftrightarrow>
     fDim s = of_nat n \<and>
     length (fShapeX s) = n + 2 \<and> length (fShapeW s) = n + 2 \<and> length (fShapeY s) = n + 2 \<and>
     length (fAttrKernelShape s) = n \<and> length (fAttrStrides s) = n \<and>
     length (fAttrDilations s) = n \<and> length (fAttrPads s) = 2 * n \<and>
     fAttrGroup s \<noteq> 0 \<and> (fNB s = '''' \<or> fShapeB s \<noteq> [])"



text \<open>
  \<open>ShapeInference\<close> on \<open>n >= 1\<close> spatial axes stays inside its vectors: an attribute
  vector that is given reaches over the \<open>n\<close> axes wherever it is read. The dilations and
  the weight shape \<open>fShapeW\<close> are read when the kernel shape is absent; strides, kernel
  shape and output padding when the output shape or the pads are derived; \<open>fShapeX\<close> when
  the pads are derived; the output shape always.
\<close>

definition inference_in_range :: "ROperator_ConvTranspose \<Rightarrow> nat \<Rightarrow> bool" where
  "inference_in_range s n \<longleftrightarrow>
     (let reaches = (\<lambda>v :: shape. v = [] \<or> n \<le> length v);
          derives = (fAttrOutputShape s = [] \<or> fAttrPads s = [])
      in (fAttrKernelShape s = [] \<longrightarrow> n + 2 \<le> length (fShapeW s) \<and> reaches (fAttrDilations s)) \<and>
         (derives \<longrightarrow> reaches (fAttrStrides s) \<and> reaches (fAttrKernelShape s) \<and>
                       reaches (fAttrOutputPadding s)) \<and>
         reaches (fAttrOutputShape s) \<and>
         (fAttrPads s = [] \<longrightarrow> n + 2 \<le> length (fShapeX s)))"

text \<open>\<open>Initialize\<close> gets as far as shape inference: input and weight are declared, with
  ranks from 3 to 5. It then leaves a vector when shape inference, on the two declared
  shapes, does.\<close>

definition reaches_inference :: "ROperator_ConvTranspose \<Rightarrow> ('ty, 'dat) RModel \<Rightarrow> bool" where
  "reaches_inference s m \<longleftrightarrow>
     CheckIfTensorAlreadyExist m (fNX s) \<and> CheckIfTensorAlreadyExist m (fNW s) \<and>
     length (GetTensorShape m (fNX s)) \<in> {3, 4, 5} \<and> length (GetTensorShape m (fNW s)) \<in> {3, 4, 5}"

definition Initialize_leaves_vector :: "ROperator_ConvTranspose \<Rightarrow> ('ty, 'dat) RModel \<Rightarrow> bool" where
  "Initialize_leaves_vector s m \<longleftrightarrow>
     reaches_inference s m \<and>
     \<not> inference_in_range (s\<lparr>fShapeX := GetTensorShape m (fNX s), fShapeW := GetTensorShape m (fNW s)\<rparr>)
         (length (GetTensorShape m (fNX s)) - 2)"

text \<open>A \<open>double\<close> that is not negative: NaN, or at least 0.\<close>

definition not_negative :: "double \<Rightarrow> bool" where
  "not_negative d \<longleftrightarrow> d = NaN \<or> dle (Finite 0) d"


section \<open>Concrete operators and PDFs\<close>

text \<open>A transposed convolution of a \<open>1 x 3 x 8 x 8\<close> input with a \<open>3 x 2 x 3 x 3\<close> weight and
  strides \<open>(1, 1)\<close>, nothing else given; the same operator after shape inference; and the
  latter with the output shape stored and pads that differ on the first axis.\<close>

definition example_2d :: ROperator_ConvTranspose where
  "example_2d = \<lparr>fUseSession = False, fAttrAutopad = ''NOTSET'', fAttrDilations = [], fAttrGroup = 0,
     fAttrKernelShape = [], fAttrOutputPadding = [], fAttrOutputShape = [], fAttrPads = [],
     fAttrStrides = [1, 1], fNX = ''X'', fNW = ''W'', fNB = '''', fNBroadcastedB = '''', fNY = ''Y'',
     fShapeX = [1, 3, 8, 8], fShapeW = [3, 2, 3, 3], fShapeB = [], fShapeY = [],
     fType = ''float'', fDim = 0\<rparr>"

definition example_2d_inferred :: ROperator_ConvTranspose where
  "example_2d_inferred = example_2d\<lparr>fAttrDilations := [1, 1], fAttrGroup := 1,
     fAttrKernelShape := [3, 3], fAttrOutputPadding := [0, 0], fAttrOutputShape := [10, 10],
     fAttrPads := [2, 2, 2, 2], fDim := 2\<rparr>"

definition example_2d_asymmetric :: ROperator_ConvTranspose where
  "example_2d_asymmetric = example_2d_inferred\<lparr>fShapeY := [1, 2, 10, 10], fAttrPads := [1, 2, 4, 2]\<rparr>"

text \<open>Helpers that print nothing and broadcast nothing, and a model that declares the
  input \<open>X\<close> and the weight \<open>W\<close>.\<close>

definition example_common :: "unit SOFIE_common" where
  "example_common = \<lparr>SP = ''   '', ConvertShapeToString = (\<lambda>sh. ''''),
     ConvertShapeToLength = (\<lambda>sh. ''''), BroadcastConvBias = (\<lambda>dat n sh. dat)\<rparr>"

definition example_model :: "(unit, unit) RModel" where
  "example_model = \<lparr>UseSession = False,
     fTensorShapes = [''X'' \<mapsto> [1, 3, 8, 8], ''W'' \<mapsto> [3, 2, 3, 3]],
     fTensorTypes = (\<lambda>name. ()), fTensorData = (\<lambda>name. ())\<rparr>"

text \<open>A model whose weight has one axis less than its input.\<close>

definition example_model_rank3_weight :: "(unit, unit) RModel" where
  "example_model_rank3_weight = \<lparr>UseSession = False,
     fTensorShapes = [''X'' \<mapsto> [1, 3, 8, 8], ''W'' \<mapsto> [3, 2, 3]],
     fTensorTypes = (\<lambda>name. ()), fTensorData = (\<lambda>name. ())\<rparr>"

text \<open>One spatial axis: a \<open>1 x 3 x 8\<close> input, a \<open>3 x 2 x 3\<close> weight and the pads \<open>(0, 1)\<close>;
  the operator as \<open>Initialize\<close> leaves it; and the model that declares the two tensors.\<close>

definition example_1d :: ROperator_ConvTranspose where
  "example_1d = \<lparr>fUseSession = False, fAttrAutopad = ''NOTSET'', fAttrDilations = [], fAttrGroup = 0,
     fAttrKernelShape = [], fAttrOutputPadding = [], fAttrOutputShape = [], fAttrPads = [0, 1],
     fAttrStrides = [], fNX = ''X'', fNW = ''W'', fNB = '''', fNBroadcastedB = '''', fNY = ''Y'',
     fShapeX = [], fShapeW = [], fShapeB = [], fShapeY = [],
     fType = ''float'', fDim = 0\<rparr>"

definition example_1d_initialized :: ROperator_ConvTranspose where
  "example_1d_initialized = example_1d\<lparr>fAttrDilations := [1], fAttrGroup := 1,
     fAttrKernelShape := [3], fAttrOutputPadding := [0], fAttrOutputShape := [10],
     fAttrStrides := [1], fShapeX := [1, 3, 8], fShapeW := [3, 2, 3], fShapeY := [1, 2, 10],
     fDim := 1\<rparr>"

definition example_model_1d :: "(unit, unit) RModel" where
  "example_model_1d = \<lparr>UseSession = False,
     fTensorShapes = [''X'' \<mapsto> [1, 3, 8], ''W'' \<mapsto> [3, 2, 3]],
     fTensorTypes = (\<lambda>name. ()), fTensorData = (\<lambda>name. ())\<rparr>"

text \<open>A proxy with the same limits for every range. A PDF with threshold 0 and mass
  \<open>-1\<close>; one to sample from; one with \<open>delta = 1e-5\<close> and the mass range
  \<open>[-1e300, 1e300]\<close>; and the integral codes numbered from 1.\<close>

definition proxy :: "real \<Rightarrow> real \<Rightarrow> real \<Rightarrow> RooRealProxy" where
  "proxy v lo hi = \<lparr>val = v, proxy_min = (\<lambda>rangeName. lo), proxy_max = (\<lambda>rangeName. hi)\<rparr>"

definition example_johnson :: RooJohnson where
  "example_johnson = \<lparr>m_mass = proxy (-1) (-10) 10, m_mu = proxy 0 (-1) 1, m_lambda = proxy 1 (1/2) 2,
     m_gamma = proxy 0 (-1) 1, m_delta = proxy 1 (1/2) 2, m_massThreshold = 0\<rparr>"

definition example_sampler :: RooJohnson where
  "example_sampler = \<lparr>m_mass = proxy 5 (-10) 10, m_mu = proxy 0 (-1) 1, m_lambda = proxy 1 (1/2) 2,
     m_gamma = proxy 0 (-1) 1, m_delta = proxy 1 (1/2) 2, m_massThreshold = 0\<rparr>"


text \<open>The standard normal case at its mode; and \<open>lambda = 1e-300\<close>, \<open>gamma = 40\<close>,
  \<open>delta = 1e10\<close> at \<open>mass = mu = 0\<close>.\<close>

definition standard_johnson :: RooJohnson where
  "standard_johnson = \<lparr>m_mass = proxy 0 (-10) 10, m_mu = proxy 0 (-1) 1, m_lambda = proxy 1 (1/2) 2,
     m_gamma = proxy 0 (-1) 1, m_delta = proxy 1 (1/2) 2, m_massThreshold = 0\<rparr>"


definition example_codes :: IntegralType where
  "example_codes = \<lparr>kMass = 1, kMean = 2, kLambda = 3, kGamma = 4, kDelta = 5\<rparr>"

section \<open>Loops and checked access\<close>

lemma vat_Some [simp]: "i < length xs \<Longrightarrow> vat xs i = Some (xs ! i)"
  by (simp add: vat_def)

lemma vat_eq_Some: "vat xs i = Some v \<longleftrightarrow> i < length xs \<and> v = xs ! i"
  by (auto simp: vat_def)

lemma put_Some [simp]: "i < length xs \<Longrightarrow> put xs i v = Some (xs[i := v])"
  by (simp add: put_def)

lemma put_eq_Some: "put xs i v = Some ys \<longleftrightarrow> i < length xs \<and> ys = xs[i := v]"
  by (auto simp: put_def)

lemma forM_invariant:
  assumes "forM is body a = Some b" and "P a"
    and "\<And>i x y. i \<in> set is \<Longrightarrow> P x \<Longrightarrow> body i x = Some y \<Longrightarrow> P y"
  shows "P b"
  using assms
proof (induction "is" arbitrary: a)
  case Nil
  then show ?case by simp
next
  case (Cons i "is")
  from Cons.prems(1) obtain c where c: "body i a = Some c" and r: "forM is body c = Some b"
    by (auto split: option.splits)
  have "P c" using Cons.prems(2) Cons.prems(3)[of i a c] c by simp
  show ?case
  proof (rule Cons.IH[OF r \<open>P c\<close>])
    fix j x y assume "j \<in> set is" "P x" "body j x = Some y"
    then show "P y" using Cons.prems(3)[of j x y] by simp
  qed
qed

lemma forM_append:
  "forM (is @ js) body a = (case forM is body a of None \<Rightarrow> None | Some b \<Rightarrow> forM js body b)"
  by (induction "is" arbitrary: a) (auto split: option.splits)

lemma forM_length:
  assumes "forM is body xs = Some ys"
    and "\<And>i ks ks'. body i ks = Some ks' \<Longrightarrow> length ks' = length ks"
  shows "length ys = length xs"
  by (rule forM_invariant [OF assms(1), where P = "\<lambda>ks. length ks = length xs"])
     (simp_all add: assms(2))

lemma default_attributes_frame:
  "\<exists>g st dl. default_attributes s = s\<lparr>fAttrGroup := g, fAttrStrides := st, fAttrDilations := dl\<rparr> \<and>
     g = (if fAttrGroup s = 0 then 1 else fAttrGroup s) \<and>
     st = (if fAttrStrides s = [] then replicate (unat (fDim s)) 1 else fAttrStrides s) \<and>
     dl = (if fAttrDilations s = [] then replicate (unat (fDim s)) 1 else fAttrDilations s)"
  by (simp add: default_attributes_def Let_def)

lemma default_kernel_shape_frame:
  assumes "default_kernel_shape s = Some s'"
  shows "\<exists>k. s' = s\<lparr>fAttrKernelShape := k\<rparr> \<and> (k = [] \<longrightarrow> unat (fDim s) = 0)"
proof (cases "fAttrKernelShape s = []")
  case False
  with assms have "s' = s" by (simp add: default_kernel_shape_def)
  with False show ?thesis by (intro exI[of _ "fAttrKernelShape s"]) simp
next
  case True
  with assms obtain ks where
    ks: "forM [0..<unat (fDim s)]
           (\<lambda>i ks. do { w \<leftarrow> vat (fShapeW s) (i + 2); d \<leftarrow> vat (fAttrDilations s) i;
                        put ks i (w + (d - 1) * (w - 1)) })
           (replicate (unat (fDim s)) 0) = Some ks"
    and s': "s' = s\<lparr>fAttrKernelShape := ks\<rparr>"
    by (auto simp: default_kernel_shape_def bind_eq_Some_conv)
  have "length ks = length (replicate (unat (fDim s)) (0::size_t))"
    by (rule forM_length [OF ks]) (auto simp: bind_eq_Some_conv put_eq_Some)
  with s' show ?thesis by auto
qed


lemma default_output_padding_frame:
  "\<exists>p. default_output_padding s = s\<lparr>fAttrOutputPadding := p\<rparr> \<and> (p = [] \<longrightarrow> unat (fDim s) = 0)"
proof (cases "fAttrOutputPadding s = []")
  case True
  then show ?thesis
    by (intro exI[of _ "replicate (unat (fDim s)) 0"]) (simp add: default_output_padding_def)
next
  case False
  then show ?thesis
    by (intro exI[of _ "fAttrOutputPadding s"]) (simp add: default_output_padding_def)
qed

lemma default_output_shape_frame:
  assumes "default_output_shape s X = Some s'"
  shows "\<exists>os. s' = s\<lparr>fAttrOutputShape := os\<rparr> \<and> (os = [] \<longrightarrow> unat (fDim s) = 0)"
proof (cases "fAttrOutputShape s = []")
  case False
  with assms have "s' = s" by (simp add: default_output_shape_def)
  with False show ?thesis by (intro exI[of _ "fAttrOutputShape s"]) simp
next
  case True
  with assms obtain os where
    os: "forM [0..<unat (fDim s)]
           (\<lambda>i os. do { let j = i + 2; st \<leftarrow> vat (fAttrStrides s) i; x \<leftarrow> vat X j;
                        k \<leftarrow> vat (fAttrKernelShape s) i; p \<leftarrow> vat (fAttrOutputPadding s) i;
                        put os i (st * (x - 1) + k - p) })
           (replicate (unat (fDim s)) 0) = Some os"
    and s': "s' = s\<lparr>fAttrOutputShape := os\<rparr>"
    by (auto simp: default_output_shape_def bind_eq_Some_conv)
  have "length os = length (replicate (unat (fDim s)) (0::size_t))"
    by (rule forM_length [OF os]) (auto simp: bind_eq_Some_conv put_eq_Some Let_def)
  with s' show ?thesis by auto
qed

lemma default_pads_frame:
  assumes "default_pads s = Some s'"
  shows "\<exists>pads. s' = s\<lparr>fAttrPads := pads\<rparr> \<and> (pads = [] \<longrightarrow> unat (fDim s) = 0)"
proof (cases "fAttrPads s = []")
  case False
  with assms have "s' = s" by (simp add: default_pads_def)
  with False show ?thesis by (intro exI[of _ "fAttrPads s"]) simp
next
  case True
  with assms obtain tp pads where
    pads: "forM [0..<unat (fDim s)]
           (\<lambda>i pads. do {
                  let end_i = i + unat (fDim s);
                  t \<leftarrow> vat tp i;
                  if fAttrAutopad s = ''SAME_UPPER'' then do {
                    pads1 \<leftarrow> put pads i (t div 2);
                    b \<leftarrow> vat pads1 i;
                    put pads1 end_i (t - b) }
                  else do {
                    pads1 \<leftarrow> put pads end_i (t div 2);
                    e \<leftarrow> vat pads1 end_i;
                    put pads1 i (t - e) } })
           (replicate (2 * unat (fDim s)) 0) = Some pads"
    and s': "s' = s\<lparr>fAttrPads := pads\<rparr>"
    by (auto simp: default_pads_def bind_eq_Some_conv)
  have "length pads = length (replicate (2 * unat (fDim s)) (0::size_t))"
    by (rule forM_length [OF pads]) (auto simp: bind_eq_Some_conv put_eq_Some Let_def split: if_splits)
  with s' show ?thesis by auto
qed

lemma default_attributes_settled:
  "settled s \<Longrightarrow> default_attributes s = s"
  by (cases "unat (fDim s) = 0") (auto simp: settled_def default_attributes_def Let_def)

lemma default_kernel_shape_settled:
  "settled s \<Longrightarrow> default_kernel_shape s = Some s"
  by (cases "unat (fDim s) = 0") (auto simp: settled_def default_kernel_shape_def)

lemma default_output_padding_settled:
  "settled s \<Longrightarrow> default_output_padding s = s"
  by (cases "unat (fDim s) = 0") (auto simp: settled_def default_output_padding_def)

lemma default_output_shape_settled:
  "settled s \<Longrightarrow> default_output_shape s X = Some s"
  by (cases "unat (fDim s) = 0") (auto simp: settled_def default_output_shape_def)

lemma default_pads_settled:
  "settled s \<Longrightarrow> default_pads s = Some s"
  by (cases "unat (fDim s) = 0") (auto simp: settled_def default_pads_def)

text \<open>What a returning call has computed, step by step.\<close>

lemma ShapeInference_SomeD:
  assumes "ShapeInference s input = Some (s', outs)"
  obtains X W out1 out where
    "vat input 0 = Some X" "vat input 1 = Some W" "2 \<le> length X"
    "fDim s' = of_nat (length X) - 2"
    "fAttrGroup s' = (if fAttrGroup s = 0 then 1 else fAttrGroup s)"
    "settled s'"
    "out1 = (replicate (length X) 0)[0 := X ! 0, 1 := W ! 1 * fAttrGroup s']" "1 < length W"
    "forM [0..<unat (fDim s')]
        (\<lambda>i out. do { v \<leftarrow> vat (fAttrOutputShape s') i; put out (i + 2) v }) out1 = Some out"
    "outs = [out]"
proof -
  from assms obtain X W where X: "vat input 0 = Some X" and W: "vat input 1 = Some W"
    by (auto simp: ShapeInference_def bind_eq_Some_conv)
  from assms X W have size: "2 \<le> length X"
    by (auto simp: ShapeInference_def Let_def split: if_splits)
  define s0 where "s0 = s\<lparr>fDim := of_nat (length X) - 2\<rparr>"
  define a where "a = default_attributes s0"
  from assms X W size obtain s1 s3 x0 out0 w1 out1 out where
    s1: "default_kernel_shape a = Some s1" and
    x0: "vat X 0 = Some x0" and out0: "put (replicate (length X) 0) 0 x0 = Some out0" and
    w1: "vat W 1 = Some w1" and
    out1: "put out0 1 (w1 * fAttrGroup (default_output_padding s1)) = Some out1" and
    s3: "default_output_shape (default_output_padding s1) X = Some s3" and
    s4: "default_pads s3 = Some s'" and
    out: "forM [0..<unat (fDim s')]
        (\<lambda>i out. do { v \<leftarrow> vat (fAttrOutputShape s') i; put out (i + 2) v }) out1 = Some out" and
    outs: "outs = [out]"
    unfolding ShapeInference_def a_def s0_def
    by (auto simp: bind_eq_Some_conv Let_def split: if_splits)
  from default_attributes_frame[of s0] obtain g st dl where
    a: "a = s0\<lparr>fAttrGroup := g, fAttrStrides := st, fAttrDilations := dl\<rparr>"
    and g: "g = (if fAttrGroup s0 = 0 then 1 else fAttrGroup s0)"
    and st: "st = (if fAttrStrides s0 = [] then replicate (unat (fDim s0)) 1 else fAttrStrides s0)"
    and dl: "dl = (if fAttrDilations s0 = [] then replicate (unat (fDim s0)) 1 else fAttrDilations s0)"
    unfolding a_def by blast
  from default_kernel_shape_frame[OF s1] obtain k where
    k: "s1 = a\<lparr>fAttrKernelShape := k\<rparr>" "k = [] \<longrightarrow> unat (fDim a) = 0" by blast
  from default_output_padding_frame[of s1] obtain p where
    p: "default_output_padding s1 = s1\<lparr>fAttrOutputPadding := p\<rparr>" "p = [] \<longrightarrow> unat (fDim s1) = 0" by blast
  from default_output_shape_frame[OF s3] obtain os where
    os: "s3 = (default_output_padding s1)\<lparr>fAttrOutputShape := os\<rparr>"
        "os = [] \<longrightarrow> unat (fDim (default_output_padding s1)) = 0" by blast
  from default_pads_frame[OF s4] obtain pads where
    pads: "s' = s3\<lparr>fAttrPads := pads\<rparr>" "pads = [] \<longrightarrow> unat (fDim s3) = 0" by blast
  have s'_eq: "s' = s0\<lparr>fAttrGroup := g, fAttrStrides := st, fAttrDilations := dl,
      fAttrKernelShape := k, fAttrOutputPadding := p, fAttrOutputShape := os, fAttrPads := pads\<rparr>"
    using a k(1) p(1) os(1) pads(1) by simp
  have dim: "fDim s' = of_nat (length X) - 2" by (simp add: s'_eq s0_def)
  have grp: "fAttrGroup s' = (if fAttrGroup s = 0 then 1 else fAttrGroup s)"
    by (simp add: s'_eq g s0_def)
  have settled: "settled s'"
    using k(2) p(2) os(2) pads(2) a k(1) p(1) os(1) st dl g
    by (auto simp: settled_def s'_eq s0_def)
  have grp2: "fAttrGroup (default_output_padding s1) = fAttrGroup s'"
    unfolding p(1) by (simp add: k(1) a s'_eq)
  have o1: "out1 = (replicate (length X) 0)[0 := X ! 0, 1 := W ! 1 * fAttrGroup s']" and lw: "1 < length W"
    using x0 out0 w1 out1 by (auto simp: vat_eq_Some put_eq_Some grp2)
  show ?thesis
    by (rule that [OF X W size dim grp settled o1 lw out outs])
qed


lemma ShapeInference_settled:
  assumes "settled s" "fDim s = of_nat (length X) - 2"
    and "vat input 0 = Some X" "vat input 1 = Some W" "2 \<le> length X" "1 < length W"
    and "forM [0..<unat (fDim s)]
        (\<lambda>i out. do { v \<leftarrow> vat (fAttrOutputShape s) i; put out (i + 2) v })
        ((replicate (length X) 0)[0 := X ! 0, 1 := W ! 1 * fAttrGroup s]) = Some out"
  shows "ShapeInference s input = Some (s, [out])"
proof -
  have eq: "s\<lparr>fDim := of_nat (length X) - 2\<rparr> = s"
    using assms(2) by simp
  have x0: "vat X 0 = Some (X ! 0)" and o0: "\<And>v. put (replicate (length X) (0::size_t)) 0 v = Some ((replicate (length X) 0)[0 := v])"
    and o1: "\<And>v w. put ((replicate (length X) (0::size_t))[0 := w]) (Suc 0) v = Some ((replicate (length X) 0)[0 := w, Suc 0 := v])"
    using assms(5) by (auto simp: vat_def put_def)
  show ?thesis
    using assms(1,3-)
    by (simp add: ShapeInference_def Let_def eq default_attributes_settled default_kernel_shape_settled
        default_output_padding_settled default_output_shape_settled default_pads_settled x0 o0 o1)
qed

lemma forM_upt_fill_at:
  assumes "\<And>i ks. i < n \<Longrightarrow> length ks = length xs \<Longrightarrow> body i ks = Some (ks[i + c := g i])"
    and "n + c \<le> length xs"
  shows "forM [0..<n] body xs = Some (take c xs @ map g [0..<n] @ drop (n + c) xs)"
  using assms
proof (induction n)
  case 0
  then show ?case by simp
next
  case (Suc n)
  let ?ys = "take c xs @ map g [0..<n] @ drop (n + c) xs"
  have "forM [0..<n] body xs = Some ?ys"
    using Suc by simp
  moreover have "length ?ys = length xs" using Suc.prems(2) by simp
  then have "body n ?ys = Some (?ys[n + c := g n])"
    using Suc.prems(1) by simp
  moreover have "?ys[n + c := g n] = take c xs @ map g [0..<Suc n] @ drop (Suc n + c) xs"
    using Suc.prems(2) by (intro nth_equalityI) (auto simp: nth_append nth_list_update less_Suc_eq)
  ultimately show ?case
    by (simp add: forM_append)
qed

lemma forM_defined:
  assumes "P a" and "\<And>i x. i \<in> set is \<Longrightarrow> P x \<Longrightarrow> \<exists>y. body i x = Some y \<and> P y"
  shows "\<exists>b. forM is body a = Some b \<and> P b"
  using assms
proof (induction "is" arbitrary: a)
  case Nil
  then show ?case by simp
next
  case (Cons i "is")
  from Cons.prems(2)[of i a] Cons.prems(1) obtain c where c: "body i a = Some c" "P c" by auto
  have "\<exists>b. forM is body c = Some b \<and> P b"
  proof (rule Cons.IH[OF c(2)])
    fix j x assume "j \<in> set is" "P x"
    then show "\<exists>y. body j x = Some y \<and> P y" using Cons.prems(2)[of j x] by simp
  qed
  with c show ?case by simp
qed

lemma unat_dim: "2 \<le> n \<Longrightarrow> n < 2 ^ 64 \<Longrightarrow> unat (of_nat n - 2 :: size_t) = n - 2"
proof -
  assume n: "2 \<le> n" "n < 2 ^ 64"
  have "(of_nat (n - 2) :: size_t) = of_nat n - 2" using n by simp
  then show ?thesis
    by (rule of_nat_inverse) (use n in simp)
qed


lemma default_kernel_shape_absent:
  assumes "fAttrKernelShape s = []" "unat (fDim s) = n"
    and "n + 2 \<le> length (fShapeW s)" "n \<le> length (fAttrDilations s)"
  shows "default_kernel_shape s = Some (s\<lparr>fAttrKernelShape :=
           map (\<lambda>i. fShapeW s ! (i + 2) + (fAttrDilations s ! i - 1) * (fShapeW s ! (i + 2) - 1)) [0..<n]\<rparr>)"
proof -
  have "forM [0..<n]
           (\<lambda>i ks. do { w \<leftarrow> vat (fShapeW s) (i + 2); d \<leftarrow> vat (fAttrDilations s) i;
                        put ks i (w + (d - 1) * (w - 1)) })
           (replicate n 0) =
        Some (take 0 (replicate n 0) @
          map (\<lambda>i. fShapeW s ! (i + 2) + (fAttrDilations s ! i - 1) * (fShapeW s ! (i + 2) - 1)) [0..<n]
          @ drop (n + 0) (replicate n 0))"
    by (rule forM_upt_fill_at) (use assms(3,4) in simp_all)
  then show ?thesis
    using assms(1,2) by (simp add: default_kernel_shape_def)
qed

lemma default_output_shape_absent:
  assumes "fAttrOutputShape s = []" "unat (fDim s) = n"
    and "n \<le> length (fAttrStrides s)" "n + 2 \<le> length X" "n \<le> length (fAttrKernelShape s)"
    and "n \<le> length (fAttrOutputPadding s)"
  shows "default_output_shape s X = Some (s\<lparr>fAttrOutputShape :=
           map (\<lambda>i. fAttrStrides s ! i * (X ! (i + 2) - 1) + fAttrKernelShape s ! i - fAttrOutputPadding s ! i) [0..<n]\<rparr>)"
proof -
  have "forM [0..<n]
           (\<lambda>i os. do { let j = i + 2; st \<leftarrow> vat (fAttrStrides s) i; x \<leftarrow> vat X j;
                        k \<leftarrow> vat (fAttrKernelShape s) i; p \<leftarrow> vat (fAttrOutputPadding s) i;
                        put os i (st * (x - 1) + k - p) })
           (replicate n 0) =
        Some (take 0 (replicate n 0) @
          map (\<lambda>i. fAttrStrides s ! i * (X ! (i + 2) - 1) + fAttrKernelShape s ! i - fAttrOutputPadding s ! i) [0..<n]
          @ drop (n + 0) (replicate n 0))"
    by (rule forM_upt_fill_at) (use assms(3-) in \<open>simp_all add: Let_def\<close>)
  then show ?thesis
    using assms(1,2) by (simp add: default_output_shape_def)
qed

lemma default_pads_absent:
  assumes "fAttrPads s = []" "unat (fDim s) = n"
    and "n \<le> length (fAttrStrides s)" "n \<le> length (fAttrOutputShape s)"
    and "n \<le> length (fAttrOutputPadding s)" "n \<le> length (fAttrKernelShape s)"
    and "n + 2 \<le> length (fShapeX s)"
  shows "\<exists>pads. default_pads s = Some (s\<lparr>fAttrPads := pads\<rparr>) \<and> length pads = 2 * n"
proof -
  let ?t = "\<lambda>i. fAttrStrides s ! i * (fAttrOutputShape s ! i - 1) + fAttrOutputPadding s ! i
              + fAttrKernelShape s ! i - fShapeX s ! (i + 2)"
  have tp: "forM [0..<n]
               (\<lambda>i tp. do {
                  let j = i + 2;
                  st \<leftarrow> vat (fAttrStrides s) i;
                  os \<leftarrow> vat (fAttrOutputShape s) i;
                  p \<leftarrow> vat (fAttrOutputPadding s) i;
                  k \<leftarrow> vat (fAttrKernelShape s) i;
                  x \<leftarrow> vat (fShapeX s) j;
                  put tp i (st * (os - 1) + p + k - x) })
               (replicate n 1) =
        Some (take 0 (replicate n 1) @ map ?t [0..<n] @ drop (n + 0) (replicate n 1))"
    by (rule forM_upt_fill_at) (use assms(3-) in \<open>simp_all add: Let_def\<close>)
  have "\<exists>pads. forM [0..<n]
               (\<lambda>i pads. do {
                  let end_i = i + n;
                  t \<leftarrow> vat (map ?t [0..<n]) i;
                  if fAttrAutopad s = ''SAME_UPPER'' then do {
                    pads1 \<leftarrow> put pads i (t div 2);
                    b \<leftarrow> vat pads1 i;
                    put pads1 end_i (t - b) }
                  else do {
                    pads1 \<leftarrow> put pads end_i (t div 2);
                    e \<leftarrow> vat pads1 end_i;
                    put pads1 i (t - e) } })
               (replicate (2 * n) 0) = Some pads \<and> length pads = 2 * n"
    by (rule forM_defined) (auto simp: Let_def)
  then show ?thesis
    using assms(1,2) tp by (auto simp: default_pads_def)
qed


lemma write_out_shape:
  fixes x c :: size_t
  assumes "length os = n"
  shows "forM [0..<n] (\<lambda>i out. do { v \<leftarrow> vat os i; put out (i + 2) v })
           ((replicate (n + 2) 0)[0 := x, 1 := c]) = Some (x # c # os)"
proof -
  let ?out1 = "(replicate (n + 2) (0::size_t))[0 := x, 1 := c]"
  have "forM [0..<n] (\<lambda>i out. do { v \<leftarrow> vat os i; put out (i + 2) v }) ?out1
        = Some (take 2 ?out1 @ map (\<lambda>i. os ! i) [0..<n] @ drop (n + 2) ?out1)"
    by (rule forM_upt_fill_at) (use assms in simp_all)
  moreover have "take 2 ?out1 = [x, c]"
    by (simp add: numeral_2_eq_2 take_Suc_conv_app_nth nth_list_update)
  moreover have "map (\<lambda>i. os ! i) [0..<n] = os"
    using assms map_nth[of os] by simp
  ultimately show ?thesis by simp
qed

lemma ShapeInference_defined:
  fixes s :: ROperator_ConvTranspose and X W :: shape
  assumes n_def: "n = length X - 2"
    and g_def: "g = (if fAttrGroup s = 0 then 1 else fAttrGroup s)"
    and st_def: "st = (if fAttrStrides s = [] then replicate n 1 else fAttrStrides s)"
    and dl_def: "dl = (if fAttrDilations s = [] then replicate n 1 else fAttrDilations s)"
    and k_def: "k = (if fAttrKernelShape s = []
     then map (\<lambda>i. fShapeW s ! (i + 2) + (dl ! i - 1) * (fShapeW s ! (i + 2) - 1)) [0..<n]
     else fAttrKernelShape s)"
    and p_def: "p = (if fAttrOutputPadding s = [] then replicate n 0 else fAttrOutputPadding s)"
    and os_def: "os = (if fAttrOutputShape s = []
     then map (\<lambda>i. st ! i * (X ! (i + 2) - 1) + k ! i - p ! i) [0..<n]
     else fAttrOutputShape s)"
    and size: "2 \<le> length X" "length X < 2 ^ 64" and W: "1 < length W"
    and fit: "attributes_fit s n"
    and shW: "fAttrKernelShape s = [] \<longrightarrow> n + 2 \<le> length (fShapeW s)"
    and shX: "fAttrPads s = [] \<longrightarrow> n + 2 \<le> length (fShapeX s)"
  shows "\<exists>pads. ShapeInference s [X, W] =
      Some (s\<lparr>fDim := of_nat (length X) - 2, fAttrGroup := g, fAttrStrides := st,
               fAttrDilations := dl, fAttrKernelShape := k, fAttrOutputPadding := p,
               fAttrOutputShape := os, fAttrPads := pads\<rparr>,
            [X ! 0 # W ! 1 * g # os]) \<and>
      (if fAttrPads s = [] then length pads = 2 * n else pads = fAttrPads s)"
proof -
  define s0 where "s0 = s\<lparr>fDim := of_nat (length X) - 2\<rparr>"
  have dim0: "unat (fDim s0) = n"
    using size by (simp add: s0_def n_def unat_dim)
  have lens: "length st = n" "length dl = n" "length k = n" "length p = n" "length os = n"
    using fit by (auto simp: attributes_fit_def st_def dl_def k_def p_def os_def)
  define a where "a = s0\<lparr>fAttrGroup := g, fAttrStrides := st, fAttrDilations := dl\<rparr>"
  have a: "default_attributes s0 = a"
    using dim0 by (simp add: default_attributes_def a_def g_def st_def dl_def s0_def Let_def)
  define s1 where "s1 = a\<lparr>fAttrKernelShape := k\<rparr>"
  have s1: "default_kernel_shape a = Some s1"
  proof (cases "fAttrKernelShape s = []")
    case True
    have "default_kernel_shape a = Some (a\<lparr>fAttrKernelShape :=
           map (\<lambda>i. fShapeW a ! (i + 2) + (fAttrDilations a ! i - 1) * (fShapeW a ! (i + 2) - 1)) [0..<n]\<rparr>)"
      by (rule default_kernel_shape_absent)
         (use True shW dim0 lens in \<open>simp_all add: a_def s0_def\<close>)
    then show ?thesis using True by (simp add: s1_def k_def a_def s0_def)
  next
    case False
    then show ?thesis by (simp add: default_kernel_shape_def s1_def k_def a_def s0_def)
  qed
  define s2 where "s2 = s1\<lparr>fAttrOutputPadding := p\<rparr>"
  have s2: "default_output_padding s1 = s2"
    using dim0 by (simp add: default_output_padding_def s2_def p_def s1_def a_def s0_def)
  define s3 where "s3 = s2\<lparr>fAttrOutputShape := os\<rparr>"
  have s3: "default_output_shape s2 X = Some s3"
  proof (cases "fAttrOutputShape s = []")
    case True
    have "default_output_shape s2 X = Some (s2\<lparr>fAttrOutputShape :=
           map (\<lambda>i. fAttrStrides s2 ! i * (X ! (i + 2) - 1) + fAttrKernelShape s2 ! i - fAttrOutputPadding s2 ! i) [0..<n]\<rparr>)"
      by (rule default_output_shape_absent)
         (use True size dim0 lens in \<open>simp_all add: s2_def s1_def a_def s0_def n_def\<close>)
    then show ?thesis using True by (simp add: s3_def os_def s2_def s1_def a_def s0_def)
  next
    case False
    then show ?thesis by (simp add: default_output_shape_def s3_def os_def s2_def s1_def a_def s0_def)
  qed
  have "\<exists>pads. default_pads s3 = Some (s3\<lparr>fAttrPads := pads\<rparr>) \<and>
      (if fAttrPads s = [] then length pads = 2 * n else pads = fAttrPads s)"
  proof (cases "fAttrPads s = []")
    case True
    have "\<exists>pads. default_pads s3 = Some (s3\<lparr>fAttrPads := pads\<rparr>) \<and> length pads = 2 * n"
      by (rule default_pads_absent)
         (use True shX dim0 lens in \<open>simp_all add: s3_def s2_def s1_def a_def s0_def\<close>)
    then show ?thesis using True by simp
  next
    case False
    then have "default_pads s3 = Some (s3\<lparr>fAttrPads := fAttrPads s\<rparr>)"
      by (simp add: default_pads_def s3_def s2_def s1_def a_def s0_def)
    then show ?thesis using False by auto
  qed
  then obtain pads where s4: "default_pads s3 = Some (s3\<lparr>fAttrPads := pads\<rparr>)"
    and pads: "if fAttrPads s = [] then length pads = 2 * n else pads = fAttrPads s"
    by blast
  have lX: "length X = n + 2" using size by (simp add: n_def)
  have out: "forM [0..<n] (\<lambda>i out. do { v \<leftarrow> vat os i; put out (i + 2) v })
           ((replicate (n + 2) 0)[0 := X ! 0, 1 := W ! 1 * g]) = Some (X ! 0 # W ! 1 * g # os)"
    by (rule write_out_shape) (rule lens)
  have i1: "vat [X, W] 1 = Some W" by (simp add: vat_def)
  have x0: "vat X 0 = Some (X ! 0)" and w1: "vat W 1 = Some (W ! 1)"
    and o0: "\<And>v. put (replicate (length X) (0::size_t)) 0 v = Some ((replicate (length X) 0)[0 := v])"
    and o1: "\<And>v w. put ((replicate (length X) (0::size_t))[0 := w]) 1 v = Some ((replicate (length X) 0)[0 := w, 1 := v])"
    using lX W by (simp_all add: vat_def put_def)
  have out': "forM [0..<n] (\<lambda>i out. do { v \<leftarrow> vat os i; put out (i + 2) v })
           ((replicate (length X) 0)[0 := X ! 0, 1 := W ! 1 * g]) = Some (X ! 0 # W ! 1 * g # os)"
    using out by (simp only: lX)
  have fin: "unat (fDim (s3\<lparr>fAttrPads := pads\<rparr>)) = n" "fAttrOutputShape (s3\<lparr>fAttrPads := pads\<rparr>) = os"
      "fAttrGroup s2 = g"
    using dim0 by (simp_all add: s3_def s2_def s1_def a_def)
  have "ShapeInference s [X, W] = Some (s3\<lparr>fAttrPads := pads\<rparr>, [X ! 0 # W ! 1 * g # os])"
    unfolding ShapeInference_def
    using size(1)
    by (simp only: vat_Some put_Some list.size nth_Cons_0 nth_Cons_Suc Let_def
          a[unfolded s0_def] s1 s2 s3 s4 i1 x0 w1 o0 o1 out' fin bind.bind_lunit
          lessI zero_less_Suc if_True if_False not_less[symmetric] linorder_not_less[THEN iffD2]
          Option.bind.simps option.case split: if_splits)
  then show ?thesis
    using pads by (intro exI[of _ pads]) (simp add: s3_def s2_def s1_def a_def s0_def)
qed

text \<open>A loop that has run has made each of its reads and writes.\<close>

lemma forM_upt_written:
  assumes run: "forM [0..<n] body xs = Some ys"
    and step: "\<And>i ks ks'. i < n \<Longrightarrow> body i ks = Some ks' \<Longrightarrow>
                 R i \<and> i + c < length ks \<and> ks' = ks[i + c := g i]"
  shows "length ys = length xs \<and> (\<forall>i<n. R i \<and> i + c < length xs \<and> ys ! (i + c) = g i)"
  using assms
proof (induction n arbitrary: ys)
  case 0
  then show ?case by simp
next
  case (Suc n)
  from Suc.prems(1) obtain zs where zs: "forM [0..<n] body xs = Some zs" and last: "body n zs = Some ys"
    by (auto simp: forM_append split: option.splits)
  have IH: "length zs = length xs \<and> (\<forall>i<n. R i \<and> i + c < length xs \<and> zs ! (i + c) = g i)"
    by (rule Suc.IH [OF zs]) (use Suc.prems(2) in auto)
  from Suc.prems(2) [OF _ last] have l: "R n" "n + c < length zs" "ys = zs[n + c := g n]"
    by auto
  show ?case
    using IH l by (auto simp: less_Suc_eq nth_list_update)
qed

text \<open>All that a returning call has read and computed.\<close>

lemma ShapeInference_returns:
  fixes s :: ROperator_ConvTranspose and X W :: shape
  assumes run: "ShapeInference s [X, W] = Some (s', outs)" and small: "length X < 2 ^ 64"
    and n_def: "n = length X - 2"
    and g_def: "g = (if fAttrGroup s = 0 then 1 else fAttrGroup s)"
    and st_def: "st = (if fAttrStrides s = [] then replicate n 1 else fAttrStrides s)"
    and dl_def: "dl = (if fAttrDilations s = [] then replicate n 1 else fAttrDilations s)"
    and p_def: "p = (if fAttrOutputPadding s = [] then replicate n 0 else fAttrOutputPadding s)"
  obtains k os pads out where
    "s' = s\<lparr>fDim := of_nat (length X) - 2, fAttrGroup := g, fAttrStrides := st,
            fAttrDilations := dl, fAttrKernelShape := k, fAttrOutputPadding := p,
            fAttrOutputShape := os, fAttrPads := pads\<rparr>"
    "2 \<le> length X" "1 < length W"
    "if fAttrKernelShape s = []
     then length k = n \<and> (\<forall>i<n. i + 2 < length (fShapeW s) \<and> i < length dl \<and>
            k ! i = fShapeW s ! (i + 2) + (dl ! i - 1) * (fShapeW s ! (i + 2) - 1))
     else k = fAttrKernelShape s"
    "if fAttrOutputShape s = []
     then length os = n \<and> (\<forall>i<n. i < length st \<and> i < length k \<and> i < length p \<and>
            os ! i = st ! i * (X ! (i + 2) - 1) + k ! i - p ! i)
     else os = fAttrOutputShape s"
    "if fAttrPads s = []
     then length pads = 2 * n \<and> (\<forall>i<n. i < length st \<and> i < length os \<and> i < length p \<and>
            i < length k \<and> i + 2 < length (fShapeX s))
     else pads = fAttrPads s"
    "outs = [out]" "length out = length X" "out ! 0 = X ! 0" "out ! 1 = W ! 1 * g"
    "\<forall>i<n. i < length os \<and> out ! (i + 2) = os ! i"
proof -
  from run have size: "2 \<le> length X"
    by (auto simp: ShapeInference_def Let_def split: if_splits)
  define s0 where "s0 = s\<lparr>fDim := of_nat (length X) - 2\<rparr>"
  have dim0: "unat (fDim s0) = n"
    using size small by (simp add: s0_def n_def unat_dim)
  define a where "a = s0\<lparr>fAttrGroup := g, fAttrStrides := st, fAttrDilations := dl\<rparr>"
  have a: "default_attributes s0 = a"
    using dim0 by (simp add: default_attributes_def a_def g_def st_def dl_def s0_def Let_def)
  from run size obtain s1 s3 x0 out0 w1 out1 out where
    s1: "default_kernel_shape a = Some s1" and
    x0: "vat X 0 = Some x0" and out0: "put (replicate (length X) 0) 0 x0 = Some out0" and
    w1: "vat W 1 = Some w1" and
    out1: "put out0 1 (w1 * fAttrGroup (default_output_padding s1)) = Some out1" and
    s3: "default_output_shape (default_output_padding s1) X = Some s3" and
    s4: "default_pads s3 = Some s'" and
    out: "forM [0..<unat (fDim s')]
        (\<lambda>i out. do { v \<leftarrow> vat (fAttrOutputShape s') i; put out (i + 2) v }) out1 = Some out" and
    outs: "outs = [out]"
    unfolding ShapeInference_def a [symmetric] s0_def
    by (auto simp: bind_eq_Some_conv Let_def vat_def split: if_splits)
  have "\<exists>k. s1 = a\<lparr>fAttrKernelShape := k\<rparr> \<and>
     (if fAttrKernelShape s = []
      then length k = n \<and> (\<forall>i<n. i + 2 < length (fShapeW s) \<and> i < length dl \<and>
            k ! i = fShapeW s ! (i + 2) + (dl ! i - 1) * (fShapeW s ! (i + 2) - 1))
      else k = fAttrKernelShape s)"
  proof (cases "fAttrKernelShape s = []")
    case False
    with s1 have "s1 = a" by (simp add: default_kernel_shape_def a_def s0_def)
    with False show ?thesis
      by (intro exI[of _ "fAttrKernelShape s"]) (simp add: a_def s0_def)
  next
    case True
    with s1 obtain ks where
      ks: "forM [0..<n]
           (\<lambda>i ks. do { w \<leftarrow> vat (fShapeW s) (i + 2); d \<leftarrow> vat dl i;
                        put ks i (w + (d - 1) * (w - 1)) })
           (replicate n 0) = Some ks"
      and s1': "s1 = a\<lparr>fAttrKernelShape := ks\<rparr>"
      using dim0 by (auto simp: default_kernel_shape_def bind_eq_Some_conv a_def s0_def)
    have "length ks = length (replicate n (0::size_t)) \<and>
      (\<forall>i<n. (i + 2 < length (fShapeW s) \<and> i < length dl) \<and> i + 0 < length (replicate n (0::size_t)) \<and>
         ks ! (i + 0) = fShapeW s ! (i + 2) + (dl ! i - 1) * (fShapeW s ! (i + 2) - 1))"
      by (rule forM_upt_written [OF ks]) (auto simp: bind_eq_Some_conv vat_eq_Some put_eq_Some)
    with True s1' show ?thesis by (intro exI[of _ ks]) simp
  qed
  then obtain k where s1_eq: "s1 = a\<lparr>fAttrKernelShape := k\<rparr>"
    and k: "if fAttrKernelShape s = []
      then length k = n \<and> (\<forall>i<n. i + 2 < length (fShapeW s) \<and> i < length dl \<and>
            k ! i = fShapeW s ! (i + 2) + (dl ! i - 1) * (fShapeW s ! (i + 2) - 1))
      else k = fAttrKernelShape s"
    by blast
  define s2 where "s2 = s1\<lparr>fAttrOutputPadding := p\<rparr>"
  have s2: "default_output_padding s1 = s2"
    using dim0 by (simp add: default_output_padding_def s2_def p_def s1_eq a_def s0_def)
  have s3: "default_output_shape s2 X = Some s3"
    using s3 unfolding s2 .
  have s2_eq: "s2 = s\<lparr>fDim := of_nat (length X) - 2, fAttrGroup := g, fAttrStrides := st,
            fAttrDilations := dl, fAttrKernelShape := k, fAttrOutputPadding := p\<rparr>"
    by (simp add: s2_def s1_eq a_def s0_def)
  have "\<exists>os. s3 = s2\<lparr>fAttrOutputShape := os\<rparr> \<and>
     (if fAttrOutputShape s = []
      then length os = n \<and> (\<forall>i<n. i < length st \<and> i < length k \<and> i < length p \<and>
            os ! i = st ! i * (X ! (i + 2) - 1) + k ! i - p ! i)
      else os = fAttrOutputShape s)"
  proof (cases "fAttrOutputShape s = []")
    case False
    with s3 have "s3 = s2" by (simp add: default_output_shape_def s2_eq)
    with False show ?thesis
      by (intro exI[of _ "fAttrOutputShape s"]) (simp add: s2_eq)
  next
    case True
    with s3 obtain os where
      os: "forM [0..<n]
           (\<lambda>i os. do { let j = i + 2; st' \<leftarrow> vat st i; x \<leftarrow> vat X j;
                        k' \<leftarrow> vat k i; p' \<leftarrow> vat p i;
                        put os i (st' * (x - 1) + k' - p') })
           (replicate n 0) = Some os"
      and s3': "s3 = s2\<lparr>fAttrOutputShape := os\<rparr>"
      using dim0
      by (auto simp: default_output_shape_def bind_eq_Some_conv s2_eq s0_def)
    have "length os = length (replicate n (0::size_t)) \<and>
      (\<forall>i<n. (i < length st \<and> i < length k \<and> i < length p) \<and> i + 0 < length (replicate n (0::size_t)) \<and>
         os ! (i + 0) = st ! i * (X ! (i + 2) - 1) + k ! i - p ! i)"
      by (rule forM_upt_written [OF os]) (auto simp: bind_eq_Some_conv vat_eq_Some put_eq_Some Let_def)
    with True s3' show ?thesis by (intro exI[of _ os]) simp
  qed
  then obtain os where s3_eq: "s3 = s2\<lparr>fAttrOutputShape := os\<rparr>"
    and os: "if fAttrOutputShape s = []
      then length os = n \<and> (\<forall>i<n. i < length st \<and> i < length k \<and> i < length p \<and>
            os ! i = st ! i * (X ! (i + 2) - 1) + k ! i - p ! i)
      else os = fAttrOutputShape s"
    by blast
  have "\<exists>pads. s' = s3\<lparr>fAttrPads := pads\<rparr> \<and>
     (if fAttrPads s = []
      then length pads = 2 * n \<and> (\<forall>i<n. i < length st \<and> i < length os \<and> i < length p \<and>
            i < length k \<and> i + 2 < length (fShapeX s))
      else pads = fAttrPads s)"
  proof (cases "fAttrPads s = []")
    case False
    with s4 have "s' = s3" by (simp add: default_pads_def s3_eq s2_eq)
    with False show ?thesis
      by (intro exI[of _ "fAttrPads s"]) (simp add: s3_eq s2_eq)
  next
    case True
    with s4 obtain tp pads where
      tp: "forM [0..<n]
               (\<lambda>i tp. do {
                  let j = i + 2;
                  st' \<leftarrow> vat st i;
                  os' \<leftarrow> vat os i;
                  p' \<leftarrow> vat p i;
                  k' \<leftarrow> vat k i;
                  x \<leftarrow> vat (fShapeX s) j;
                  put tp i (st' * (os' - 1) + p' + k' - x) })
               (replicate n 1) = Some tp"
      and pads: "forM [0..<n]
           (\<lambda>i pads. do {
                  let end_i = i + n;
                  t \<leftarrow> vat tp i;
                  if fAttrAutopad s = ''SAME_UPPER'' then do {
                    pads1 \<leftarrow> put pads i (t div 2);
                    b \<leftarrow> vat pads1 i;
                    put pads1 end_i (t - b) }
                  else do {
                    pads1 \<leftarrow> put pads end_i (t div 2);
                    e \<leftarrow> vat pads1 end_i;
                    put pads1 i (t - e) } })
           (replicate (2 * n) 0) = Some pads"
      and s': "s' = s3\<lparr>fAttrPads := pads\<rparr>"
      using dim0
      by (auto simp: default_pads_def bind_eq_Some_conv s3_eq s2_eq s0_def)
    have "length tp = length (replicate n (1::size_t)) \<and>
      (\<forall>i<n. (i < length st \<and> i < length os \<and> i < length p \<and> i < length k \<and> i + 2 < length (fShapeX s)) \<and>
         i + 0 < length (replicate n (1::size_t)) \<and>
         tp ! (i + 0) = st ! i * (os ! i - 1) + p ! i + k ! i - fShapeX s ! (i + 2))"
      by (rule forM_upt_written [OF tp]) (auto simp: bind_eq_Some_conv vat_eq_Some put_eq_Some Let_def)
    moreover have "length pads = length (replicate (2 * n) (0::size_t))"
      by (rule forM_length [OF pads]) (auto simp: bind_eq_Some_conv put_eq_Some Let_def split: if_splits)
    ultimately show ?thesis using True s' by (intro exI[of _ pads]) simp
  qed
  then obtain pads where s'_eq3: "s' = s3\<lparr>fAttrPads := pads\<rparr>"
    and pads: "if fAttrPads s = []
      then length pads = 2 * n \<and> (\<forall>i<n. i < length st \<and> i < length os \<and> i < length p \<and>
            i < length k \<and> i + 2 < length (fShapeX s))
      else pads = fAttrPads s"
    by blast
  have s'_eq: "s' = s\<lparr>fDim := of_nat (length X) - 2, fAttrGroup := g, fAttrStrides := st,
            fAttrDilations := dl, fAttrKernelShape := k, fAttrOutputPadding := p,
            fAttrOutputShape := os, fAttrPads := pads\<rparr>"
    by (simp add: s'_eq3 s3_eq s2_eq)
  have lw: "1 < length W" using w1 by (simp add: vat_eq_Some)
  have o1: "out1 = (replicate (length X) 0)[0 := X ! 0, 1 := W ! 1 * g]"
    using x0 out0 w1 out1 unfolding s2 by (auto simp: vat_eq_Some put_eq_Some s2_eq)
  have dim': "unat (fDim s') = n" "fAttrOutputShape s' = os"
    using dim0 by (simp_all add: s'_eq s0_def)
  have loop: "forM [0..<n] (\<lambda>i out. do { v \<leftarrow> vat os i; put out (i + 2) v }) out1 = Some out"
    using out unfolding dim' .
  have w: "length out = length out1 \<and> (\<forall>i<n. i < length os \<and> i + 2 < length out1 \<and> out ! (i + 2) = os ! i)"
    by (rule forM_upt_written [OF loop]) (auto simp: bind_eq_Some_conv vat_eq_Some put_eq_Some)
  have lx: "0 < length X" "Suc 0 < length X" using size by linarith+
  have base: "out1 ! 0 = X ! 0 \<and> out1 ! 1 = W ! 1 * g"
    using lx by (simp add: o1 nth_list_update)
  have head: "out ! 0 = X ! 0 \<and> out ! 1 = W ! 1 * g"
    by (rule forM_invariant [OF loop, where P = "\<lambda>ys. ys ! 0 = X ! 0 \<and> ys ! 1 = W ! 1 * g"])
       (use base in \<open>auto simp: bind_eq_Some_conv put_eq_Some\<close>)
  show ?thesis
    by (rule that [OF s'_eq size lw k os pads outs])
       (use w head in \<open>auto simp: o1\<close>)
qed

text \<open>On one to three spatial axes the call returns exactly when it stays in range.\<close>

lemma ShapeInference_in_range:
  fixes s :: ROperator_ConvTranspose and X W :: shape
  assumes size: "3 \<le> length X" "length X < 2 ^ 64" and W: "1 < length W"
    and ok: "inference_in_range s (length X - 2)"
  shows "\<exists>r. ShapeInference s [X, W] = Some r"
proof -
  define n where "n = length X - 2"
  define g where "g = (if fAttrGroup s = 0 then 1 else fAttrGroup s)"
  define st where "st = (if fAttrStrides s = [] then replicate n 1 else fAttrStrides s)"
  define dl where "dl = (if fAttrDilations s = [] then replicate n 1 else fAttrDilations s)"
  define k where "k = (if fAttrKernelShape s = []
     then map (\<lambda>i. fShapeW s ! (i + 2) + (dl ! i - 1) * (fShapeW s ! (i + 2) - 1)) [0..<n]
     else fAttrKernelShape s)"
  define p where "p = (if fAttrOutputPadding s = [] then replicate n 0 else fAttrOutputPadding s)"
  define os where "os = (if fAttrOutputShape s = []
     then map (\<lambda>i. st ! i * (X ! (i + 2) - 1) + k ! i - p ! i) [0..<n]
     else fAttrOutputShape s)"
  have size2: "2 \<le> length X" using size(1) by linarith
  have lX: "length X = n + 2" using size2 by (simp add: n_def)
  note ok' = ok [unfolded inference_in_range_def Let_def, folded n_def]
  from ok' have shW: "fAttrKernelShape s = [] \<Longrightarrow> n + 2 \<le> length (fShapeW s)"
    and ldl: "fAttrKernelShape s = [] \<Longrightarrow> n \<le> length dl"
    and los: "n \<le> length os"
    and shX: "fAttrPads s = [] \<Longrightarrow> n + 2 \<le> length (fShapeX s)"
    by (auto simp: dl_def os_def)
  from ok' have derived: "n \<le> length st" "n \<le> length k" "n \<le> length p"
    if "fAttrOutputShape s = [] \<or> fAttrPads s = []"
    using that by (auto simp: st_def k_def p_def)
  define s0 where "s0 = s\<lparr>fDim := of_nat (length X) - 2\<rparr>"
  have dim0: "unat (fDim s0) = n"
    using size2 size(2) by (simp add: s0_def n_def unat_dim)
  define a where "a = s0\<lparr>fAttrGroup := g, fAttrStrides := st, fAttrDilations := dl\<rparr>"
  have a: "default_attributes s0 = a"
    using dim0 by (simp add: default_attributes_def a_def g_def st_def dl_def s0_def Let_def)
  define s1 where "s1 = a\<lparr>fAttrKernelShape := k\<rparr>"
  have s1: "default_kernel_shape a = Some s1"
  proof (cases "fAttrKernelShape s = []")
    case True
    have "default_kernel_shape a = Some (a\<lparr>fAttrKernelShape :=
           map (\<lambda>i. fShapeW a ! (i + 2) + (fAttrDilations a ! i - 1) * (fShapeW a ! (i + 2) - 1)) [0..<n]\<rparr>)"
      by (rule default_kernel_shape_absent)
         (use True shW ldl dim0 in \<open>simp_all add: a_def s0_def\<close>)
    then show ?thesis using True by (simp add: s1_def k_def a_def s0_def)
  next
    case False
    then show ?thesis by (simp add: default_kernel_shape_def s1_def k_def a_def s0_def)
  qed
  define s2 where "s2 = s1\<lparr>fAttrOutputPadding := p\<rparr>"
  have s2: "default_output_padding s1 = s2"
    using dim0 by (simp add: default_output_padding_def s2_def p_def s1_def a_def s0_def)
  define s3 where "s3 = s2\<lparr>fAttrOutputShape := os\<rparr>"
  have s3: "default_output_shape s2 X = Some s3"
  proof (cases "fAttrOutputShape s = []")
    case True
    have "default_output_shape s2 X = Some (s2\<lparr>fAttrOutputShape :=
           map (\<lambda>i. fAttrStrides s2 ! i * (X ! (i + 2) - 1) + fAttrKernelShape s2 ! i - fAttrOutputPadding s2 ! i) [0..<n]\<rparr>)"
      by (rule default_output_shape_absent)
         (use True lX dim0 derived in \<open>simp_all add: s2_def s1_def a_def s0_def\<close>)
    then show ?thesis using True by (simp add: s3_def os_def s2_def s1_def a_def s0_def)
  next
    case False
    then show ?thesis by (simp add: default_output_shape_def s3_def os_def s2_def s1_def a_def s0_def)
  qed
  have "\<exists>pads. default_pads s3 = Some (s3\<lparr>fAttrPads := pads\<rparr>)"
  proof (cases "fAttrPads s = []")
    case True
    have "\<exists>pads. default_pads s3 = Some (s3\<lparr>fAttrPads := pads\<rparr>) \<and> length pads = 2 * n"
      by (rule default_pads_absent)
         (use True shX dim0 derived los in \<open>simp_all add: s3_def s2_def s1_def a_def s0_def\<close>)
    then show ?thesis by blast
  next
    case False
    then have "default_pads s3 = Some (s3\<lparr>fAttrPads := fAttrPads s\<rparr>)"
      by (simp add: default_pads_def s3_def s2_def s1_def a_def s0_def)
    then show ?thesis by blast
  qed
  then obtain pads where s4: "default_pads s3 = Some (s3\<lparr>fAttrPads := pads\<rparr>)"
    by blast
  have "\<exists>out. forM [0..<n] (\<lambda>i out. do { v \<leftarrow> vat os i; put out (i + 2) v })
           ((replicate (length X) 0)[0 := X ! 0, 1 := W ! 1 * g]) = Some out \<and> length out = n + 2"
    by (rule forM_defined) (use los lX in auto)
  then obtain out where out': "forM [0..<n] (\<lambda>i out. do { v \<leftarrow> vat os i; put out (i + 2) v })
           ((replicate (length X) 0)[0 := X ! 0, 1 := W ! 1 * g]) = Some out"
    by blast
  have i1: "vat [X, W] 1 = Some W" by (simp add: vat_def)
  have x0: "vat X 0 = Some (X ! 0)" and w1: "vat W 1 = Some (W ! 1)"
    and o0: "\<And>v. put (replicate (length X) (0::size_t)) 0 v = Some ((replicate (length X) 0)[0 := v])"
    and o1: "\<And>v w. put ((replicate (length X) (0::size_t))[0 := w]) 1 v = Some ((replicate (length X) 0)[0 := w, 1 := v])"
    using lX W by (simp_all add: vat_def put_def)
  have fin: "unat (fDim (s3\<lparr>fAttrPads := pads\<rparr>)) = n" "fAttrOutputShape (s3\<lparr>fAttrPads := pads\<rparr>) = os"
      "fAttrGroup s2 = g"
    using dim0 by (simp_all add: s3_def s2_def s1_def a_def)
  have "ShapeInference s [X, W] = Some (s3\<lparr>fAttrPads := pads\<rparr>, [out])"
    unfolding ShapeInference_def
    using size2
    by (simp only: vat_Some put_Some list.size nth_Cons_0 nth_Cons_Suc Let_def
          a[unfolded s0_def] s1 s2 s3 s4 i1 x0 w1 o0 o1 out' fin bind.bind_lunit
          lessI zero_less_Suc if_True if_False not_less[symmetric] linorder_not_less[THEN iffD2]
          Option.bind.simps option.case split: if_splits)
  then show ?thesis by blast
qed

lemma ShapeInference_defined_iff:
  fixes s :: ROperator_ConvTranspose and X W :: shape
  assumes size: "3 \<le> length X" "length X < 2 ^ 64" and W: "1 < length W"
  shows "ShapeInference s [X, W] \<noteq> None \<longleftrightarrow> inference_in_range s (length X - 2)"
proof
  assume "inference_in_range s (length X - 2)"
  from ShapeInference_in_range [OF size W this] show "ShapeInference s [X, W] \<noteq> None"
    by auto
next
  assume "ShapeInference s [X, W] \<noteq> None"
  then obtain s' outs where run: "ShapeInference s [X, W] = Some (s', outs)"
    by auto
  define n where "n = length X - 2"
  define g where "g = (if fAttrGroup s = 0 then 1 else fAttrGroup s)"
  define st where "st = (if fAttrStrides s = [] then replicate n 1 else fAttrStrides s)"
  define dl where "dl = (if fAttrDilations s = [] then replicate n 1 else fAttrDilations s)"
  define p where "p = (if fAttrOutputPadding s = [] then replicate n 0 else fAttrOutputPadding s)"
  have n: "n - 1 < n" using size(1) by (simp add: n_def)
  from run size(2) n_def g_def st_def dl_def p_def obtain k os pads out where
    k: "if fAttrKernelShape s = []
     then length k = n \<and> (\<forall>i<n. i + 2 < length (fShapeW s) \<and> i < length dl \<and>
            k ! i = fShapeW s ! (i + 2) + (dl ! i - 1) * (fShapeW s ! (i + 2) - 1))
     else k = fAttrKernelShape s"
    and os: "if fAttrOutputShape s = []
     then length os = n \<and> (\<forall>i<n. i < length st \<and> i < length k \<and> i < length p \<and>
            os ! i = st ! i * (X ! (i + 2) - 1) + k ! i - p ! i)
     else os = fAttrOutputShape s"
    and pads: "if fAttrPads s = []
     then length pads = 2 * n \<and> (\<forall>i<n. i < length st \<and> i < length os \<and> i < length p \<and>
            i < length k \<and> i + 2 < length (fShapeX s))
     else pads = fAttrPads s"
    and out: "\<forall>i<n. i < length os \<and> out ! (i + 2) = os ! i"
    by (rule ShapeInference_returns)
  have 1: "n + 2 \<le> length (fShapeW s) \<and> (fAttrDilations s = [] \<or> n \<le> length (fAttrDilations s))"
    if "fAttrKernelShape s = []"
    using k that n by (auto simp: dl_def split: if_splits dest!: spec[of _ "n - 1"])
  have 2: "(fAttrStrides s = [] \<or> n \<le> length (fAttrStrides s)) \<and>
           (fAttrKernelShape s = [] \<or> n \<le> length (fAttrKernelShape s)) \<and>
           (fAttrOutputPadding s = [] \<or> n \<le> length (fAttrOutputPadding s))"
    if "fAttrOutputShape s = [] \<or> fAttrPads s = []"
  proof -
    from that os pads n have "n - 1 < length st \<and> n - 1 < length k \<and> n - 1 < length p"
      by (auto split: if_splits dest!: spec[of _ "n - 1"])
    then show ?thesis
      using k by (auto simp: st_def p_def split: if_splits)
  qed
  have 3: "fAttrOutputShape s = [] \<or> n \<le> length (fAttrOutputShape s)"
    using os out n by (auto split: if_splits dest!: spec[of _ "n - 1"])
  have 4: "n + 2 \<le> length (fShapeX s)" if "fAttrPads s = []"
    using pads that n by (auto split: if_splits dest!: spec[of _ "n - 1"])
  show "inference_in_range s (length X - 2)"
    unfolding inference_in_range_def Let_def n_def [symmetric]
    using 1 2 3 4 by blast
qed

section \<open>Shape inference\<close>

lemma example_2d_ShapeInference:
  "ShapeInference example_2d [[1, 3, 8, 8], [3, 2, 3, 3]] = Some (example_2d_inferred, [[1, 2, 10, 10]])"
  by code_simp

text \<open>
  Claim C1, amended. Every call of \<open>ShapeInference\<close> that returns, for an input shape of
  rank 3, 4 or 5 with no output shape and no output padding given, returns one output
  shape, whose spatial extent on every axis \<open>i\<close> is
  \<open>strides[i] * (inputShape[i + 2] - 1) + kernelShape[i]\<close> in \<open>size_t\<close> arithmetic; absent
  strides and dilations are 1, and an absent kernel shape is the dilated extent of the
  weight shape that the operator has stored in \<open>fShapeW\<close>, not of the weight shape passed
  to the call.
\<close>

theorem ShapeInference_spatial_extent:
  assumes ret: "ShapeInference s [inputShape, weightShape] = Some (s', outs)"
    and rank: "length inputShape \<in> {3, 4, 5}"
    and absent: "fAttrOutputShape s = []" "fAttrOutputPadding s = []"
  shows "\<exists>outShape. outs = [outShape] \<and> length outShape = length inputShape \<and>
     fAttrStrides s' = (if fAttrStrides s = [] then replicate (length inputShape - 2) 1 else fAttrStrides s) \<and>
     fAttrDilations s' = (if fAttrDilations s = [] then replicate (length inputShape - 2) 1 else fAttrDilations s) \<and>
     (\<forall>i<length inputShape - 2.
        fAttrKernelShape s' ! i =
          (if fAttrKernelShape s = []
           then fShapeW s ! (i + 2) + (fAttrDilations s' ! i - 1) * (fShapeW s ! (i + 2) - 1)
           else fAttrKernelShape s ! i) \<and>
        outShape ! (i + 2) = fAttrStrides s' ! i * (inputShape ! (i + 2) - 1) + fAttrKernelShape s' ! i)"
proof -
  define n where "n = length inputShape - 2"
  define g where "g = (if fAttrGroup s = 0 then 1 else fAttrGroup s)"
  define st where "st = (if fAttrStrides s = [] then replicate n 1 else fAttrStrides s)"
  define dl where "dl = (if fAttrDilations s = [] then replicate n 1 else fAttrDilations s)"
  define p where "p = (if fAttrOutputPadding s = [] then replicate n 0 else fAttrOutputPadding s)"
  have small: "length inputShape < 2 ^ 64"
    using rank by auto
  from ret small n_def g_def st_def dl_def p_def obtain k os pads out where
    s': "s' = s\<lparr>fDim := of_nat (length inputShape) - 2, fAttrGroup := g, fAttrStrides := st,
            fAttrDilations := dl, fAttrKernelShape := k, fAttrOutputPadding := p,
            fAttrOutputShape := os, fAttrPads := pads\<rparr>"
    and k: "if fAttrKernelShape s = []
     then length k = n \<and> (\<forall>i<n. i + 2 < length (fShapeW s) \<and> i < length dl \<and>
            k ! i = fShapeW s ! (i + 2) + (dl ! i - 1) * (fShapeW s ! (i + 2) - 1))
     else k = fAttrKernelShape s"
    and os: "if fAttrOutputShape s = []
     then length os = n \<and> (\<forall>i<n. i < length st \<and> i < length k \<and> i < length p \<and>
            os ! i = st ! i * (inputShape ! (i + 2) - 1) + k ! i - p ! i)
     else os = fAttrOutputShape s"
    and out: "outs = [out]" "length out = length inputShape"
      "\<forall>i<n. i < length os \<and> out ! (i + 2) = os ! i"
    by (rule ShapeInference_returns)
  have kern: "k ! i = (if fAttrKernelShape s = []
           then fShapeW s ! (i + 2) + (dl ! i - 1) * (fShapeW s ! (i + 2) - 1)
           else fAttrKernelShape s ! i)" if "i < n" for i
    using k that by (simp split: if_splits)
  have ext: "out ! (i + 2) = st ! i * (inputShape ! (i + 2) - 1) + k ! i" if "i < n" for i
  proof -
    from os absent(1) that have "os ! i = st ! i * (inputShape ! (i + 2) - 1) + k ! i - p ! i"
      by simp
    moreover have "p ! i = 0"
      using absent(2) that by (simp add: p_def)
    ultimately show ?thesis
      using out(3) that by simp
  qed
  have "fAttrStrides s' = st" "fAttrDilations s' = dl" "fAttrKernelShape s' = k"
    by (simp_all add: s')
  then show ?thesis
    using out(1,2) kern ext by (simp add: st_def dl_def flip: n_def)
qed

text \<open>Input \<open>(1, 3, 8, 8)\<close>, weight \<open>(3, 2, 3, 3)\<close> passed and stored, strides \<open>(1, 1)\<close>: both
  spatial sizes are 10.\<close>

theorem ShapeInference_spatial_extent_witness:
  "ShapeInference example_2d [[1, 3, 8, 8], [3, 2, 3, 3]] = Some (example_2d_inferred, [[1, 2, 10, 10]]) \<and>
   fAttrStrides example_2d = [1, 1] \<and> fShapeW example_2d = [3, 2, 3, 3] \<and>
   fAttrStrides example_2d_inferred = [1, 1] \<and> fAttrDilations example_2d_inferred = [1, 1] \<and>
   fAttrKernelShape example_2d_inferred = [3, 3] \<and>
   [1, 2, 10, 10 :: size_t] ! 2 = 1 * (8 - 1) + 3 \<and> [1, 2, 10, 10 :: size_t] ! 3 = 1 * (8 - 1) + 3"
proof -
  have rank: "length [1, 3, 8, 8 :: size_t] \<in> {3, 4, 5}" by simp
  have absent: "fAttrOutputShape example_2d = []" "fAttrOutputPadding example_2d = []"
    by (simp_all add: example_2d_def)
  from ShapeInference_spatial_extent [OF example_2d_ShapeInference rank absent]
  have "\<forall>i<2. fAttrKernelShape example_2d_inferred ! i =
          (if fAttrKernelShape example_2d = []
           then fShapeW example_2d ! (i + 2) +
                (fAttrDilations example_2d_inferred ! i - 1) * (fShapeW example_2d ! (i + 2) - 1)
           else fAttrKernelShape example_2d ! i) \<and>
        [1, 2, 10, 10] ! (i + 2) =
          fAttrStrides example_2d_inferred ! i * ([1, 3, 8, 8] ! (i + 2) - 1) +
          fAttrKernelShape example_2d_inferred ! i"
    by simp
  then show ?thesis
    using example_2d_ShapeInference
    by (simp add: example_2d_def example_2d_inferred_def)
qed

text \<open>The same call on an operator that has stored the weight shape \<open>(3, 2, 5, 5)\<close> returns
  the spatial sizes 12, and on one that has stored no shapes it leaves \<open>fShapeW\<close>.\<close>

theorem ShapeInference_stale_weight_counterexample:
  "fAttrStrides (example_2d\<lparr>fShapeW := [3, 2, 5, 5]\<rparr>) = [1, 1] \<and>
   fAttrPads (example_2d\<lparr>fShapeW := [3, 2, 5, 5]\<rparr>) = [] \<and>
   fAttrOutputShape (example_2d\<lparr>fShapeW := [3, 2, 5, 5]\<rparr>) = [] \<and>
   fAttrOutputPadding (example_2d\<lparr>fShapeW := [3, 2, 5, 5]\<rparr>) = [] \<and>
   map_option snd (ShapeInference (example_2d\<lparr>fShapeW := [3, 2, 5, 5]\<rparr>) [[1, 3, 8, 8], [3, 2, 3, 3]])
     = Some [[1, 2, 12, 12]] \<and>
   ShapeInference (example_2d\<lparr>fShapeX := [], fShapeW := []\<rparr>) [[1, 3, 8, 8], [3, 2, 3, 3]] = None"
  by code_simp

text \<open>
  Claim C6. Whenever \<open>ShapeInference\<close> returns, it returns one output shape, and the second
  entry of that shape is \<open>weightShape[1]\<close> times the group attribute, a group attribute of
  0 counting as 1.
\<close>

theorem ShapeInference_output_channels:
  assumes "ShapeInference s input = Some (s', outs)"
  shows "\<exists>outShape. outs = [outShape] \<and> 1 < length outShape \<and>
     outShape ! 1 = (input ! 1) ! 1 * (if fAttrGroup s = 0 then 1 else fAttrGroup s)"
  using assms
proof (rule ShapeInference_SomeD)
  fix X W out1 out
  assume W: "vat input 1 = Some W" and size: "2 \<le> length X"
    and grp: "fAttrGroup s' = (if fAttrGroup s = 0 then 1 else fAttrGroup s)"
    and out1: "out1 = (replicate (length X) 0)[0 := X ! 0, 1 := W ! 1 * fAttrGroup s']"
    and loop: "forM [0..<unat (fDim s')]
        (\<lambda>i out. do { v \<leftarrow> vat (fAttrOutputShape s') i; put out (i + 2) v }) out1 = Some out"
    and outs: "outs = [out]"
  have "1 < length out \<and> out ! 1 = W ! 1 * fAttrGroup s'"
    by (rule forM_invariant [OF loop, where P = "\<lambda>ys. 1 < length ys \<and> ys ! 1 = W ! 1 * fAttrGroup s'"])
       (use size in \<open>auto simp: out1 bind_eq_Some_conv put_eq_Some\<close>)
  moreover have "W = input ! 1" using W by (simp add: vat_eq_Some)
  ultimately show ?thesis using outs grp by simp
qed

theorem ShapeInference_output_channels_witness:
  "ShapeInference example_2d [[1, 3, 8, 8], [3, 2, 3, 3]] = Some (example_2d_inferred, [[1, 2, 10, 10]]) \<and>
   [1, 2, 10, 10] ! 1 = ([[1, 3, 8, 8], [3, 2, 3, 3 :: size_t]] ! 1) ! 1 * (1 :: size_t) \<and>
   fAttrGroup example_2d = 0"
proof -
  have "\<exists>outShape. [[1, 2, 10, 10]] = [outShape] \<and> 1 < length outShape \<and>
     outShape ! 1 = ([[1, 3, 8, 8], [3, 2, 3, 3]] ! 1) ! 1 *
       (if fAttrGroup example_2d = 0 then 1 else fAttrGroup example_2d)"
    by (rule ShapeInference_output_channels [OF example_2d_ShapeInference])
  moreover have "fAttrGroup example_2d = 0"
    by (simp add: example_2d_def)
  ultimately show ?thesis
    using example_2d_ShapeInference by simp
qed

text \<open>
  Claim C7. A call of \<open>ShapeInference\<close> that returns leaves the operator in a state from
  which a second call with the same shapes returns the same list of output shapes (and
  changes the operator no further), although the first call may have filled in strides,
  dilations, kernel shape, output shape, output padding and pads.
\<close>

theorem ShapeInference_idempotent:
  assumes "ShapeInference s input = Some (s1, outs)"
  shows "ShapeInference s1 input = Some (s1, outs)"
  using assms
proof (rule ShapeInference_SomeD)
  fix X W out1 out
  assume "vat input 0 = Some X" "vat input 1 = Some W" "2 \<le> length X"
    "fDim s1 = of_nat (length X) - 2" "settled s1"
    "out1 = (replicate (length X) 0)[0 := X ! 0, 1 := W ! 1 * fAttrGroup s1]" "1 < length W"
    "forM [0..<unat (fDim s1)]
        (\<lambda>i out. do { v \<leftarrow> vat (fAttrOutputShape s1) i; put out (i + 2) v }) out1 = Some out"
    "outs = [out]"
  then show ?thesis
    using ShapeInference_settled [of s1 X input W out] by simp
qed

theorem ShapeInference_idempotent_witness:
  "ShapeInference example_2d [[1, 3, 8, 8], [3, 2, 3, 3]] = Some (example_2d_inferred, [[1, 2, 10, 10]]) \<and>
   ShapeInference example_2d_inferred [[1, 3, 8, 8], [3, 2, 3, 3]] = Some (example_2d_inferred, [[1, 2, 10, 10]]) \<and>
   example_2d_inferred \<noteq> example_2d"
proof -
  have "ShapeInference example_2d_inferred [[1, 3, 8, 8], [3, 2, 3, 3]] =
      Some (example_2d_inferred, [[1, 2, 10, 10]])"
    by (rule ShapeInference_idempotent [OF example_2d_ShapeInference])
  moreover have "example_2d_inferred \<noteq> example_2d"
    by (simp add: example_2d_inferred_def example_2d_def)
  ultimately show ?thesis
    using example_2d_ShapeInference by simp
qed

section \<open>Initialization\<close>

lemma Initialize_shapes:
  fixes U :: "'dat SOFIE_common" and m :: "('ty, 'dat) RModel"
  assumes X: "fTensorShapes m (fNX s) = Some X" and W: "fTensorShapes m (fNW s) = Some W"
    and ranks: "length X \<in> {3, 4, 5}" "length W = length X"
    and fit: "attributes_fit s (length X - 2)"
  shows "\<exists>s6 os. 
     Initialize U s m =
       (if fNB s \<noteq> '''' 
        then initialize_bias U s6 (AddIntermediateTensor m (fNY s) (GetTensorType m (fNX s)) (fShapeY s6))
        else Inr (s6, AddIntermediateTensor m (fNY s) (GetTensorType m (fNX s)) (fShapeY s6))) \<and>
     fShapeY s6 = X ! 0 # W ! 1 * (if fAttrGroup s = 0 then 1 else fAttrGroup s) # os \<and>
     length os = length X - 2 \<and>
     fShapeX s6 = X \<and> fShapeW s6 = W \<and> fUseSession s6 = UseSession m \<and>
     fNX s6 = fNX s \<and> fNW s6 = fNW s \<and> fNB s6 = fNB s \<and> fNY s6 = fNY s \<and> fType s6 = fType s \<and>
     fNBroadcastedB s6 = fNBroadcastedB s \<and>
     fAttrGroup s6 = (if fAttrGroup s = 0 then 1 else fAttrGroup s)"
proof -
  define s4 where "s4 = s\<lparr>fUseSession := UseSession m, fShapeX := X,
      fDim := of_nat (length X) - 2, fShapeW := W\<rparr>"
  define n where "n = length X - 2"
  define g where "g = (if fAttrGroup s4 = 0 then 1 else fAttrGroup s4)"
  define st where "st = (if fAttrStrides s4 = [] then replicate n 1 else fAttrStrides s4)"
  define dl where "dl = (if fAttrDilations s4 = [] then replicate n 1 else fAttrDilations s4)"
  define k where "k = (if fAttrKernelShape s4 = []
     then map (\<lambda>i. fShapeW s4 ! (i + 2) + (dl ! i - 1) * (fShapeW s4 ! (i + 2) - 1)) [0..<n]
     else fAttrKernelShape s4)"
  define p where "p = (if fAttrOutputPadding s4 = [] then replicate n 0 else fAttrOutputPadding s4)"
  define os where "os = (if fAttrOutputShape s4 = []
     then map (\<lambda>i. st ! i * (X ! (i + 2) - 1) + k ! i - p ! i) [0..<n]
     else fAttrOutputShape s4)"
  have size: "2 \<le> length X" "length X < 2 ^ 64" "1 < length W"
    using ranks by auto
  have fit4: "attributes_fit s4 n"
    using fit by (simp add: attributes_fit_def s4_def n_def)
  have shW: "fAttrKernelShape s4 = [] \<longrightarrow> n + 2 \<le> length (fShapeW s4)"
    and shX: "fAttrPads s4 = [] \<longrightarrow> n + 2 \<le> length (fShapeX s4)"
    using ranks by (auto simp: n_def s4_def)
  from ShapeInference_defined [OF n_def g_def st_def dl_def k_def p_def os_def size fit4 shW shX]
  obtain pads where
    run: "ShapeInference s4 [X, W] =
      Some (s4\<lparr>fDim := of_nat (length X) - 2, fAttrGroup := g, fAttrStrides := st,
               fAttrDilations := dl, fAttrKernelShape := k, fAttrOutputPadding := p,
               fAttrOutputShape := os, fAttrPads := pads\<rparr>,
            [X ! 0 # W ! 1 * g # os])"
    by blast
  define s6 where "s6 = s4\<lparr>fDim := of_nat (length X) - 2, fAttrGroup := g, fAttrStrides := st,
               fAttrDilations := dl, fAttrKernelShape := k, fAttrOutputPadding := p,
               fAttrOutputShape := os, fAttrPads := pads, fShapeY := X ! 0 # W ! 1 * g # os\<rparr>"
  have len_os: "length os = n"
    using fit4 by (auto simp: os_def attributes_fit_def)
  have decl: "CheckIfTensorAlreadyExist m (fNX s)" "CheckIfTensorAlreadyExist m (fNW s)"
    "GetTensorShape m (fNX s) = X" "GetTensorShape m (fNW s) = W"
    using X W by (simp_all add: CheckIfTensorAlreadyExist_def GetTensorShape_def)
  have rk: "\<not> (length X < 3 \<or> length X > 5)" "\<not> (length W < 3 \<or> length W > 5)"
    using ranks by auto
  have f4: "fShapeX s4 = X" "fShapeW s4 = W" "fNB s4 = fNB s" "fNY s4 = fNY s" "fNX s4 = fNX s"
    by (simp_all add: s4_def)
  have step: "Initialize U s m =
       (case ShapeInference s4 [fShapeX s4, fShapeW s4] of
                None \<Rightarrow> Inl UndefinedBehaviour
              | Some (s5, outs) \<Rightarrow>
                  (case vat outs 0 of
                     None \<Rightarrow> Inl UndefinedBehaviour
                   | Some Y \<Rightarrow>
                       let s6 = s5\<lparr>fShapeY := Y\<rparr>;
                           m1 = AddIntermediateTensor m (fNY s6) (GetTensorType m (fNX s6)) (fShapeY s6)
                       in if fNB s6 \<noteq> '''' then initialize_bias U s6 m1 else Inr (s6, m1)))"
    by (simp add: Initialize_def Let_def decl rk s4_def)
  have "Initialize U s m =
       (if fNB s \<noteq> ''''
        then initialize_bias U s6 (AddIntermediateTensor m (fNY s) (GetTensorType m (fNX s)) (fShapeY s6))
        else Inr (s6, AddIntermediateTensor m (fNY s) (GetTensorType m (fNX s)) (fShapeY s6)))"
    unfolding step f4 run
    by (simp add: Let_def vat_def f4 s6_def)
  then show ?thesis
    using len_os
    by (intro exI[of _ s6] exI[of _ os]) (simp add: s6_def s4_def g_def n_def)
qed

lemma initialize_bias_cases:
  fixes U :: "'dat SOFIE_common" and m1 :: "('ty, 'dat) RModel"
  assumes Y: "1 < length (fShapeY s6)"
  shows "initialize_bias U s6 m1 =
     (if \<not> CheckIfTensorAlreadyExist m1 (fNB s6) then
        Inl (runtime_error (''TMVA SOFIE Conv op Input Tensor '' @ fNB s6 @ '' is not found in model''))
      else if length (GetTensorShape m1 (fNB s6)) = length (fShapeY s6) then
        Inr (s6\<lparr>fShapeB := GetTensorShape m1 (fNB s6)\<rparr>, m1)
      else if GetTensorShape m1 (fNB s6) = [] then
        Inl (runtime_error ''TMVA SOFIE Conv op: Bias Tensor has empty shape'')
      else if GetTensorShape m1 (fNB s6) ! 0 \<noteq> fShapeY s6 ! 1 then
        Inl (runtime_error (''TMVA SOFIE Conv op: Bias Tensor has wrong shape: '' @
                            ConvertShapeToString U (GetTensorShape m1 (fNB s6))))
      else if fType s6 \<noteq> ''float'' then
        Inl (runtime_error ''TMVA SOFIE Conv op: Broadcasting for non-float type tensors is not supported'')
      else if \<not> fUseSession s6 then
        Inr (s6\<lparr>fShapeB := fShapeY s6, fNBroadcastedB := fNB s6\<rparr>,
             UpdateInitializedTensor m1 (fNB s6) (GetTensorType m1 (fNB s6)) (fShapeY s6)
               (BroadcastConvBias U (GetInitializedTensorData m1 (fNB s6))
                  (GetTensorShape m1 (fNB s6) ! 0) (fShapeY s6)))
      else
        Inr (s6\<lparr>fShapeB := GetTensorShape m1 (fNB s6), fNBroadcastedB := ''Broadcasted'' @ fNB s6\<rparr>,
             AddIntermediateTensor m1 (''Broadcasted'' @ fNB s6) (GetTensorType m1 (fNB s6)) (fShapeY s6)))"
  using Y
  by (auto simp: initialize_bias_def Let_def vat_def GetTensorShape_def UpdateInitializedTensor_def)

lemma Initialize_throws_early:
  fixes U :: "'dat SOFIE_common" and m :: "('ty, 'dat) RModel"
  assumes "\<not> CheckIfTensorAlreadyExist m (fNX s) \<or> \<not> CheckIfTensorAlreadyExist m (fNW s) \<or>
     length (GetTensorShape m (fNX s)) < 3 \<or> 5 < length (GetTensorShape m (fNX s)) \<or>
     length (GetTensorShape m (fNW s)) < 3 \<or> 5 < length (GetTensorShape m (fNW s))"
  shows "\<exists>msg. Initialize U s m = Inl (runtime_error msg)"
  using assms by (auto simp: Initialize_def Let_def)

lemma example_model_shapes:
  "fTensorShapes example_model ''X'' = Some [1, 3, 8, 8]"
  "fTensorShapes example_model ''W'' = Some [3, 2, 3, 3]"
  "fTensorShapes example_model ''Y'' = None"
  "fTensorShapes example_model '''' = None"
  by (simp_all add: example_model_def)

lemma Initialize_reaches_inference:
  fixes U :: "'dat SOFIE_common" and m :: "('ty, 'dat) RModel"
  assumes "reaches_inference s m"
    and s4: "s4 = s\<lparr>fUseSession := UseSession m, fShapeX := GetTensorShape m (fNX s),
                   fDim := of_nat (length (GetTensorShape m (fNX s))) - 2,
                   fShapeW := GetTensorShape m (fNW s)\<rparr>"
  shows "Initialize U s m =
       (case ShapeInference s4 [GetTensorShape m (fNX s), GetTensorShape m (fNW s)] of
                None \<Rightarrow> Inl UndefinedBehaviour
              | Some (s5, outs) \<Rightarrow>
                  (case vat outs 0 of
                     None \<Rightarrow> Inl UndefinedBehaviour
                   | Some Y \<Rightarrow>
                       let s6 = s5\<lparr>fShapeY := Y\<rparr>;
                           m1 = AddIntermediateTensor m (fNY s6) (GetTensorType m (fNX s6)) (fShapeY s6)
                       in if fNB s6 \<noteq> '''' then initialize_bias U s6 m1 else Inr (s6, m1)))"
proof -
  from assms(1) have decl: "CheckIfTensorAlreadyExist m (fNX s)" "CheckIfTensorAlreadyExist m (fNW s)"
    and rk: "\<not> (length (GetTensorShape m (fNX s)) < 3 \<or> length (GetTensorShape m (fNX s)) > 5)"
      "\<not> (length (GetTensorShape m (fNW s)) < 3 \<or> length (GetTensorShape m (fNW s)) > 5)"
    by (auto simp: reaches_inference_def)
  show ?thesis
    by (simp add: Initialize_def Let_def decl rk s4)
qed

lemma Initialize_rank3_weight:
  "Initialize example_common example_2d example_model_rank3_weight = Inl UndefinedBehaviour"
proof -
  have "case Initialize example_common example_2d example_model_rank3_weight of
          Inl e \<Rightarrow> e = UndefinedBehaviour | Inr r \<Rightarrow> False"
    by code_simp
  then show ?thesis
    by (simp split: sum.splits)
qed

text \<open>
  Claim C5, amended. Let the bias name, when there is one, differ from the output name.
  \<open>Initialize\<close> leaves a vector (undefined behaviour) exactly when input and weight are
  declared with ranks from 3 to 5 and shape inference on their shapes reads outside a
  vector: the weight has fewer axes than the input while no kernel shape is given, or an
  attribute vector that is read is given with fewer entries than there are spatial axes.
  In every other case \<open>Initialize\<close> throws exactly when the specification's condition
  holds: a tensor it refers to is not declared, or a rank is outside 3 to 5, or the bias
  needs broadcasting and has an invalid shape or the type is not \<open>float\<close>; and when it
  does not throw it completes, and the model then declares the output tensor with the
  inferred shape.
\<close>

theorem Initialize_fails_iff:
  fixes U :: "'dat SOFIE_common" and m :: "('ty, 'dat) RModel"
  assumes names: "fNB s = '''' \<or> fNB s \<noteq> fNY s"
  shows "(Initialize U s m = Inl UndefinedBehaviour \<longleftrightarrow> Initialize_leaves_vector s m) \<and>
         (\<not> Initialize_leaves_vector s m \<longrightarrow>
            ((\<exists>msg. Initialize U s m = Inl (runtime_error msg)) \<longleftrightarrow> Initialize_fails_spec s m) \<and>
            (\<not> Initialize_fails_spec s m \<longrightarrow>
               (\<exists>s' m'. Initialize U s m = Inr (s', m') \<and>
                  CheckIfTensorAlreadyExist m' (fNY s) \<and> GetTensorShape m' (fNY s) = fShapeY s' \<and>
                  length (fShapeY s') = length (GetTensorShape m (fNX s)))))"
proof (cases "reaches_inference s m")
  case False
  then have early: "\<not> CheckIfTensorAlreadyExist m (fNX s) \<or> \<not> CheckIfTensorAlreadyExist m (fNW s) \<or>
     length (GetTensorShape m (fNX s)) < 3 \<or> 5 < length (GetTensorShape m (fNX s)) \<or>
     length (GetTensorShape m (fNW s)) < 3 \<or> 5 < length (GetTensorShape m (fNW s))"
    by (auto simp: reaches_inference_def)
  then have "Initialize_fails_spec s m"
    by (auto simp: Initialize_fails_spec_def Let_def)
  moreover have "\<not> Initialize_leaves_vector s m"
    using False by (simp add: Initialize_leaves_vector_def)
  ultimately show ?thesis
    using Initialize_throws_early [OF early, of U] by auto
next
  case True
  define X where "X = GetTensorShape m (fNX s)"
  define W where "W = GetTensorShape m (fNW s)"
  define B where "B = GetTensorShape m (fNB s)"
  define g where "g = (if fAttrGroup s = 0 then 1 else fAttrGroup s)"
  define c where "c = W ! 1 * g"
  define s4 where "s4 = s\<lparr>fUseSession := UseSession m, fShapeX := X,
                   fDim := of_nat (length X) - 2, fShapeW := W\<rparr>"
  from True have rk: "length X \<in> {3, 4, 5}" "length W \<in> {3, 4, 5}"
    by (simp_all add: reaches_inference_def X_def W_def)
  then have size: "3 \<le> length X" "length X < 2 ^ 64" "1 < length W"
    by auto
  have step: "Initialize U s m =
       (case ShapeInference s4 [X, W] of
                None \<Rightarrow> Inl UndefinedBehaviour
              | Some (s5, outs) \<Rightarrow>
                  (case vat outs 0 of
                     None \<Rightarrow> Inl UndefinedBehaviour
                   | Some Y \<Rightarrow>
                       let s6 = s5\<lparr>fShapeY := Y\<rparr>;
                           m1 = AddIntermediateTensor m (fNY s6) (GetTensorType m (fNX s6)) (fShapeY s6)
                       in if fNB s6 \<noteq> '''' then initialize_bias U s6 m1 else Inr (s6, m1)))"
    unfolding X_def W_def
    by (rule Initialize_reaches_inference [OF True]) (simp add: s4_def X_def W_def)
  have range: "inference_in_range s4 (length X - 2) \<longleftrightarrow> \<not> Initialize_leaves_vector s m"
    using True
    by (simp add: Initialize_leaves_vector_def inference_in_range_def s4_def X_def W_def)
  have spec: "Initialize_fails_spec s m \<longleftrightarrow>
      fNB s \<noteq> '''' \<and> (\<not> CheckIfTensorAlreadyExist m (fNB s) \<or>
        length B \<noteq> length X \<and> (B = [] \<or> B ! 0 \<noteq> c \<or> fType s \<noteq> ''float''))"
    using True rk
    by (auto simp: Initialize_fails_spec_def reaches_inference_def Let_def X_def W_def B_def c_def g_def)
  show ?thesis
  proof (cases "ShapeInference s4 [X, W]")
    case None
    with ShapeInference_defined_iff [OF size, of s4] range have "Initialize_leaves_vector s m"
      by simp
    with None step show ?thesis by simp
  next
    case (Some r)
    obtain s5 outs where r: "r = (s5, outs)" by (cases r)
    with Some have run: "ShapeInference s4 [X, W] = Some (s5, outs)" by simp
    with ShapeInference_defined_iff [OF size, of s4] range have inside: "\<not> Initialize_leaves_vector s m"
      by simp
    define n where "n = length X - 2"
    define st where "st = (if fAttrStrides s4 = [] then replicate n 1 else fAttrStrides s4)"
    define dl where "dl = (if fAttrDilations s4 = [] then replicate n 1 else fAttrDilations s4)"
    define p where "p = (if fAttrOutputPadding s4 = [] then replicate n 0 else fAttrOutputPadding s4)"
    have g4: "g = (if fAttrGroup s4 = 0 then 1 else fAttrGroup s4)"
      by (simp add: g_def s4_def)
    from run size(2) n_def g4 st_def dl_def p_def obtain k os pads Y where
      s5: "s5 = s4\<lparr>fDim := of_nat (length X) - 2, fAttrGroup := g, fAttrStrides := st,
            fAttrDilations := dl, fAttrKernelShape := k, fAttrOutputPadding := p,
            fAttrOutputShape := os, fAttrPads := pads\<rparr>"
      and outs: "outs = [Y]" and Y: "length Y = length X" "Y ! 1 = W ! 1 * g"
      by (rule ShapeInference_returns)
    define s6 where "s6 = s5\<lparr>fShapeY := Y\<rparr>"
    define m1 where "m1 = AddIntermediateTensor m (fNY s) (GetTensorType m (fNX s)) Y"
    have f6: "fNB s6 = fNB s" "fNY s6 = fNY s" "fNX s6 = fNX s" "fShapeY s6 = Y"
      "fUseSession s6 = UseSession m" "fType s6 = fType s"
      by (simp_all add: s6_def s5 s4_def)
    have init: "Initialize U s m = (if fNB s \<noteq> '''' then initialize_bias U s6 m1 else Inr (s6, m1))"
      unfolding step run outs
      by (simp add: Let_def vat_def f6 s6_def [symmetric] m1_def)
    have lenY: "1 < length (fShapeY s6)" "fShapeY s6 ! 1 = c" "length (fShapeY s6) = length X"
      using Y size(1) by (simp_all add: f6 c_def)
    have reg: "CheckIfTensorAlreadyExist m1 (fNY s)" "GetTensorShape m1 (fNY s) = Y"
      by (simp_all add: m1_def AddIntermediateTensor_def CheckIfTensorAlreadyExist_def GetTensorShape_def)
    show ?thesis
    proof (cases "fNB s = ''''")
      case True
      then show ?thesis
        using init inside reg spec by (simp add: f6 Y X_def)
    next
      case nb: False
      with names have ne: "fNB s \<noteq> fNY s" by simp
      have m1: "CheckIfTensorAlreadyExist m1 (fNB s) = CheckIfTensorAlreadyExist m (fNB s)"
        "GetTensorShape m1 (fNB s) = B"
        using ne
        by (simp_all add: m1_def AddIntermediateTensor_def CheckIfTensorAlreadyExist_def GetTensorShape_def B_def)
      have bias: "Initialize U s m = initialize_bias U s6 m1"
        using init nb by simp
      have Yc: "Y ! 1 = c" using Y(2) by (simp add: c_def)
      note cases = initialize_bias_cases [OF lenY(1), of U m1, unfolded f6 m1 Yc Y(1)]
      show ?thesis
      proof (cases "Initialize_fails_spec s m")
        case True
        then show ?thesis
          using nb inside unfolding bias cases spec by auto
      next
        case False
        then have ok: "CheckIfTensorAlreadyExist m (fNB s)"
          "length B = length X \<or> (B \<noteq> [] \<and> B ! 0 = c \<and> fType s = ''float'')"
          using nb unfolding spec by auto
        have reg': "\<And>ty dat. CheckIfTensorAlreadyExist (UpdateInitializedTensor m1 (fNB s) ty Y dat) (fNY s)"
          "\<And>ty dat. GetTensorShape (UpdateInitializedTensor m1 (fNB s) ty Y dat) (fNY s) = Y"
          "\<And>name ty. CheckIfTensorAlreadyExist (AddIntermediateTensor m1 name ty Y) (fNY s)"
          "\<And>name ty. GetTensorShape (AddIntermediateTensor m1 name ty Y) (fNY s) = Y"
          using reg ne
          by (auto simp: UpdateInitializedTensor_def AddIntermediateTensor_def
              CheckIfTensorAlreadyExist_def GetTensorShape_def split: option.splits)
        show ?thesis
          using False ok reg reg' Y(1) inside unfolding bias cases
          by (auto simp: X_def f6)
      qed
    qed
  qed
qed

theorem Initialize_fails_iff_witness:
  "(fNB example_2d = '''' \<or> fNB example_2d \<noteq> fNY example_2d) \<and>
   \<not> Initialize_leaves_vector example_2d example_model \<and>
   \<not> Initialize_fails_spec example_2d example_model \<and>
   (\<exists>s' m'. Initialize example_common example_2d example_model = Inr (s', m') \<and>
      CheckIfTensorAlreadyExist m' ''Y'' \<and> GetTensorShape m' ''Y'' = fShapeY s' \<and>
      length (fShapeY s') = 4)"
proof -
  have names: "fNB example_2d = '''' \<or> fNB example_2d \<noteq> fNY example_2d"
    by (simp add: example_2d_def)
  have sh: "GetTensorShape example_model (fNX example_2d) = [1, 3, 8, 8]"
    "GetTensorShape example_model (fNW example_2d) = [3, 2, 3, 3]"
    by (simp_all add: GetTensorShape_def example_model_shapes example_2d_def)
  have inside: "\<not> Initialize_leaves_vector example_2d example_model"
    by (simp add: Initialize_leaves_vector_def sh inference_in_range_def) (simp add: example_2d_def)
  have ok: "\<not> Initialize_fails_spec example_2d example_model"
    by (simp add: Initialize_fails_spec_def sh CheckIfTensorAlreadyExist_def)
       (simp add: example_2d_def example_model_shapes)
  from Initialize_fails_iff [OF names, of example_common example_model] ok inside names
  show ?thesis
    by (simp add: sh) (auto simp: example_2d_def)
qed

text \<open>Three strides for two spatial axes: shape inference reads the first two.\<close>

lemma Initialize_three_strides_example:
  "\<not> Initialize_leaves_vector (example_2d\<lparr>fAttrStrides := [1, 1, 1]\<rparr>) example_model \<and>
   \<not> isl (Initialize example_common (example_2d\<lparr>fAttrStrides := [1, 1, 1]\<rparr>) example_model)"
  by code_simp

text \<open>The claim as it stands fails in two ways. With an input of rank 4 and a weight of
  rank 3, both declared, none of its conditions holds, and shape inference reads
  \<open>fShapeW[3]\<close>. With an undeclared bias named as the output, its condition holds, and
  \<open>Initialize\<close> completes: the output is added to the model before the bias is looked up.\<close>

theorem Initialize_counterexample:
  "\<not> Initialize_fails_spec example_2d example_model_rank3_weight \<and>
   Initialize example_common example_2d example_model_rank3_weight = Inl UndefinedBehaviour \<and>
   fNB (example_2d\<lparr>fNB := ''Y''\<rparr>) \<noteq> '''' \<and>
   \<not> CheckIfTensorAlreadyExist example_model (fNB (example_2d\<lparr>fNB := ''Y''\<rparr>)) \<and>
   Initialize_fails_spec (example_2d\<lparr>fNB := ''Y''\<rparr>) example_model \<and>
   \<not> isl (Initialize example_common (example_2d\<lparr>fNB := ''Y''\<rparr>) example_model)"
proof -
  have "\<not> Initialize_fails_spec example_2d example_model_rank3_weight"
    by code_simp
  moreover have "fNB (example_2d\<lparr>fNB := ''Y''\<rparr>) \<noteq> '''' \<and>
   \<not> CheckIfTensorAlreadyExist example_model (fNB (example_2d\<lparr>fNB := ''Y''\<rparr>)) \<and>
   Initialize_fails_spec (example_2d\<lparr>fNB := ''Y''\<rparr>) example_model \<and>
   \<not> isl (Initialize example_common (example_2d\<lparr>fNB := ''Y''\<rparr>) example_model)"
    by code_simp
  ultimately show ?thesis
    using Initialize_rank3_weight by simp
qed

text \<open>
  Claim C2, amended. Neither \<open>Initialize\<close> nor \<open>ShapeInference\<close> looks at whether the group
  count divides a channel count: with input and weight declared, of equal rank from 3 to
  5, fitting attribute vectors and no bias, \<open>Initialize\<close> completes for every group count
  \<open>g\<close>, and the output channel count is \<open>weightShape[1] * g\<close> (\<open>g = 0\<close> counting as 1).
\<close>

theorem Initialize_accepts_every_group:
  fixes U :: "'dat SOFIE_common" and m :: "('ty, 'dat) RModel"
  assumes X: "fTensorShapes m (fNX s) = Some X" and W: "fTensorShapes m (fNW s) = Some W"
    and ranks: "length X \<in> {3, 4, 5}" "length W = length X"
    and fit: "attributes_fit s (length X - 2)"
    and no_bias: "fNB s = ''''"
  shows "\<exists>s' m'. Initialize U (s\<lparr>fAttrGroup := g\<rparr>) m = Inr (s', m') \<and>
           fAttrGroup s' = (if g = 0 then 1 else g) \<and>
           fShapeY s' ! 1 = W ! 1 * (if g = 0 then 1 else g)"
proof -
  have fit': "attributes_fit (s\<lparr>fAttrGroup := g\<rparr>) (length X - 2)"
    using fit by (simp add: attributes_fit_def)
  from Initialize_shapes [of m "s\<lparr>fAttrGroup := g\<rparr>" X W U] X W ranks fit' no_bias
  show ?thesis by auto
qed

theorem Initialize_accepts_every_group_witness:
  "\<exists>s' m'. Initialize example_common (example_2d\<lparr>fAttrGroup := 7\<rparr>) example_model = Inr (s', m') \<and>
     fAttrGroup s' = 7 \<and> fShapeY s' ! 1 = 14"
  using Initialize_accepts_every_group [of example_model example_2d "[1, 3, 8, 8]" "[3, 2, 3, 3]"
      example_common 7]
  by (simp add: example_model_shapes attributes_fit_def example_2d_def)

text \<open>Three input channels and two groups: no error.\<close>

theorem Initialize_group_counterexample:
  "fAttrGroup (example_2d\<lparr>fAttrGroup := 2\<rparr>) = 2 \<and>
   GetTensorShape example_model (fNX (example_2d\<lparr>fAttrGroup := 2\<rparr>)) ! 1 = 3 \<and>
   \<not> (2 :: nat) dvd 3 \<and>
   \<not> isl (Initialize example_common (example_2d\<lparr>fAttrGroup := 2\<rparr>) example_model) \<and>
   ShapeInference (example_2d\<lparr>fAttrGroup := 2\<rparr>) [[1, 3, 8, 8], [3, 2, 3, 3]] \<noteq> None"
  by code_simp

section \<open>Code generation\<close>

lemma upt_2: "[0..<2] = [0, 1]" and upt_3: "[0..<3] = [0, 1, 2]"
  by (simp_all add: upt_rec)

lemma spatial_extents_2d:
  "length sh = 4 \<Longrightarrow> spatial_extents 2 sh = Some (1, sh ! 2, sh ! 3)"
  by (simp add: spatial_extents_def)

lemma spatial_extents_3d:
  "length sh = 5 \<Longrightarrow> spatial_extents 3 sh = Some (sh ! 2, sh ! 3, sh ! 4)"
  by (simp add: spatial_extents_def)

lemma generate_kernel_matrix_2d:
  assumes "fDim s = 2" "length (fShapeW s) = 4" "length (fAttrKernelShape s) = 2"
    "length (fAttrDilations s) = 2"
  shows "\<exists>text. generate_kernel_matrix U s OpName kext =
     Some (text, fAttrKernelShape s ! 0 * fAttrKernelShape s ! 1)"
  using assms
  by (cases kext) (simp add: generate_kernel_matrix_def Let_def upt_2)

lemma generate_kernel_matrix_3d:
  assumes "fDim s = 3" "length (fShapeW s) = 5" "length (fAttrKernelShape s) = 3"
    "length (fAttrDilations s) = 3"
  shows "\<exists>text. generate_kernel_matrix U s OpName kext =
     Some (text, fAttrKernelShape s ! 0 * fAttrKernelShape s ! 1 * fAttrKernelShape s ! 2)"
  using assms
  by (cases kext) (simp add: generate_kernel_matrix_def Let_def upt_3)

lemma generate_gemm_parameters_defined:
  assumes "1 < length (fShapeW s)"
  shows "\<exists>text. generate_gemm_parameters U s OpName bsize oext ic = Some text"
  using assms
  by (cases oext) (simp add: generate_gemm_parameters_def)


lemma average_pads_2d_ready:
  assumes "fDim s = 2" "length (fAttrPads s) = 4"
  shows "average_pads s =
     Some (if fAttrPads s ! 0 \<noteq> fAttrPads s ! 2 \<or> fAttrPads s ! 1 \<noteq> fAttrPads s ! 3
           then (s\<lparr>fAttrPads := (fAttrPads s)
                   [0 := (fAttrPads s ! 0 + fAttrPads s ! 2) div 2,
                    1 := (fAttrPads s ! 1 + fAttrPads s ! 3) div 2]\<rparr>, [asymmetric_warning])
           else (s, []))"
  using assms
  by (simp add: average_pads_def average_pads_1d_def average_pads_2d_def average_pads_3d_def)

lemma average_pads_3d_ready:
  assumes "fDim s = 3" "length (fAttrPads s) = 6"
  shows "average_pads s =
     Some (if fAttrPads s ! 0 \<noteq> fAttrPads s ! 3 \<or> fAttrPads s ! 1 \<noteq> fAttrPads s ! 4 \<or>
              fAttrPads s ! 2 \<noteq> fAttrPads s ! 5
           then (s\<lparr>fAttrPads := (fAttrPads s)
                   [0 := (fAttrPads s ! 0 + fAttrPads s ! 3) div 2,
                    1 := (fAttrPads s ! 1 + fAttrPads s ! 4) div 2,
                    2 := (fAttrPads s ! 2 + fAttrPads s ! 5) div 2]\<rparr>, [asymmetric_warning])
           else (s, []))"
  using assms
  by (simp add: average_pads_def average_pads_1d_def average_pads_2d_def average_pads_3d_def)

lemma generate_im2col_2d:
  assumes "fDim s = 2" "1 < length (fShapeX s)" "length (fAttrKernelShape s) = 2"
    "length (fAttrStrides s) = 2" "length (fAttrDilations s) = 2" "length (fAttrPads s) = 4"
  shows "\<exists>text. generate_im2col U s OpName iext = Some text"
  using assms
  by (cases iext) (simp add: generate_im2col_def)

lemma generate_im2col_3d:
  assumes "fDim s = 3" "1 < length (fShapeX s)" "length (fAttrKernelShape s) = 3"
    "length (fAttrStrides s) = 3" "length (fAttrDilations s) = 3" "length (fAttrPads s) = 6"
  shows "\<exists>text. generate_im2col U s OpName iext = Some text"
  using assms
  by (cases iext) (simp add: generate_im2col_def)

lemma generate_batch_body_defined:
  assumes "generate_im2col U s OpName iext = Some im2col"
    and "1 < length (fShapeX s)" "1 < length (fShapeY s)" "1 < length (fShapeW s)"
    and "fAttrGroup s \<noteq> 0"
  shows "\<exists>text. generate_batch_body U s OpName iext oext ic = Some text"
proof -
  from assms(4) have "fShapeW s \<noteq> []" by auto
  with assms show ?thesis
    by (cases iext; cases oext) (simp add: generate_batch_body_def)
qed

lemma generate_bias_defined:
  assumes "1 < length (fShapeY s)"
  shows "\<exists>text. generate_bias U s OpName oext = Some text"
proof -
  from assms have "fShapeY s \<noteq> []" by auto
  with assms show ?thesis
    by (cases oext) (simp add: generate_bias_def)
qed

lemma generate_code_assemble:
  assumes x0: "fShapeX s \<noteq> []"
    and ext: "spatial_extents (fDim s) (fShapeW s) = Some kext"
      "spatial_extents (fDim s) (fShapeX s) = Some iext"
      "spatial_extents (fDim s) (fShapeY s) = Some oext"
    and km: "\<exists>text. generate_kernel_matrix U s OpName kext = Some (text, ic)"
    and gp: "\<exists>text. generate_gemm_parameters U s OpName (fShapeX s ! 0) oext ic = Some text"
    and av: "average_pads s = Some (s1, printed)"
    and bb: "\<exists>text. generate_batch_body U s1 OpName iext oext ic = Some text"
    and bi: "\<exists>text. generate_bias U s1 OpName oext = Some text"
  shows "\<exists>code. generate_code U s OpName = Some (s1, printed, code)"
proof -
  from km obtain t1 where t1: "generate_kernel_matrix U s OpName kext = Some (t1, ic)" by blast
  from gp obtain t2 where t2: "generate_gemm_parameters U s OpName (fShapeX s ! 0) oext ic = Some t2" by blast
  from bb obtain t3 where t3: "generate_batch_body U s1 OpName iext oext ic = Some t3" by blast
  from bi obtain t4 where t4: "generate_bias U s1 OpName oext = Some t4" by blast
  show ?thesis
    using x0 by (simp add: generate_code_def ext t1 t2 av t3 t4)
qed

lemma generate_code_2d:
  assumes "generate_ready s 2"
  shows "\<exists>s1 printed code. average_pads s = Some (s1, printed) \<and>
           generate_code U s OpName = Some (s1, printed, code)"
proof -
  from assms have dim: "fDim s = 2"
    and len: "length (fShapeX s) = 4" "length (fShapeW s) = 4" "length (fShapeY s) = 4"
      "length (fAttrKernelShape s) = 2" "length (fAttrStrides s) = 2"
      "length (fAttrDilations s) = 2" "length (fAttrPads s) = 4"
    and grp: "fAttrGroup s \<noteq> 0"
    by (simp_all add: generate_ready_def)
  obtain s1 printed where av: "average_pads s = Some (s1, printed)"
    and s1: "fDim s1 = 2" "fShapeX s1 = fShapeX s" "fShapeW s1 = fShapeW s" "fShapeY s1 = fShapeY s"
      "fAttrKernelShape s1 = fAttrKernelShape s" "fAttrStrides s1 = fAttrStrides s"
      "fAttrDilations s1 = fAttrDilations s" "length (fAttrPads s1) = 4" "fAttrGroup s1 = fAttrGroup s"
    using average_pads_2d_ready [OF dim len(7)] dim len by (cases "fAttrPads s ! 0 \<noteq> fAttrPads s ! 2 \<or> fAttrPads s ! 1 \<noteq> fAttrPads s ! 3") auto
  have im: "\<exists>text. generate_im2col U s1 OpName (1, fShapeX s ! 2, fShapeX s ! 3) = Some text"
    by (rule generate_im2col_2d) (simp_all add: s1 len)
  then obtain t where t: "generate_im2col U s1 OpName (1, fShapeX s ! 2, fShapeX s ! 3) = Some t" by blast
  have "\<exists>code. generate_code U s OpName = Some (s1, printed, code)"
  proof (rule generate_code_assemble [OF _ _ _ _ _ _ av])
    show "fShapeX s \<noteq> []" using len by auto
    show "spatial_extents (fDim s) (fShapeW s) = Some (1, fShapeW s ! 2, fShapeW s ! 3)"
      "spatial_extents (fDim s) (fShapeX s) = Some (1, fShapeX s ! 2, fShapeX s ! 3)"
      "spatial_extents (fDim s) (fShapeY s) = Some (1, fShapeY s ! 2, fShapeY s ! 3)"
      by (simp_all add: dim spatial_extents_2d len)
    show "\<exists>text. generate_kernel_matrix U s OpName (1, fShapeW s ! 2, fShapeW s ! 3) =
        Some (text, fAttrKernelShape s ! 0 * fAttrKernelShape s ! 1)"
      by (rule generate_kernel_matrix_2d) (simp_all add: dim len)
    show "\<exists>text. generate_gemm_parameters U s OpName (fShapeX s ! 0) (1, fShapeY s ! 2, fShapeY s ! 3)
        (fAttrKernelShape s ! 0 * fAttrKernelShape s ! 1) = Some text"
      by (rule generate_gemm_parameters_defined) (simp add: len)
    show "\<exists>text. generate_batch_body U s1 OpName (1, fShapeX s ! 2, fShapeX s ! 3)
        (1, fShapeY s ! 2, fShapeY s ! 3) (fAttrKernelShape s ! 0 * fAttrKernelShape s ! 1) = Some text"
      by (rule generate_batch_body_defined [OF t]) (simp_all add: s1 len grp)
    show "\<exists>text. generate_bias U s1 OpName (1, fShapeY s ! 2, fShapeY s ! 3) = Some text"
      by (rule generate_bias_defined) (simp add: s1 len)
  qed
  with av show ?thesis by blast
qed

lemma generate_code_3d:
  assumes "generate_ready s 3"
  shows "\<exists>s1 printed code. average_pads s = Some (s1, printed) \<and>
           generate_code U s OpName = Some (s1, printed, code)"
proof -
  from assms have dim: "fDim s = 3"
    and len: "length (fShapeX s) = 5" "length (fShapeW s) = 5" "length (fShapeY s) = 5"
      "length (fAttrKernelShape s) = 3" "length (fAttrStrides s) = 3"
      "length (fAttrDilations s) = 3" "length (fAttrPads s) = 6"
    and grp: "fAttrGroup s \<noteq> 0"
    by (simp_all add: generate_ready_def)
  obtain s1 printed where av: "average_pads s = Some (s1, printed)"
    and s1: "fDim s1 = 3" "fShapeX s1 = fShapeX s" "fShapeW s1 = fShapeW s" "fShapeY s1 = fShapeY s"
      "fAttrKernelShape s1 = fAttrKernelShape s" "fAttrStrides s1 = fAttrStrides s"
      "fAttrDilations s1 = fAttrDilations s" "length (fAttrPads s1) = 6" "fAttrGroup s1 = fAttrGroup s"
    using average_pads_3d_ready [OF dim len(7)] dim len
    by (cases "fAttrPads s ! 0 \<noteq> fAttrPads s ! 3 \<or> fAttrPads s ! 1 \<noteq> fAttrPads s ! 4 \<or>
              fAttrPads s ! 2 \<noteq> fAttrPads s ! 5") auto
  have im: "\<exists>text. generate_im2col U s1 OpName (fShapeX s ! 2, fShapeX s ! 3, fShapeX s ! 4) = Some text"
    by (rule generate_im2col_3d) (simp_all add: s1 len)
  then obtain t where t: "generate_im2col U s1 OpName (fShapeX s ! 2, fShapeX s ! 3, fShapeX s ! 4) = Some t"
    by blast
  have "\<exists>code. generate_code U s OpName = Some (s1, printed, code)"
  proof (rule generate_code_assemble [OF _ _ _ _ _ _ av])
    show "fShapeX s \<noteq> []" using len by auto
    show "spatial_extents (fDim s) (fShapeW s) = Some (fShapeW s ! 2, fShapeW s ! 3, fShapeW s ! 4)"
      "spatial_extents (fDim s) (fShapeX s) = Some (fShapeX s ! 2, fShapeX s ! 3, fShapeX s ! 4)"
      "spatial_extents (fDim s) (fShapeY s) = Some (fShapeY s ! 2, fShapeY s ! 3, fShapeY s ! 4)"
      by (simp_all add: dim spatial_extents_3d len)
    show "\<exists>text. generate_kernel_matrix U s OpName (fShapeW s ! 2, fShapeW s ! 3, fShapeW s ! 4) =
        Some (text, fAttrKernelShape s ! 0 * fAttrKernelShape s ! 1 * fAttrKernelShape s ! 2)"
      by (rule generate_kernel_matrix_3d) (simp_all add: dim len)
    show "\<exists>text. generate_gemm_parameters U s OpName (fShapeX s ! 0)
        (fShapeY s ! 2, fShapeY s ! 3, fShapeY s ! 4)
        (fAttrKernelShape s ! 0 * fAttrKernelShape s ! 1 * fAttrKernelShape s ! 2) = Some text"
      by (rule generate_gemm_parameters_defined) (simp add: len)
    show "\<exists>text. generate_batch_body U s1 OpName (fShapeX s ! 2, fShapeX s ! 3, fShapeX s ! 4)
        (fShapeY s ! 2, fShapeY s ! 3, fShapeY s ! 4)
        (fAttrKernelShape s ! 0 * fAttrKernelShape s ! 1 * fAttrKernelShape s ! 2) = Some text"
      by (rule generate_batch_body_defined [OF t]) (simp_all add: s1 len grp)
    show "\<exists>text. generate_bias U s1 OpName (fShapeY s ! 2, fShapeY s ! 3, fShapeY s ! 4) = Some text"
      by (rule generate_bias_defined) (simp add: s1 len)
  qed
  with av show ?thesis by blast
qed

lemma less_2_cases: "(\<exists>i<(2::nat). P i) \<longleftrightarrow> P 0 \<or> P 1" "(\<forall>i<(2::nat). P i) \<longleftrightarrow> P 0 \<and> P 1"
proof -
  have "i < 2 \<longleftrightarrow> i = 0 \<or> i = 1" for i :: nat by auto
  then show "(\<exists>i<(2::nat). P i) \<longleftrightarrow> P 0 \<or> P 1" "(\<forall>i<(2::nat). P i) \<longleftrightarrow> P 0 \<and> P 1"
    by auto
qed

lemma less_3_cases: "(\<exists>i<(3::nat). P i) \<longleftrightarrow> P 0 \<or> P 1 \<or> P 2"
  "(\<forall>i<(3::nat). P i) \<longleftrightarrow> P 0 \<and> P 1 \<and> P 2"
proof -
  have "i < 3 \<longleftrightarrow> i = 0 \<or> i = 1 \<or> i = 2" for i :: nat by auto
  then show "(\<exists>i<(3::nat). P i) \<longleftrightarrow> P 0 \<or> P 1 \<or> P 2"
    "(\<forall>i<(3::nat). P i) \<longleftrightarrow> P 0 \<and> P 1 \<and> P 2"
    by auto
qed

lemma Generate_ready:
  assumes "generate_ready s n" "n = 2 \<or> n = 3"
  shows "\<exists>s1 printed code. average_pads s = Some (s1, printed) \<and>
           Generate U s OpName = Inr (s1, printed, code)"
proof -
  from assms have init: "\<not> (fShapeX s = [] \<or> fShapeW s = [] \<or> (fNB s \<noteq> '''' \<and> fShapeB s = []) \<or> fShapeY s = [])"
    by (auto simp: generate_ready_def)
  from assms generate_code_2d [of s U "''op_'' @ OpName"] generate_code_3d [of s U "''op_'' @ OpName"]
  obtain s1 printed code where "average_pads s = Some (s1, printed)"
    "generate_code U s (''op_'' @ OpName) = Some (s1, printed, code)"
    by blast
  with init show ?thesis
    by (simp add: Generate_def Let_def)
qed

lemma Generate_averages_pads:
  assumes ready: "generate_ready s n" and n: "n = 2 \<or> n = 3"
    and asym: "\<exists>i<n. fAttrPads s ! i \<noteq> fAttrPads s ! (i + n)"
  shows "\<exists>s' code. Generate U s OpName = Inr (s', [asymmetric_warning], code) \<and>
           (\<forall>i<n. fAttrPads s' ! i = (fAttrPads s ! i + fAttrPads s ! (i + n)) div 2) \<and>
           (\<forall>i<n. fAttrPads s' ! (i + n) = fAttrPads s ! (i + n))"
proof -
  from Generate_ready [OF ready n, of U OpName] obtain s1 printed code where
    av: "average_pads s = Some (s1, printed)" and gen: "Generate U s OpName = Inr (s1, printed, code)"
    by blast
  from n show ?thesis
  proof
    assume n2: "n = 2"
    with ready have dim: "fDim s = 2" and len: "length (fAttrPads s) = 4"
      by (simp_all add: generate_ready_def)
    have a: "fAttrPads s ! 0 \<noteq> fAttrPads s ! 2 \<or> fAttrPads s ! 1 \<noteq> fAttrPads s ! 3"
      using asym unfolding n2 less_2_cases by (simp add: eval_nat_numeral)
    from av a have "s1 = s\<lparr>fAttrPads := (fAttrPads s)
                   [0 := (fAttrPads s ! 0 + fAttrPads s ! 2) div 2,
                    1 := (fAttrPads s ! 1 + fAttrPads s ! 3) div 2]\<rparr>" "printed = [asymmetric_warning]"
      unfolding average_pads_2d_ready [OF dim len] by auto
    with gen len show ?thesis
      unfolding n2 less_2_cases by (simp add: eval_nat_numeral)
  next
    assume n3: "n = 3"
    with ready have dim: "fDim s = 3" and len: "length (fAttrPads s) = 6"
      by (simp_all add: generate_ready_def)
    have a: "fAttrPads s ! 0 \<noteq> fAttrPads s ! 3 \<or> fAttrPads s ! 1 \<noteq> fAttrPads s ! 4 \<or>
        fAttrPads s ! 2 \<noteq> fAttrPads s ! 5"
      using asym unfolding n3 less_3_cases by (simp add: eval_nat_numeral)
    from av a have "s1 = s\<lparr>fAttrPads := (fAttrPads s)
                   [0 := (fAttrPads s ! 0 + fAttrPads s ! 3) div 2,
                    1 := (fAttrPads s ! 1 + fAttrPads s ! 4) div 2,
                    2 := (fAttrPads s ! 2 + fAttrPads s ! 5) div 2]\<rparr>" "printed = [asymmetric_warning]"
      unfolding average_pads_3d_ready [OF dim len] by auto
    with gen len show ?thesis
      unfolding n3 less_3_cases by (simp add: eval_nat_numeral)
  qed
qed

text \<open>The pads \<open>(1, 2, 4, 2)\<close> of two spatial axes become \<open>(2, 2, 4, 2)\<close>, with the warning.\<close>

lemma Generate_averages_pads_example:
  "\<exists>s' code. Generate example_common example_2d_asymmetric ''0'' = Inr (s', [asymmetric_warning], code) \<and>
     fAttrPads s' ! 0 = 2 \<and> fAttrPads s' ! 1 = 2 \<and> fAttrPads s' ! 2 = 4 \<and> fAttrPads s' ! 3 = 2"
proof -
  have ready: "generate_ready example_2d_asymmetric 2"
    by (simp add: generate_ready_def example_2d_asymmetric_def example_2d_inferred_def example_2d_def)
  have pads: "fAttrPads example_2d_asymmetric = [1, 2, 4, 2]"
    by (simp add: example_2d_asymmetric_def)
  have asym: "\<exists>i<2. fAttrPads example_2d_asymmetric ! i \<noteq> fAttrPads example_2d_asymmetric ! (i + 2)"
    unfolding pads by (intro exI[of _ 0]) simp
  from Generate_averages_pads [OF ready _ asym, of example_common "''0''"]
  obtain s' code where g: "Generate example_common example_2d_asymmetric ''0'' = Inr (s', [asymmetric_warning], code)"
    and before: "\<forall>i<2. fAttrPads s' ! i = (fAttrPads example_2d_asymmetric ! i + fAttrPads example_2d_asymmetric ! (i + 2)) div 2"
    and after: "\<forall>i<2. fAttrPads s' ! (i + 2) = fAttrPads example_2d_asymmetric ! (i + 2)"
    by auto
  have b0: "fAttrPads s' ! 0 = 2" using before [rule_format, of 0] by (simp add: pads)
  have b1: "fAttrPads s' ! 1 = 2" using before [rule_format, of 1] by (simp add: pads)
  have a0: "fAttrPads s' ! 2 = 4" using after [rule_format, of 0] by (simp add: pads numeral_2_eq_2 [symmetric])
  have a1: "fAttrPads s' ! 3 = 2" using after [rule_format, of 1] by (simp add: pads numeral_3_eq_3 [symmetric])
  from g b0 b1 a0 a1 show ?thesis by blast
qed

text \<open>With one spatial axis, \<open>ih = 1\<close> and \<open>fAttrDilations[ih]\<close> is read, and
  \<open>fAttrStrides[1]\<close> is written: both are outside a vector of one entry.\<close>

lemma generate_kernel_matrix_1d:
  assumes "fDim s = 1" "length (fAttrDilations s) = 1"
  shows "generate_kernel_matrix U s OpName kext = None"
  using assms
  by (cases kext) (simp add: generate_kernel_matrix_def Let_def vat_def bind_eq_None_conv)

lemma average_pads_1d_strides:
  assumes "fDim s = 1" "length (fAttrStrides s) = 1"
  shows "average_pads s = None"
proof -
  have "average_pads_1d s = None"
    using assms
    by (auto simp: average_pads_1d_def put_def bind_eq_None_conv split: prod.splits)
  then show ?thesis
    by (simp add: average_pads_def)
qed

text \<open>
  Claim C3. For two and three spatial axes \<open>Generate\<close> does what the claim says (lemma
  \<open>Generate_averages_pads\<close>: it returns code, prints the warning, and the first pad of every
  axis becomes \<open>(before + after) / 2\<close>). With one spatial axis it does not: for an
  initialized operator whose dilations or strides have the one entry of that axis,
  \<open>Generate\<close> leaves its vectors, so that no result is defined.
\<close>

theorem Generate_1d_leaves_vectors:
  assumes dim: "fDim s = 1"
    and one: "length (fAttrDilations s) = 1 \<or> length (fAttrStrides s) = 1"
    and init: "fShapeX s \<noteq> []" "fShapeW s \<noteq> []" "fShapeY s \<noteq> []" "fNB s = '''' \<or> fShapeB s \<noteq> []"
  shows "Generate U s OpName = Inl UndefinedBehaviour"
proof -
  have "generate_code U s (''op_'' @ OpName) = None"
    using one
  proof
    assume "length (fAttrDilations s) = 1"
    then show ?thesis
      by (simp add: generate_code_def generate_kernel_matrix_1d [OF dim] bind_eq_None_conv)
  next
    assume "length (fAttrStrides s) = 1"
    then show ?thesis
      by (simp add: generate_code_def average_pads_1d_strides [OF dim] bind_eq_None_conv split: prod.splits)
  qed
  with init show ?thesis
    by (auto simp: Generate_def Let_def)
qed

lemma example_1d_Initialize:
  "map_sum id fst (Initialize example_common example_1d example_model_1d) = Inr example_1d_initialized"
  by code_simp

theorem Generate_1d_leaves_vectors_witness:
  "map_sum id fst (Initialize example_common example_1d example_model_1d) = Inr example_1d_initialized \<and>
   fDim example_1d_initialized = 1 \<and> fAttrPads example_1d_initialized = [0, 1] \<and>
   fAttrStrides example_1d_initialized = [1] \<and> fAttrDilations example_1d_initialized = [1] \<and>
   Generate example_common example_1d_initialized ''0'' = Inl UndefinedBehaviour"
  using Generate_1d_leaves_vectors [of example_1d_initialized example_common "''0''"] example_1d_Initialize
  by (simp add: example_1d_initialized_def example_1d_def)

section \<open>Rounding to binary64\<close>

lemma pow2_pos [simp]: "0 < pow2 k"
  by (simp add: pow2_def)

lemma pow2_nonneg [simp]: "0 \<le> pow2 k"
  by (simp add: pow2_def)

lemma pow2_neq_0 [simp]: "pow2 k \<noteq> 0"
  by (simp add: pow2_def)

lemma pow2_not_le_0 [simp]: "\<not> pow2 k \<le> 0"
  by (simp add: pow2_def not_le)

lemma pow2_strict_mono: "a < b \<Longrightarrow> pow2 a < pow2 b"
  by (simp add: pow2_def)

lemma pow2_add: "pow2 (a + b) = pow2 a * pow2 b"
  by (simp add: pow2_def powr_add)

lemma pow2_diff: "pow2 (a - b) = pow2 a / pow2 b"
  by (simp add: pow2_def powr_diff)

lemma pow2_mono: "a \<le> b \<Longrightarrow> pow2 a \<le> pow2 b"
  by (simp add: pow2_def powr_mono)

lemma pow2_nat: "0 \<le> k \<Longrightarrow> pow2 k = of_int (2 ^ nat k)"
  by (simp add: pow2_def powr_real_of_int)

lemma pow2_neg: "pow2 (- k) = 1 / pow2 k"
  by (simp add: pow2_def powr_minus divide_inverse)

lemma pow2_0 [simp]: "pow2 0 = 1"
  by (simp add: pow2_def)

lemma floor_log2_le:
  assumes "0 < x" "x \<le> pow2 k"
  shows "\<lfloor>log 2 x\<rfloor> \<le> k"
proof -
  have "log 2 x \<le> of_int k"
    using assms by (simp add: pow2_def log_le_iff)
  then show ?thesis
    by (simp add: floor_le_iff)
qed

lemma floor_log2_less:
  assumes "0 < x" "x < pow2 k"
  shows "\<lfloor>log 2 x\<rfloor> < k"
proof -
  have "log 2 x < of_int k"
    using assms by (simp add: pow2_def log_less_iff)
  then show ?thesis
    by (simp add: floor_less_iff)
qed

lemma floor_log2_ge:
  assumes "pow2 k \<le> x"
  shows "k \<le> \<lfloor>log 2 x\<rfloor>"
proof -
  have "0 < x" using assms pow2_pos [of k] by linarith
  then have "of_int k \<le> log 2 x"
    using assms by (simp add: pow2_def le_log_iff)
  then show ?thesis
    by (simp add: le_floor_iff)
qed

lemma pow2_floor_log2_le:
  assumes "0 < x"
  shows "pow2 \<lfloor>log 2 x\<rfloor> \<le> x"
proof -
  have "\<lfloor>log 2 x\<rfloor> = \<lfloor>log 2 x\<rfloor>" ..
  then have "2 powr of_int \<lfloor>log 2 x\<rfloor> \<le> x"
    using floor_log_eq_powr_iff [of x 2 "\<lfloor>log 2 x\<rfloor>"] assms by simp
  then show ?thesis by (simp add: pow2_def)
qed

lemma ulp_pos [simp]: "0 < ulp x"
  by (simp add: ulp_def)

lemma ulp_nonneg [simp]: "0 \<le> ulp x"
  by (simp add: ulp_def)

lemma ulp_neq_0 [simp]: "ulp x \<noteq> 0"
  by (simp add: ulp_def)

lemma rne_0 [simp]: "rne 0 = 0"
  by (simp add: rne_def)

lemma rne_of_int [simp]: "rne (of_int z) = z"
  by (simp add: rne_def)

lemma rne_le: "y \<le> of_int N \<Longrightarrow> rne y \<le> N"
  unfolding rne_def Let_def
  by (auto simp: floor_le_iff; linarith)

lemma rne_ge: "of_int N \<le> y \<Longrightarrow> N \<le> rne y"
  unfolding rne_def Let_def
  by (auto simp: le_floor_iff; linarith)


lemma rne_ge_pow2:
  assumes "0 \<le> n" "pow2 n \<le> y"
  shows "pow2 n \<le> of_int (rne y)"
proof -
  have p: "pow2 n = of_int (2 ^ nat n)" using assms(1) by (rule pow2_nat)
  with assms(2) have "of_int (2 ^ nat n) \<le> y" by simp
  then have "2 ^ nat n \<le> rne y" by (rule rne_ge)
  then have "(of_int (2 ^ nat n) :: real) \<le> of_int (rne y)" by (simp only: of_int_le_iff)
  then show ?thesis by (simp only: p)
qed

lemma rne_le_pow2:
  assumes "0 \<le> n" "y \<le> pow2 n"
  shows "of_int (rne y) \<le> pow2 n"
proof -
  have p: "pow2 n = of_int (2 ^ nat n)" using assms(1) by (rule pow2_nat)
  with assms(2) have "y \<le> of_int (2 ^ nat n)" by simp
  then have "rne y \<le> 2 ^ nat n" by (rule rne_le)
  then have "(of_int (rne y) :: real) \<le> of_int (2 ^ nat n)" by (simp only: of_int_le_iff)
  then show ?thesis by (simp only: p)
qed


lemma round64_0 [simp]: "round64 0 = Finite 0"
  by (simp add: round64_def)



lemma round64_lower:
  assumes x: "pow2 k \<le> x" and k: "- 1022 \<le> k"
  shows "round64 x = PlusInfinity \<or> (\<exists>r. round64 x = Finite r \<and> pow2 k \<le> r)"
proof -
  have pos: "0 < x" using x pow2_pos [of k] by linarith
  define e where "e = \<lfloor>log 2 x\<rfloor>"
  have ke: "k \<le> e" unfolding e_def using x by (rule floor_log2_ge)
  have b: "binade x = e" using ke k pos by (simp add: binade_def e_def)
  have u: "ulp x = pow2 (e - 52)" by (simp add: ulp_def b)
  have "pow2 e \<le> x" unfolding e_def using pos by (rule pow2_floor_log2_le)
  then have "pow2 e / pow2 (e - 52) \<le> x / ulp x"
    unfolding u by (intro divide_right_mono) simp_all
  moreover have "pow2 e / pow2 (e - 52) = pow2 52"
    using pow2_diff [of e "e - 52"] by simp
  ultimately have "pow2 52 \<le> x / ulp x" by simp
  then have "pow2 52 \<le> of_int (rne (x / ulp x))" by (intro rne_ge_pow2) simp_all
  then have "pow2 52 * ulp x \<le> of_int (rne (x / ulp x)) * ulp x"
    by (intro mult_right_mono) simp_all
  moreover have "pow2 52 * ulp x = pow2 e"
    using pow2_add [of 52 "e - 52"] by (simp add: u)
  ultimately have "pow2 e \<le> of_int (rne (x / ulp x)) * ulp x" by simp
  with pow2_mono [OF ke] have r: "pow2 k \<le> of_int (rne (x / ulp x)) * ulp x" by linarith
  show ?thesis
    using r pos by (simp add: round64_def Let_def)
qed

lemma round64_upper:
  assumes x: "0 \<le> x" "x \<le> pow2 k" and k: "- 1074 \<le> k" "k \<le> 1023"
  shows "\<exists>r. round64 x = Finite r \<and> 0 \<le> r \<and> r \<le> pow2 k"
proof (cases "x = 0")
  case True
  then show ?thesis by simp
next
  case False
  with x have pos: "0 < x" by simp
  define e where "e = binade x"
  have "\<lfloor>log 2 x\<rfloor> \<le> k" using pos x(2) by (rule floor_log2_le)
  then have e: "0 \<le> k - (e - 52)" using k pos by (simp add: e_def binade_def)
  have u: "ulp x = pow2 (e - 52)" by (simp add: ulp_def e_def)
  have N: "pow2 (k - (e - 52)) * ulp x = pow2 k"
    using pow2_add [of "k - (e - 52)" "e - 52"] by (simp add: u)
  have "x / ulp x \<le> pow2 k / ulp x"
    using x(2) by (intro divide_right_mono) simp_all
  also have "pow2 k / ulp x = pow2 (k - (e - 52))"
    using pow2_diff [of k "e - 52"] by (simp add: u)
  finally have "of_int (rne (x / ulp x)) \<le> pow2 (k - (e - 52))"
    by (intro rne_le_pow2 e)
  then have "of_int (rne (x / ulp x)) * ulp x \<le> pow2 (k - (e - 52)) * ulp x"
    by (intro mult_right_mono) simp_all
  then have hi: "of_int (rne (x / ulp x)) * ulp x \<le> pow2 k" by (simp only: N)
  have "of_int 0 \<le> x / ulp x" using x(1) by simp
  then have "0 \<le> rne (x / ulp x)" by (rule rne_ge)
  then have lo: "0 \<le> of_int (rne (x / ulp x)) * ulp x" by simp
  have "pow2 k < pow2 1024"
    using k(2) by (intro pow2_strict_mono) simp
  with hi lo have "\<not> pow2 1024 \<le> \<bar>of_int (rne (x / ulp x)) * ulp x\<bar>" by simp
  with hi lo show ?thesis by (simp add: round64_def Let_def)
qed

lemma round64_between:
  assumes "pow2 j \<le> x" "x \<le> pow2 k" "- 1022 \<le> j" "k \<le> 1023"
  shows "\<exists>r. round64 x = Finite r \<and> pow2 j \<le> r \<and> r \<le> pow2 k"
proof -
  have "0 \<le> x" using assms(1) pow2_pos [of j] by linarith
  moreover have "j \<le> k"
  proof (rule ccontr)
    assume "\<not> j \<le> k"
    then have "pow2 k < pow2 j" by (intro pow2_strict_mono) simp
    with assms(1,2) show False by linarith
  qed
  ultimately obtain r where r: "round64 x = Finite r" "0 \<le> r" "r \<le> pow2 k"
    using round64_upper [of x k] assms by auto
  with round64_lower [OF assms(1) assms(3)] show ?thesis by auto
qed



lemma round64_of_int:
  assumes "\<bar>z\<bar> < 2 ^ 53"
  shows "round64 (of_int z) = Finite (of_int z)"
proof (cases "z = 0")
  case True
  then show ?thesis by simp
next
  case False
  define x :: real where "x = of_int z"
  have ax: "\<bar>x\<bar> = of_int \<bar>z\<bar>" by (simp add: x_def)
  have one: "pow2 0 \<le> \<bar>x\<bar>" using False by (simp add: ax)
  have "\<bar>x\<bar> < of_int (2 ^ 53)" unfolding ax using assms by (simp only: of_int_less_iff)
  also have "(of_int (2 ^ 53) :: real) = pow2 53" using pow2_nat [of 53] by simp
  finally have lt: "\<bar>x\<bar> < pow2 53" .
  define e where "e = \<lfloor>log 2 \<bar>x\<bar>\<rfloor>"
  have e: "0 \<le> e" "e < 53"
    using floor_log2_ge [OF one] floor_log2_less [OF _ lt] one by (simp_all add: e_def)
  have u: "ulp x = pow2 (e - 52)" using e by (simp add: ulp_def binade_def e_def)
  define n where "n = nat (52 - e)"
  have "pow2 (e - 52) * of_int (2 ^ n) = 1"
    using pow2_add [of "e - 52" "52 - e"] pow2_nat [of "52 - e"] e by (simp add: n_def)
  then have iu: "1 / ulp x = of_int (2 ^ n)"
    unfolding u by (simp add: divide_eq_eq mult.commute)
  have "x / ulp x = x * (1 / ulp x)" by simp
  also have "\<dots> = of_int (z * 2 ^ n)" unfolding iu by (simp add: x_def)
  finally have "rne (x / ulp x) = z * 2 ^ n" by (simp only: rne_of_int)
  then have "of_int (rne (x / ulp x)) * ulp x = x * (of_int (2 ^ n) * ulp x)"
    by (simp add: x_def)
  also have "of_int (2 ^ n) * ulp x = 1"
    using iu by (simp add: field_simps)
  finally have r: "of_int (rne (x / ulp x)) * ulp x = x" by simp
  have "pow2 53 \<le> pow2 1024" by (rule pow2_mono) simp
  with lt have "\<not> pow2 1024 \<le> \<bar>x\<bar>" by simp
  then show ?thesis
    unfolding x_def [symmetric] by (simp add: round64_def Let_def r)
qed

text \<open>The sign of the operations.\<close>

lemma not_negative_simps [simp]:
  "not_negative NaN" "not_negative PlusInfinity" "\<not> not_negative MinusInfinity"
  "not_negative (Finite r) \<longleftrightarrow> 0 \<le> r"
  by (simp_all add: not_negative_def)






text \<open>The values that the overflowing case needs.\<close>

lemma round64_exact [simp]:
  "round64 1 = Finite 1" "round64 40 = Finite 40" "round64 (- 20) = Finite (- 20)"
  "round64 (- 800) = Finite (- 800)"
  using round64_of_int [of 1] round64_of_int [of 40] round64_of_int [of "- 20"]
    round64_of_int [of "- 800"]
  by simp_all

lemma pow2_values: "pow2 1 = 2" "pow2 2 = 4" "pow2 3 = 8"
  using pow2_nat [of 1] pow2_nat [of 2] pow2_nat [of 3] by simp_all

lemma TwoPi_between: "\<exists>t. TwoPi = Finite t \<and> 4 \<le> t \<and> t \<le> 8"
proof -
  have "pow2 2 \<le> 2 * pi" "2 * pi \<le> pow2 3"
    using pi_ge_two pi_less_4 by (simp_all add: pow2_values)
  from round64_between [OF this] show ?thesis
    by (simp add: TwoPi_def pow2_values)
qed

lemma sqrt_TwoPi_between: "\<exists>s. dsqrt TwoPi = Finite s \<and> 2 \<le> s \<and> s \<le> 4"
proof -
  from TwoPi_between obtain t where t: "TwoPi = Finite t" "4 \<le> t" "t \<le> 8" by blast
  have "sqrt 4 \<le> sqrt t" "sqrt t \<le> sqrt 16"
    using t by (simp_all only: real_sqrt_le_iff)
  moreover have "sqrt 4 = (2::real)" "sqrt 16 = (4::real)"
    using real_sqrt_abs [of 2] real_sqrt_abs [of 4] by simp_all
  ultimately have "pow2 1 \<le> sqrt t" "sqrt t \<le> pow2 2"
    by (simp_all add: pow2_values)
  from round64_between [OF this] obtain s where "round64 (sqrt t) = Finite s" "2 \<le> s" "s \<le> 4"
    by (auto simp: pow2_values)
  moreover have "dsqrt TwoPi = round64 (sqrt t)"
    using t(2) by (simp add: t(1))
  ultimately show ?thesis
    by (intro exI [of _ s]) simp
qed





section \<open>The Johnson PDF: density, sampling, errors\<close>



text \<open>In the standard normal case the density at the mode is a number between \<open>1/4\<close> and \<open>1/2\<close>.\<close>

lemma evaluate_standard:
  "\<exists>r. evaluate standard_johnson = Finite r \<and> 1 / 4 \<le> r \<and> r \<le> 1 / 2"
proof -
  from sqrt_TwoPi_between obtain s where s: "dsqrt TwoPi = Finite s" "2 \<le> s" "s \<le> 4" by blast
  have p: "pow2 (- 2) = 1 / 4" "pow2 (- 1) = 1 / 2"
    using pow2_neg [of 2] pow2_neg [of 1] by (simp_all add: pow2_values)
  have "pow2 (- 2) \<le> 1 / s" "1 / s \<le> pow2 (- 1)"
    using s unfolding p by (simp_all add: field_simps)
  from round64_between [OF this] obtain q where q: "round64 (1 / s) = Finite q"
    "pow2 (- 2) \<le> q" "q \<le> pow2 (- 1)" by auto
  from round64_between [OF q(2,3)] obtain r where r: "round64 q = Finite r"
    "pow2 (- 2) \<le> r" "r \<le> pow2 (- 1)" by auto
  from round64_between [OF r(2,3)] obtain r' where r': "round64 r = Finite r'"
    "pow2 (- 2) \<le> r'" "r' \<le> pow2 (- 1)" by auto
  have "s \<noteq> 0" using s(2) by simp
  then have "evaluate standard_johnson = Finite r'"
    by (simp add: evaluate_def Let_def standard_johnson_def proxy_def s(1) q(1) r(1) r'(1))
  with r'(2,3) show ?thesis by (simp add: p)
qed


lemma generate_mass_accepts:
  assumes "generate_mass p rng = Some r"
  shows "proxy_min (m_mass p) None \<le> fst r \<and> fst r \<le> proxy_max (m_mass p) None \<and>
         m_massThreshold p \<le> fst r"
  using assms
proof (induction rule: generate_mass.raw_induct [rotated 1, consumes 1])
  case (1 gen p rng r)
  show ?case
  proof (cases "gen p (stl rng) = Some r")
    case True
    then show ?thesis by (rule "1.IH")
  next
    case False
    with "1.hyps" show ?thesis
      by (auto simp: Let_def split: if_splits)
  qed
qed

text \<open>
  Claim C10. When \<open>generateEvent(1)\<close> returns, the mass it has assigned lies within the
  range of the observable and is not below the threshold, and nothing but the value of
  the mass observable has changed.
\<close>

theorem generateEvent_mass_in_range:
  assumes "generateEvent p 1 rng = Some (Inr (p', rng'))"
  shows "proxy_min (m_mass p') None \<le> val (m_mass p') \<and>
         val (m_mass p') \<le> proxy_max (m_mass p') None \<and>
         m_massThreshold p' \<le> val (m_mass p') \<and>
         p' = p\<lparr>m_mass := (m_mass p)\<lparr>val := val (m_mass p')\<rparr>\<rparr>"
proof -
  from assms obtain mass where g: "generate_mass p rng = Some (mass, rng')"
    and p': "p' = p\<lparr>m_mass := (m_mass p)\<lparr>val := mass\<rparr>\<rparr>"
    by (auto simp: generateEvent_def split: option.splits)
  from generate_mass_accepts [OF g] show ?thesis
    by (simp add: p')
qed

lemma example_sampler_generateEvent:
  "generateEvent example_sampler 1 (sconst 0) =
     Some (Inr (example_sampler\<lparr>m_mass := (m_mass example_sampler)\<lparr>val := 0\<rparr>\<rparr>, sconst 0))"
  by (simp add: generateEvent_def generate_mass.simps example_sampler_def proxy_def)

theorem generateEvent_mass_in_range_witness:
  "generateEvent example_sampler 1 (sconst 0) =
     Some (Inr (example_sampler\<lparr>m_mass := (m_mass example_sampler)\<lparr>val := 0\<rparr>\<rparr>, sconst 0)) \<and>
   val (m_mass example_sampler) = 5 \<and> proxy_min (m_mass example_sampler) None = -10 \<and>
   proxy_max (m_mass example_sampler) None = 10 \<and> m_massThreshold example_sampler = 0"
  using generateEvent_mass_in_range [OF example_sampler_generateEvent]
    example_sampler_generateEvent
  by (simp add: example_sampler_def proxy_def)

lemma integral_limits_fails_iff:
  assumes "consecutive K"
  shows "isl (integral_limits K p code r) \<longleftrightarrow> code < kMass K \<or> kDelta K < code"
  using assms
  by (auto simp: integral_limits_def consecutive_def Let_def split: sum.splits)

lemma integral_limits_error:
  "integral_limits K p code r = Inl e \<Longrightarrow> e = AssertionFailed"
  by (auto simp: integral_limits_def Let_def split: if_splits sum.splits)

text \<open>
  Claim C9, amended. \<open>generateEvent\<close> throws for every code other than 1 and throws
  nothing for code 1; \<open>getGenerator\<close> gives the code 1 when the mass is asked for and 0
  otherwise; \<open>evaluate\<close> has a value for every state. \<open>analyticalIntegral\<close> throws nothing,
  but it has an error path of its own: a code that is none of the five integral codes
  fails an assertion, and no other code does.
\<close>

theorem RooJohnson_error_paths:
  "(code \<noteq> 1 \<longrightarrow>
      generateEvent p code rng = Some (Inl (logic_error ''Generation in other variables not yet implemented.''))) \<and>
   (\<forall>e. generateEvent p 1 rng \<noteq> Some (Inl e)) \<and>
   fst (getGenerator matchArgs directVars) = (if matchArgs directVars VarMass = None then 0 else 1) \<and>
   (\<forall>e. analyticalIntegral erfc K p code' r = Inl e \<longrightarrow> e = AssertionFailed) \<and>
   (consecutive K \<longrightarrow>
      (isl (analyticalIntegral erfc K p code' r) \<longleftrightarrow> code' < kMass K \<or> kDelta K < code'))"
proof -
  have a: "isl (analyticalIntegral erfc K p code' r) = isl (integral_limits K p code' r)"
    by (auto simp: analyticalIntegral_def Let_def split: sum.splits)
  have b: "analyticalIntegral erfc K p code' r = Inl e \<Longrightarrow> e = AssertionFailed" for e
    using integral_limits_error [of K p code' r e]
    by (auto simp: analyticalIntegral_def Let_def split: sum.splits)
  show ?thesis
    using b integral_limits_fails_iff [of K p code' r]
    by (auto simp: a generateEvent_def getGenerator_def split: option.splits)
qed

theorem RooJohnson_error_paths_witness:
  "generateEvent example_johnson 2 (sconst 0) =
     Some (Inl (logic_error ''Generation in other variables not yet implemented.'')) \<and>
   consecutive example_codes \<and>
   \<not> isl (analyticalIntegral erfc_real example_codes example_johnson 4 None) \<and>
   isl (analyticalIntegral erfc_real example_codes example_johnson 6 None)"
  using RooJohnson_error_paths [of 2 example_johnson "sconst 0" "\<lambda>vars v. None" "()" erfc_real
      example_codes 4 None]
    RooJohnson_error_paths [of 2 example_johnson "sconst 0" "\<lambda>vars v. None" "()" erfc_real
      example_codes 6 None]
  by (simp add: consecutive_def example_codes_def)

text \<open>The code 0, which \<open>getAnalyticalIntegral\<close> returns when nothing matches, fails
  \<open>assert(false)\<close>.\<close>

theorem analyticalIntegral_assertion_counterexample:
  "analyticalIntegral erfc_real example_codes example_johnson 0 None = Inl AssertionFailed"
  by (simp add: analyticalIntegral_def integral_limits_def example_codes_def)

section \<open>The analytic integral over the mass\<close>

lemma getAnalyticalIntegral_mass:
  "matchArgs allVars VarMass = Some analVars \<Longrightarrow>
     getAnalyticalIntegral matchArgs K allVars = (kMass K, Some analVars)"
  by (simp add: getAnalyticalIntegral_def)









lemma erfc_real_0 [simp]: "erfc_real 0 = 1"
  by (simp add: erfc_real_def)













end
